(* ===== verification/Relay_Prelude.thy ===== *)
theory Relay_Prelude
  imports Main "HOL-Library.Word"
begin

text \<open>
  Shared vocabulary of the development: the result of a Rust call that may panic, the
  machine integers \<^verbatim>\<open>i32\<close> and \<^verbatim>\<open>i64\<close> with their overflow behaviour, byte strings,
  the 32-byte array type \<^verbatim>\<open>Checksum\<close>, decimal and NUL-separated text, and the generic
  lemmas on lists the components share.

  Rust \<^verbatim>\<open>String\<close> values are UTF-8 byte sequences; they are modelled by \<^typ>\<open>string\<close>, one
  \<^typ>\<open>char\<close> per byte, so \<^term>\<open>length\<close> is \<^verbatim>\<open>str::len\<close>.
\<close>

named_theorems relay_simps \<open>unfolding rules for the small helpers of the model\<close>

subsection \<open>Calls that may panic\<close>

datatype 'a outcome = Done 'a | Panicked

definition bind_outcome :: "'a outcome \<Rightarrow> ('a \<Rightarrow> 'b outcome) \<Rightarrow> 'b outcome" where
  [relay_simps]: "bind_outcome x f = (case x of Done a \<Rightarrow> f a | Panicked \<Rightarrow> Panicked)"

lemma bind_outcome_Done [simp]: "bind_outcome (Done a) f = f a"
  by (simp add: bind_outcome_def)

lemma bind_outcome_Panicked [simp]: "bind_outcome Panicked f = Panicked"
  by (simp add: bind_outcome_def)

lemma bind_outcome_eq_Done:
  "bind_outcome x f = Done b \<longleftrightarrow> (\<exists>a. x = Done a \<and> f a = Done b)"
  by (cases x) simp_all

text \<open>The \<^verbatim>\<open>?\<close> operator on \<^verbatim>\<open>Result\<close>: the first error is the result.\<close>

definition bind_res :: "'e + 'a \<Rightarrow> ('a \<Rightarrow> 'e + 'b) \<Rightarrow> 'e + 'b" where
  [relay_simps]: "bind_res x f = (case x of Inl e \<Rightarrow> Inl e | Inr a \<Rightarrow> f a)"

lemma bind_res_simps [simp]:
  "bind_res (Inl e) f = Inl e" "bind_res (Inr a) f = f a"
  by (simp_all add: bind_res_def)

lemma bind_res_eq_Inr: "bind_res x f = Inr b \<longleftrightarrow> (\<exists>a. x = Inr a \<and> f a = Inr b)"
  by (cases x) simp_all

fun try_all :: "('e + unit) list \<Rightarrow> 'e + unit" where
  "try_all [] = Inr ()"
| "try_all (x # xs) = bind_res x (\<lambda>_. try_all xs)"

lemma try_all_Inr: "try_all xs = Inr u \<longleftrightarrow> (\<forall>x\<in>set xs. x = Inr ())"
  by (induction xs) (auto simp: bind_res_eq_Inr)

subsection \<open>Machine integers\<close>

type_synonym i32 = int
type_synonym i64 = int

definition i32_max :: int where [relay_simps]: "i32_max = 2147483647"
definition i64_max :: int where [relay_simps]: "i64_max = 9223372036854775807"

definition in_i32 :: "int \<Rightarrow> bool" where
  "in_i32 x \<longleftrightarrow> - i32_max - 1 \<le> x \<and> x \<le> i32_max"

definition in_i64 :: "int \<Rightarrow> bool" where
  "in_i64 x \<longleftrightarrow> - i64_max - 1 \<le> x \<and> x \<le> i64_max"

text \<open>Two's complement reduction, what an unchecked build does on overflow.\<close>

definition wrap_i32 :: "int \<Rightarrow> int" where
  "wrap_i32 x = (x + 2147483648) mod 4294967296 - 2147483648"

definition wrap_i64 :: "int \<Rightarrow> int" where
  "wrap_i64 x = (x + 9223372036854775808) mod 18446744073709551616 - 9223372036854775808"

text \<open>
  The result of \<^verbatim>\<open>+\<close> and \<^verbatim>\<open>-\<close> on \<^verbatim>\<open>i32\<close>/\<^verbatim>\<open>i64\<close>: the first argument is the build's
  \<^verbatim>\<open>overflow-checks\<close> setting (the workspace's \<^verbatim>\<open>Cargo.toml\<close> leaves it to the profile: on in
  dev builds, off in release builds), the second the mathematical result.
\<close>

definition arith_i32 :: "bool \<Rightarrow> int \<Rightarrow> int outcome" where
  "arith_i32 checks x =
     (if in_i32 x then Done x else if checks then Panicked else Done (wrap_i32 x))"

definition arith_i64 :: "bool \<Rightarrow> int \<Rightarrow> int outcome" where
  "arith_i64 checks x =
     (if in_i64 x then Done x else if checks then Panicked else Done (wrap_i64 x))"

text \<open>Addition on \<^verbatim>\<open>u32\<close>; the sum of two of them is not negative.\<close>

type_synonym u32 = nat

definition u32_max :: nat where "u32_max = 4294967295"

definition arith_u32 :: "bool \<Rightarrow> nat \<Rightarrow> nat outcome" where
  "arith_u32 checks x = (if x \<le> u32_max then Done x else if checks then Panicked else Done (x mod (u32_max + 1)))"

lemma arith_u32_in [simp]: "x \<le> u32_max \<Longrightarrow> arith_u32 c x = Done x"
  by (simp add: arith_u32_def)

lemma arith_u32_range: "arith_u32 c x = Done y \<Longrightarrow> y \<le> u32_max"
  by (auto simp: arith_u32_def u32_max_def split: if_splits)

lemma arith_unchecked: "arith_u32 False x \<noteq> Panicked" "arith_i64 False y \<noteq> Panicked"
  by (simp_all add: arith_u32_def arith_i64_def)

lemma arith_i32_in [simp]: "in_i32 x \<Longrightarrow> arith_i32 c x = Done x"
  by (simp add: arith_i32_def)

lemma arith_i64_in [simp]: "in_i64 x \<Longrightarrow> arith_i64 c x = Done x"
  by (simp add: arith_i64_def)

lemma wrap_i32_in: "in_i32 (wrap_i32 x)"
  using pos_mod_bound [of 4294967296 "x + 2147483648"] pos_mod_sign [of 4294967296 "x + 2147483648"]
  by (simp add: in_i32_def wrap_i32_def i32_max_def)

lemma wrap_i64_in: "in_i64 (wrap_i64 x)"
  using pos_mod_bound [of 18446744073709551616 "x + 9223372036854775808"]
    pos_mod_sign [of 18446744073709551616 "x + 9223372036854775808"]
  by (simp add: in_i64_def wrap_i64_def i64_max_def)

lemma arith_i32_range: "arith_i32 c x = Done y \<Longrightarrow> in_i32 y"
  by (auto simp: arith_i32_def wrap_i32_in split: if_splits)

lemma arith_i64_range: "arith_i64 c x = Done y \<Longrightarrow> in_i64 y"
  by (auto simp: arith_i64_def wrap_i64_in split: if_splits)

subsection \<open>Byte strings and checksums\<close>

type_synonym byte = "8 word"
type_synonym bytes = "byte list"

definition str_bytes :: "string \<Rightarrow> bytes" where
  "str_bytes s = map of_char s"

lemma str_bytes_simps [simp]:
  "str_bytes [] = []" "str_bytes (c # s) = of_char c # str_bytes s"
  "str_bytes (s @ t) = str_bytes s @ str_bytes t" "length (str_bytes s) = length s"
  by (simp_all add: str_bytes_def)

lemma unat_of_char: "unat (of_char c :: byte) = of_char c"
proof -
  have "(of_char c :: byte) = of_nat (of_char c)" by (simp add: of_nat_of_char)
  then show ?thesis by (simp add: unat_of_nat)
qed

lemma inj_of_char_byte: "inj (of_char :: char \<Rightarrow> byte)"
proof (rule injI)
  fix c d :: char
  assume "(of_char c :: byte) = of_char d"
  then have "(of_char c :: nat) = of_char d" by (metis unat_of_char)
  then show "c = d" by simp
qed

lemma str_bytes_inj [simp]: "str_bytes s = str_bytes t \<longleftrightarrow> s = t"
  by (simp add: str_bytes_def inj_map_eq_map [OF inj_of_char_byte])

text \<open>The fixed-size array type \<^verbatim>\<open>[u8; 32]\<close> (\<^verbatim>\<open>craftrelay_domain::Checksum\<close>).\<close>

typedef checksum = "{bs :: bytes. length bs = 32}"
  morphisms bytes_of array_of
  by (rule exI [of _ "replicate 32 0"]) simp

lemma length_bytes_of [simp]: "length (bytes_of c) = 32"
  using bytes_of [of c] by simp

lemma bytes_of_array_of [simp]: "length bs = 32 \<Longrightarrow> bytes_of (array_of bs) = bs"
  by (simp add: array_of_inverse)

lemma array_of_bytes_of [simp]: "array_of (bytes_of c) = c"
  by (rule bytes_of_inverse)

text \<open>The array \<^verbatim>\<open>[b; 32]\<close>.\<close>

definition fill_checksum :: "byte \<Rightarrow> checksum" where
  "fill_checksum b = array_of (replicate 32 b)"

lemma bytes_of_fill [simp]: "bytes_of (fill_checksum b) = replicate 32 b"
  by (simp add: fill_checksum_def)

lemma fill_checksum_eq [simp]: "fill_checksum a = fill_checksum b \<longleftrightarrow> a = b"
  by (metis bytes_of_fill replicate_eq_replicate zero_neq_numeral)

instantiation checksum :: equal
begin

definition equal_checksum :: "checksum \<Rightarrow> checksum \<Rightarrow> bool" where
  "equal_checksum a b \<longleftrightarrow> bytes_of a = bytes_of b"

instance
  by standard (simp add: equal_checksum_def bytes_of_inject)

end

text \<open>
  A database blob read into an array: the code checks \<^verbatim>\<open>len() == 32\<close> and then copies.
\<close>

definition checksum_of :: "bytes \<Rightarrow> checksum option" where
  "checksum_of bs = (if length bs = 32 then Some (array_of bs) else None)"

lemma checksum_of_bytes_of [simp]: "checksum_of (bytes_of c) = Some c"
  by (simp add: checksum_of_def)

lemma checksum_of_eq_Some: "checksum_of bs = Some c \<longleftrightarrow> bs = bytes_of c"
  by (auto simp: checksum_of_def split: if_splits)

lemma checksum_of_eq_None: "checksum_of bs = None \<longleftrightarrow> length bs \<noteq> 32"
  by (simp add: checksum_of_def)

subsection \<open>Decimal text\<close>

definition digit_char :: "nat \<Rightarrow> char" where
  "digit_char n = char_of (48 + n)"

fun show_nat :: "nat \<Rightarrow> string" where
  "show_nat n =
     (if n < 10 then [digit_char n] else show_nat (n div 10) @ [digit_char (n mod 10)])"

declare show_nat.simps [simp del]

text \<open>\<^verbatim>\<open>to_string()\<close> on the signed integer types.\<close>

definition show_int :: "int \<Rightarrow> string" where
  "show_int i = (if i < 0 then CHR ''-'' # show_nat (nat (- i)) else show_nat (nat i))"

definition read_nat :: "string \<Rightarrow> nat" where
  "read_nat s = foldl (\<lambda>a c. 10 * a + (of_char c - 48)) 0 s"

lemma of_char_digit_char: "n < 10 \<Longrightarrow> (of_char (digit_char n) :: nat) = 48 + n"
  by (simp add: digit_char_def)

lemma read_show_nat: "read_nat (show_nat n) = n"
proof (induction n rule: show_nat.induct)
  case (1 n)
  show ?case
  proof (cases "n < 10")
    case True
    then show ?thesis by (simp add: show_nat.simps [of n] read_nat_def of_char_digit_char)
  next
    case False
    then have "read_nat (show_nat n) = 10 * read_nat (show_nat (n div 10)) + n mod 10"
      by (simp add: show_nat.simps [of n] read_nat_def of_char_digit_char)
    with "1" False show ?thesis by simp
  qed
qed

lemma show_nat_digits: "c \<in> set (show_nat n) \<Longrightarrow> \<exists>k<10. c = digit_char k"
proof (induction n rule: show_nat.induct)
  case (1 n)
  show ?case
  proof (cases "n < 10")
    case True
    with "1.prems" show ?thesis by (auto simp: show_nat.simps [of n])
  next
    case False
    with "1.prems" consider "c \<in> set (show_nat (n div 10))" | "c = digit_char (n mod 10)"
      by (auto simp: show_nat.simps [of n])
    then show ?thesis
    proof cases
      case 1
      with "1.IH" False show ?thesis by blast
    next
      case 2
      moreover have "n mod 10 < 10" by simp
      ultimately show ?thesis by blast
    qed
  qed
qed

lemma digit_char_neq:
  assumes "k < 10"
  shows "digit_char k \<noteq> CHR ''-''" "digit_char k \<noteq> CHR 0x00"
proof -
  have "(of_char (digit_char k) :: nat) \<noteq> of_char CHR ''-''"
    using assms by (simp add: of_char_digit_char)
  then show "digit_char k \<noteq> CHR ''-''" by metis
  have "(of_char (digit_char k) :: nat) \<noteq> of_char CHR 0x00"
    using assms by (simp add: of_char_digit_char)
  then show "digit_char k \<noteq> CHR 0x00" by metis
qed

lemma show_nat_inj: "show_nat m = show_nat n \<longleftrightarrow> m = n"
  by (metis read_show_nat)

lemma show_nat_no_minus: "CHR ''-'' \<notin> set (show_nat n)"
  using digit_char_neq(1) show_nat_digits by fastforce

lemma show_int_inj [simp]: "show_int i = show_int j \<longleftrightarrow> i = j"
proof
  assume eq: "show_int i = show_int j"
  have *: "CHR ''-'' # show_nat m \<noteq> show_nat n" for m n
    using show_nat_no_minus [of n] by (metis list.set_intros(1))
  from eq * show "i = j"
    by (auto simp: show_int_def show_nat_inj split: if_splits) (metis *)+
qed simp

lemma show_int_no_nul: "CHR 0x00 \<notin> set (show_int i)"
proof -
  have "CHR 0x00 \<notin> set (show_nat n)" for n
    using digit_char_neq(2) show_nat_digits by fastforce
  then show ?thesis by (simp add: show_int_def)
qed

end
