(* ===== verification/Relay_Text.thy ===== *)
theory Relay_Text
  imports Relay_Prelude
begin

text \<open>
  The text and byte encodings the code hashes and compares: separator-joined strings
  (\<^verbatim>\<open>format!("{}\0{}")\<close>, \<^verbatim>\<open>join("|")\<close>), big-endian integers (\<^verbatim>\<open>to_be_bytes\<close>), hexadecimal
  text, and the \<^verbatim>\<open>{:?}\<close> rendering of strings, options and lists. The lemmas say when such
  an encoding can be read back, which is what a checksum over it protects.
\<close>

subsection \<open>Separator-joined strings\<close>

abbreviation nul :: char where "nul \<equiv> CHR 0x00"

fun intercalate :: "'a list \<Rightarrow> 'a list list \<Rightarrow> 'a list" where
  "intercalate sep [] = []"
| "intercalate sep [x] = x"
| "intercalate sep (x # y # zs) = x @ sep @ intercalate sep (y # zs)"

definition join_nul :: "string list \<Rightarrow> string" where
  "join_nul = intercalate [nul]"

definition nul_free :: "string \<Rightarrow> bool" where
  "nul_free s \<longleftrightarrow> nul \<notin> set s"

text \<open>Text up to the first separator is determined by the joined text.\<close>

lemma sep_append_cancel:
  assumes "x @ c # xs = y @ c # ys" "c \<notin> set x" "c \<notin> set y"
  shows "x = y \<and> xs = ys"
  using assms
proof (induction x arbitrary: y)
  case Nil
  then show ?case by (cases y) auto
next
  case (Cons a x)
  then show ?case by (cases y) auto
qed

lemma sep_notin_conv:
  "c \<notin> set x \<Longrightarrow> x \<noteq> y @ c # ys"
  by auto

lemma intercalate_sep_inj:
  assumes "length xs = length ys" "\<forall>s\<in>set xs. c \<notin> set s" "\<forall>s\<in>set ys. c \<notin> set s"
    and "intercalate [c] xs = intercalate [c] ys"
  shows "xs = ys"
  using assms
proof (induction xs ys rule: list_induct2)
  case Nil
  then show ?case by simp
next
  case (Cons x xs y ys)
  show ?case
  proof (cases xs)
    case Nil
    with Cons.hyps Cons.prems show ?thesis by simp
  next
    case (Cons x' xs')
    with Cons.hyps obtain y' ys' where ys: "ys = y' # ys'" by (cases ys) auto
    with Cons Cons.prems have "x @ c # intercalate [c] xs = y @ c # intercalate [c] ys"
      by simp
    with Cons.prems have "x = y \<and> intercalate [c] xs = intercalate [c] ys"
      by (intro sep_append_cancel) auto
    with Cons.IH Cons.prems show ?thesis by simp
  qed
qed

lemma join_nul_inj:
  assumes "length xs = length ys" "list_all nul_free xs" "list_all nul_free ys"
  shows "join_nul xs = join_nul ys \<longleftrightarrow> xs = ys"
  using assms intercalate_sep_inj [of xs ys nul]
  by (auto simp: join_nul_def list_all_iff nul_free_def)

lemma nul_free_simps [simp]:
  "nul_free []" "nul_free (c # s) \<longleftrightarrow> c \<noteq> nul \<and> nul_free s"
  "nul_free (s @ t) \<longleftrightarrow> nul_free s \<and> nul_free t" "nul_free (show_int i)"
  using show_int_no_nul by (auto simp: nul_free_def)

subsection \<open>Big-endian integers\<close>

fun be_bytes :: "nat \<Rightarrow> int \<Rightarrow> bytes" where
  "be_bytes 0 i = []"
| "be_bytes (Suc k) i = be_bytes k (i div 256) @ [word_of_int i]"

abbreviation be_i32 :: "i32 \<Rightarrow> bytes" where "be_i32 \<equiv> be_bytes 4"
abbreviation be_i64 :: "i64 \<Rightarrow> bytes" where "be_i64 \<equiv> be_bytes 8"

lemma length_be_bytes [simp]: "length (be_bytes k i) = k"
  by (induction k arbitrary: i) auto

lemma word_of_int_byte_eq: "(word_of_int i :: byte) = word_of_int j \<longleftrightarrow> i mod 256 = j mod 256"
  by (simp add: word_of_int_eq_iff take_bit_eq_mod)

lemma mod_mult_split:
  fixes i j m :: int
  assumes "0 < m"
  shows "i mod (256 * m) = j mod (256 * m) \<longleftrightarrow> i mod 256 = j mod 256 \<and> (i div 256) mod m = (j div 256) mod m"
proof
  assume eq: "i mod (256 * m) = j mod (256 * m)"
  then have "i mod (256 * m) mod 256 = j mod (256 * m) mod 256"
    and "i mod (256 * m) div 256 = j mod (256 * m) div 256" by simp_all
  then show "i mod 256 = j mod 256 \<and> (i div 256) mod m = (j div 256) mod m"
    using assms by (simp add: zmod_zmult2_eq mod_mod_cancel)
next
  assume "i mod 256 = j mod 256 \<and> (i div 256) mod m = (j div 256) mod m"
  then show "i mod (256 * m) = j mod (256 * m)"
    using assms by (simp add: zmod_zmult2_eq)
qed

lemma be_bytes_eq_iff: "be_bytes k i = be_bytes k j \<longleftrightarrow> i mod 256 ^ k = j mod 256 ^ k"
proof (induction k arbitrary: i j)
  case 0
  then show ?case by simp
next
  case (Suc k)
  then show ?case
    using mod_mult_split [of "256 ^ k" i j] by (simp add: word_of_int_byte_eq conj_commute)
qed

lemma mod_window_inj:
  fixes i j m :: int
  assumes "- h \<le> i" "i < h" "- h \<le> j" "j < h" "m = 2 * h" "i mod m = j mod m"
  shows "i = j"
proof -
  have "m dvd i - j" using assms(6) by (simp add: mod_eq_dvd_iff)
  moreover have "\<bar>i - j\<bar> < m" using assms by linarith
  ultimately show ?thesis by (metis dvd_imp_le_int abs_of_nonneg abs_ge_zero dvd_abs_iff
      eq_iff_diff_eq_0 linorder_not_le zdvd_imp_le zero_less_abs_iff)
qed

lemma be_i64_inj: "in_i64 i \<Longrightarrow> in_i64 j \<Longrightarrow> be_i64 i = be_i64 j \<longleftrightarrow> i = j"
  using mod_window_inj [of 9223372036854775808 i j 18446744073709551616]
  by (auto simp: be_bytes_eq_iff in_i64_def i64_max_def)

lemma be_i32_inj: "in_i32 i \<Longrightarrow> in_i32 j \<Longrightarrow> be_i32 i = be_i32 j \<longleftrightarrow> i = j"
  using mod_window_inj [of 2147483648 i j 4294967296]
  by (auto simp: be_bytes_eq_iff in_i32_def i32_max_def)

subsection \<open>Hexadecimal text\<close>

definition hex_digit :: "nat \<Rightarrow> char" where
  "hex_digit n = (if n < 10 then char_of (48 + n) else char_of (87 + n))"

lemma of_char_hex_digit: "n < 16 \<Longrightarrow> of_char (hex_digit n) = (if n < 10 then 48 + n else 87 + n)"
  by (simp add: hex_digit_def)

lemma unat_byte_less: "unat (b :: byte) < 256"
  using unsigned_less [of b, where ?'a = nat] by simp

lemma byte_high_nibble: "unat (b :: byte) div 16 < 16"
  using unat_byte_less [of b] by (simp add: less_mult_imp_div_less)

lemma hex_digit_inj: "m < 16 \<Longrightarrow> n < 16 \<Longrightarrow> hex_digit m = hex_digit n \<longleftrightarrow> m = n"
proof
  assume "m < 16" "n < 16" "hex_digit m = hex_digit n"
  then have "(of_char (hex_digit m) :: nat) = of_char (hex_digit n)" by simp
  with \<open>m < 16\<close> \<open>n < 16\<close> show "m = n" by (simp add: of_char_hex_digit split: if_splits)
qed simp

lemma hex_digit_not_nul: "n < 16 \<Longrightarrow> hex_digit n \<noteq> nul"
proof
  assume "n < 16" "hex_digit n = nul"
  then have "(of_char (hex_digit n) :: nat) = of_char nul" by simp
  with \<open>n < 16\<close> show False by (simp add: of_char_hex_digit split: if_splits)
qed

subsection \<open>Debug rendering\<close>

text \<open>
  \<^verbatim>\<open>{:?}\<close> on a string: quoted, with the escapes of \<^verbatim>\<open>char::escape_debug\<close>. The rendering is
  exact on ASCII text; bytes from 128 up are kept as they are, which is what Rust prints for
  printable characters.
\<close>

fun hex_nat :: "nat \<Rightarrow> string" where
  "hex_nat n = (if n < 16 then [hex_digit n] else hex_nat (n div 16) @ [hex_digit (n mod 16)])"

declare hex_nat.simps [simp del]

definition escape_char :: "char \<Rightarrow> string" where
  "escape_char c =
     (let n = of_char c :: nat in
      if n = 0 then [CHR 0x5C, CHR ''0'']
      else if n = 9 then [CHR 0x5C, CHR ''t'']
      else if n = 10 then [CHR 0x5C, CHR ''n'']
      else if n = 13 then [CHR 0x5C, CHR ''r'']
      else if n = 34 \<or> n = 92 then [CHR 0x5C, c]
      else if n < 32 \<or> n = 127 then [CHR 0x5C] @ ''u{'' @ hex_nat n @ ''}''
      else [c])"

definition debug_str :: "string \<Rightarrow> string" where
  "debug_str s = CHR 0x22 # concat (map escape_char s) @ [CHR 0x22]"

definition debug_option :: "('a \<Rightarrow> string) \<Rightarrow> 'a option \<Rightarrow> string" where
  "debug_option f x = (case x of None \<Rightarrow> ''None'' | Some a \<Rightarrow> ''Some('' @ f a @ '')'')"

end
