(* ===== verification/Domain_Core.thy ===== *)
theory Domain_Core
  imports Relay_Text
begin

text \<open>
  The small validators and value types of \<^verbatim>\<open>craftrelay-domain\<close>: positive integers, revision
  comparison, scoped names, UUID shape and the keyed digest. SHA-256 is the third-party crate
  \<^verbatim>\<open>sha2\<close>; it is the parameter \<open>sha\<close> of every definition that hashes.
\<close>

unbundle bit_operations_syntax

subsection \<open>Value types\<close>

datatype validation_error =
    InvalidUuid | NonPositiveInt32 | NonPositiveInt64 | MetadataCountExceeded
  | MetadataBytesExceeded | InvalidMetadataKey | DuplicateMetadataKey
  | TokenInvalidMac | TokenExpired | TokenScopeMismatch

datatype delivery_status =
    LocalAccepted | DeliveryPending | DeliveryRetrying | Replicated | DeliveryBlocked

datatype projection_status = NotRequired | Pending | Acknowledged | ProjectionBlocked

datatype payload_retention_status = Present | Eligible | Removed | IntegrityBlocked

record 'a revisioned_state =
  rs_revision :: i64
  rs_snapshot_checksum :: checksum
  rs_value :: 'a

datatype revision_decision = Inserted | Duplicate | IntegrityConflict | Stale

subsection \<open>Validators\<close>

definition positive_i32 :: "i32 \<Rightarrow> validation_error + i32" where
  "positive_i32 v = (if 0 < v then Inr v else Inl NonPositiveInt32)"

definition positive_i64 :: "i64 \<Rightarrow> validation_error + i64" where
  "positive_i64 v = (if 0 < v then Inr v else Inl NonPositiveInt64)"

definition compare_revision ::
    "i64 \<Rightarrow> checksum \<Rightarrow> i64 \<Rightarrow> checksum \<Rightarrow> revision_decision" where
  "compare_revision current_revision current_checksum incoming_revision incoming_checksum =
     (if incoming_revision > current_revision then Inserted
      else if incoming_revision < current_revision then Stale
      else if incoming_checksum = current_checksum then Duplicate
      else IntegrityConflict)"

definition scoped_name :: "string \<Rightarrow> string \<Rightarrow> string" where
  "scoped_name installation_id name = installation_id @ [nul] @ name"

subsection \<open>UUID version 7 in canonical text form\<close>

definition is_ascii_lowercase :: "char \<Rightarrow> bool" where
  "is_ascii_lowercase c \<longleftrightarrow> 97 \<le> (of_char c :: nat) \<and> (of_char c :: nat) \<le> 122"

definition is_ascii_digit :: "char \<Rightarrow> bool" where
  "is_ascii_digit c \<longleftrightarrow> 48 \<le> (of_char c :: nat) \<and> (of_char c :: nat) \<le> 57"

definition is_canonical_uuid_v7 :: "string \<Rightarrow> bool" where
  "is_canonical_uuid_v7 value \<longleftrightarrow>
     length value = 36 \<and>
     list_all (\<lambda>index. value ! index = CHR ''-'') [8, 13, 18, 23] \<and>
     list_all (\<lambda>(index, b). index \<in> set [8, 13, 18, 23] \<or> is_ascii_digit b \<or>
        (97 \<le> (of_char b :: nat) \<and> (of_char b :: nat) \<le> 102)) (enumerate 0 value) \<and>
     value ! 14 = CHR ''7'' \<and>
     value ! 19 \<in> set ''89ab''"

subsection \<open>Keyed digest\<close>

text \<open>
  The two loops of \<^verbatim>\<open>hmac_sha256\<close>: the key copied to the front of a zeroed block, and the
  in-place exclusive-or of the padding blocks with it.
\<close>

definition hmac_padded_key :: "(bytes \<Rightarrow> checksum) \<Rightarrow> bytes \<Rightarrow> bytes" where
  "hmac_padded_key sha key =
     (let key_material = (if length key > 64 then bytes_of (sha key) else key) in
      key_material @ drop (length key_material) (replicate 64 0))"

definition xor_block :: "bytes \<Rightarrow> bytes \<Rightarrow> bytes" where
  "xor_block padded pad =
     fold (\<lambda>index p. p[index := (p ! index) XOR (padded ! index)]) [0..<64] pad"

definition hmac_sha256 :: "(bytes \<Rightarrow> checksum) \<Rightarrow> bytes \<Rightarrow> bytes \<Rightarrow> checksum" where
  "hmac_sha256 sha key message =
     (let padded = hmac_padded_key sha key;
          inner_pad = xor_block padded (replicate 64 0x36);
          outer_pad = xor_block padded (replicate 64 0x5c);
          inner_digest = sha (inner_pad @ message)
      in sha (outer_pad @ bytes_of inner_digest))"

subsection \<open>Lemmas\<close>

lemma compare_revision_trichotomy:
  "compare_revision cr cc ir ic = Inserted \<longleftrightarrow> cr < ir"
  "compare_revision cr cc ir ic = Stale \<longleftrightarrow> ir < cr"
  "compare_revision cr cc ir ic = Duplicate \<longleftrightarrow> ir = cr \<and> ic = cc"
  "compare_revision cr cc ir ic = IntegrityConflict \<longleftrightarrow> ir = cr \<and> ic \<noteq> cc"
  by (auto simp: compare_revision_def)

lemma scoped_name_inj:
  assumes "nul_free i" "nul_free j"
  shows "scoped_name i n = scoped_name j m \<longleftrightarrow> i = j \<and> n = m"
  using assms sep_append_cancel [of i nul n j m] by (auto simp: scoped_name_def nul_free_def)

lemma length_hmac_padded_key [simp]: "length (hmac_padded_key sha key) = 64"
  by (simp add: hmac_padded_key_def Let_def)

text \<open>The index loop computes the pointwise exclusive-or.\<close>

lemma xor_loop_prefix:
  assumes "length padded = n" "length pad = n" "k \<le> n"
  shows "fold (\<lambda>index p. p[index := (p ! index) XOR (padded ! index)]) [0..<k] pad =
    map2 (XOR) (take k pad) (take k padded) @ drop k pad"
  using assms(3)
proof (induction k)
  case 0
  then show ?case by simp
next
  case (Suc k)
  then have k: "k < length pad" "k < length padded" using assms by simp_all
  let ?p = "map2 (XOR) (take k pad) (take k padded) @ drop k pad"
  have len: "length (map2 (XOR) (take k pad) (take k padded)) = k" using k by simp
  have "?p[k := (?p ! k) XOR (padded ! k)] =
      map2 (XOR) (take k pad) (take k padded) @ ((pad ! k) XOR (padded ! k)) # drop (Suc k) pad"
    using k len by (simp add: list_update_append nth_append Cons_nth_drop_Suc [symmetric])
  also have "\<dots> = map2 (XOR) (take (Suc k) pad) (take (Suc k) padded) @ drop (Suc k) pad"
    using k by (simp add: take_Suc_conv_app_nth)
  finally show ?case using Suc by simp
qed

lemma xor_block_map2:
  assumes "length padded = 64" "length pad = 64"
  shows "xor_block padded pad = map2 (XOR) pad padded"
  using xor_loop_prefix [OF assms, of 64] assms by (simp add: xor_block_def)

lemma map2_replicate_left: "map2 f (replicate n a) ys = map (f a) (take n ys)"
proof (induction n arbitrary: ys)
  case (Suc n)
  then show ?case by (cases ys) simp_all
qed simp

lemma xor_block_const:
  "length padded = 64 \<Longrightarrow> xor_block padded (replicate 64 b) = map ((XOR) b) padded"
  by (simp add: xor_block_map2 map2_replicate_left)

text \<open>Reference: the HMAC construction of RFC 2104 over a digest with 64-byte blocks.\<close>

definition rfc2104_key :: "(bytes \<Rightarrow> checksum) \<Rightarrow> bytes \<Rightarrow> bytes" where
  "rfc2104_key sha key =
     (let k = (if length key \<le> 64 then key else bytes_of (sha key)) in k @ replicate (64 - length k) 0)"

definition rfc2104_hmac :: "(bytes \<Rightarrow> checksum) \<Rightarrow> bytes \<Rightarrow> bytes \<Rightarrow> checksum" where
  "rfc2104_hmac sha key message =
     (let k = rfc2104_key sha key in
      sha (map ((XOR) 0x5c) k @ bytes_of (sha (map ((XOR) 0x36) k @ message))))"

lemma hmac_padded_key_rfc: "hmac_padded_key sha key = rfc2104_key sha key"
  by (auto simp: hmac_padded_key_def rfc2104_key_def Let_def)

text \<open>
  C33: for every digest function, key and message, \<open>hmac_sha256\<close> (with its copy and
  exclusive-or loops over 64-byte blocks) computes the HMAC of RFC 2104; keys longer than a
  block are hashed first and shorter ones are zero-padded.
\<close>

theorem hmac_sha256_is_rfc2104: "hmac_sha256 sha key message = rfc2104_hmac sha key message"
proof -
  have "length (rfc2104_key sha key) = 64"
    using length_hmac_padded_key [of sha key] by (simp add: hmac_padded_key_rfc)
  then show ?thesis
    by (simp add: hmac_sha256_def rfc2104_hmac_def Let_def hmac_padded_key_rfc xor_block_const)
qed

end
