(* ===== verification/Domain_Metadata.thy ===== *)
theory Domain_Metadata
  imports Domain_Core "HOL-Library.Char_ord" "HOL-Library.List_Lexorder" "HOL-Library.Multiset"
begin

text \<open>
  Client metadata of \<^verbatim>\<open>craftrelay-domain\<close>: \<^verbatim>\<open>canonicalize_metadata\<close> checks the entries in order
  (key shape, duplicate keys, byte total), then sorts them by key bytes;
  \<^verbatim>\<open>canonical_metadata_text\<close> renders them. Strings are ordered by \<open>List_Lexorder\<close> over
  \<open>Char_ord\<close>, which is the byte order of \<^verbatim>\<open>as_bytes().cmp\<close>.
\<close>

definition MAX_METADATA_ENTRIES :: nat where "MAX_METADATA_ENTRIES = 32"
definition MAX_METADATA_BYTES :: nat where "MAX_METADATA_BYTES = 8192"

definition usize_max :: nat where "usize_max = 18446744073709551615"

record metadata_entry =
  me_key :: string
  me_value :: string

definition valid_metadata_key :: "string \<Rightarrow> bool" where
  "valid_metadata_key key \<longleftrightarrow>
     key \<noteq> [] \<and>
     list_all (\<lambda>(index, b). is_ascii_lowercase b \<or> is_ascii_digit b \<or>
        (0 < index \<and> b \<in> set ''._-'')) (enumerate 0 key)"

text \<open>The checking loop: \<open>keys\<close> is the set of keys seen so far, \<open>acc\<close> the running byte count.\<close>

fun check_metadata ::
    "metadata_entry list \<Rightarrow> string list \<Rightarrow> nat \<Rightarrow> validation_error + nat" where
  "check_metadata [] keys acc = Inr acc"
| "check_metadata (entry # entries) keys acc =
     (if \<not> valid_metadata_key (me_key entry) then Inl InvalidMetadataKey
      else if me_key entry \<in> set keys then Inl DuplicateMetadataKey
      else let acc' = acc + (length (me_key entry) + length (me_value entry)) in
        if acc' > usize_max then Inl MetadataBytesExceeded
        else check_metadata entries (me_key entry # keys) acc')"

definition canonicalize_metadata ::
    "metadata_entry list \<Rightarrow> validation_error + metadata_entry list" where
  "canonicalize_metadata entries =
     (if length entries > MAX_METADATA_ENTRIES then Inl MetadataCountExceeded
      else case check_metadata entries [] 0 of
        Inl e \<Rightarrow> Inl e
      | Inr total_bytes \<Rightarrow>
          if total_bytes > MAX_METADATA_BYTES then Inl MetadataBytesExceeded
          else Inr (sort_key me_key entries))"

definition canonical_metadata_text :: "metadata_entry list \<Rightarrow> validation_error + string" where
  "canonical_metadata_text entries =
     (case canonicalize_metadata entries of
        Inl e \<Rightarrow> Inl e
      | Inr canonical \<Rightarrow>
          Inr (intercalate ''|'' (map (\<lambda>entry. me_key entry @ ''='' @ me_value entry) canonical)))"

subsection \<open>Lemmas\<close>

definition metadata_bytes :: "metadata_entry list \<Rightarrow> nat" where
  "metadata_bytes entries = sum_list (map (\<lambda>e. length (me_key e) + length (me_value e)) entries)"

lemma check_metadata_Inr_iff:
  "check_metadata entries keys acc = Inr t \<longleftrightarrow>
     list_all (\<lambda>e. valid_metadata_key (me_key e)) entries \<and>
     distinct (map me_key entries) \<and> set (map me_key entries) \<inter> set keys = {} \<and>
     t = acc + metadata_bytes entries \<and> (entries = [] \<or> t \<le> usize_max)"
proof (induction entries arbitrary: keys acc)
  case Nil
  then show ?case by (auto simp: metadata_bytes_def)
next
  case (Cons e es)
  show ?case
    by (cases "es = []") (auto simp: Cons.IH Let_def metadata_bytes_def)
qed

definition metadata_acceptable :: "metadata_entry list \<Rightarrow> bool" where
  "metadata_acceptable entries \<longleftrightarrow>
     length entries \<le> 32 \<and> metadata_bytes entries \<le> 8192 \<and>
     distinct (map me_key entries) \<and> list_all (\<lambda>e. valid_metadata_key (me_key e)) entries"

lemma canonicalize_metadata_Inr_iff:
  "canonicalize_metadata entries = Inr canonical \<longleftrightarrow>
     metadata_acceptable entries \<and> canonical = sort_key me_key entries"
proof (cases "check_metadata entries [] 0")
  case (Inl e)
  have "\<not> metadata_acceptable entries"
  proof
    assume "metadata_acceptable entries"
    then have "check_metadata entries [] 0 = Inr (metadata_bytes entries)"
      by (simp add: check_metadata_Inr_iff metadata_acceptable_def usize_max_def)
    with Inl show False by simp
  qed
  with Inl show ?thesis by (auto simp: canonicalize_metadata_def)
next
  case (Inr t)
  then have "list_all (\<lambda>e. valid_metadata_key (me_key e)) entries \<and> distinct (map me_key entries)"
    and "t = metadata_bytes entries" by (simp_all add: check_metadata_Inr_iff)
  with Inr show ?thesis
    by (auto simp: canonicalize_metadata_def metadata_acceptable_def MAX_METADATA_ENTRIES_def
        MAX_METADATA_BYTES_def)
qed

lemma metadata_acceptable_mset:
  assumes "mset entries = mset entries'"
  shows "metadata_acceptable entries = metadata_acceptable entries'"
proof -
  have "length entries = length entries'" using assms by (metis size_mset)
  moreover have "metadata_bytes entries = metadata_bytes entries'"
    using assms by (simp add: metadata_bytes_def flip: sum_mset_sum_list)
  moreover have "distinct (map me_key entries) = distinct (map me_key entries')"
    using assms by (metis mset_eq_imp_distinct_iff mset_map)
  moreover have "set entries = set entries'" using assms by (rule mset_eq_setD)
  ultimately show ?thesis by (simp add: metadata_acceptable_def list_all_iff)
qed

lemma sort_key_distinct_mset:
  assumes "mset xs = mset ys" "distinct (map f xs)"
  shows "sort_key f xs = sort_key f ys"
proof (rule properties_for_sort_key)
  show "mset (sort_key f ys) = mset xs" using assms by simp
  show "sorted (map f (sort_key f ys))" by simp
  fix k
  assume k: "k \<in> set (sort_key f ys)"
  then have "k \<in> set xs" using assms(1) by (metis mset_eq_setD set_sort)
  have one: "filter (\<lambda>x. f x = f k) zs = [k]" if "distinct (map f zs)" "k \<in> set zs" for zs
    using that by (induction zs) (auto simp: filter_empty_conv image_iff)
  have "distinct (map f (sort_key f ys))"
    using assms by (metis mset_eq_imp_distinct_iff mset_map mset_sort)
  then show "filter (\<lambda>x. f k = f x) (sort_key f ys) = filter (\<lambda>x. f k = f x) xs"
    using one k \<open>k \<in> set xs\<close> assms(2) by (simp add: eq_commute [of "f k"])
qed

lemmas metadata_eval = canonical_metadata_text_def canonicalize_metadata_def
  MAX_METADATA_ENTRIES_def MAX_METADATA_BYTES_def usize_max_def valid_metadata_key_def
  is_ascii_lowercase_def is_ascii_digit_def Let_def less_char_def less_eq_char_def

text \<open>
  C34: canonicalisation accepts exactly the entry lists within the count and byte limits whose
  keys are well formed and pairwise distinct, and then returns a permutation of the input that
  is sorted by key bytes.
\<close>

theorem canonicalize_metadata_spec:
  "canonicalize_metadata entries = Inr canonical \<longleftrightarrow>
     length entries \<le> 32 \<and> metadata_bytes entries \<le> 8192 \<and>
     distinct (map me_key entries) \<and> list_all (\<lambda>e. valid_metadata_key (me_key e)) entries \<and>
     mset canonical = mset entries \<and> sorted (map me_key canonical)"
proof
  assume "canonicalize_metadata entries = Inr canonical"
  then show "length entries \<le> 32 \<and> metadata_bytes entries \<le> 8192 \<and>
     distinct (map me_key entries) \<and> list_all (\<lambda>e. valid_metadata_key (me_key e)) entries \<and>
     mset canonical = mset entries \<and> sorted (map me_key canonical)"
    by (auto simp: canonicalize_metadata_Inr_iff metadata_acceptable_def)
next
  assume *: "length entries \<le> 32 \<and> metadata_bytes entries \<le> 8192 \<and>
     distinct (map me_key entries) \<and> list_all (\<lambda>e. valid_metadata_key (me_key e)) entries \<and>
     mset canonical = mset entries \<and> sorted (map me_key canonical)"
  then have "sort_key me_key entries = sort_key me_key canonical"
    using sort_key_distinct_mset [of entries canonical me_key] by simp
  with * show "canonicalize_metadata entries = Inr canonical"
    by (simp add: canonicalize_metadata_Inr_iff metadata_acceptable_def sort_key_id_if_sorted)
qed

text \<open>
  The canonical text of accepted metadata depends on the set of entries only: listing the
  same entries in another order is accepted too and gives the same text.
\<close>

theorem canonical_metadata_text_order_independent:
  assumes "mset entries = mset entries'"
    and "canonical_metadata_text entries = Inr text"
  shows "canonical_metadata_text entries' = Inr text"
proof -
  from assms(2) have ok: "metadata_acceptable entries"
    by (auto simp: canonical_metadata_text_def canonicalize_metadata_Inr_iff split: sum.splits)
  with assms(1) have "canonicalize_metadata entries' = canonicalize_metadata entries"
    using sort_key_distinct_mset [of entries entries' me_key] metadata_acceptable_mset [OF assms(1)]
    by (metis canonicalize_metadata_Inr_iff metadata_acceptable_def)
  with assms(2) show ?thesis by (simp add: canonical_metadata_text_def)
qed

theorem canonical_metadata_text_order_independent_witness:
  "canonical_metadata_text [\<lparr>me_key = ''a'', me_value = ''first''\<rparr>, \<lparr>me_key = ''z'', me_value = ''last''\<rparr>]
     = Inr ''a=first|z=last''"
  by (rule canonical_metadata_text_order_independent
      [of "[\<lparr>me_key = ''z'', me_value = ''last''\<rparr>, \<lparr>me_key = ''a'', me_value = ''first''\<rparr>]"])
    (simp_all add: add_mset_commute metadata_eval)

text \<open>
  The canonical text does not determine the metadata: values may hold the separator
  characters, so two different accepted entry lists share one canonical text.
\<close>

theorem canonical_metadata_text_ambiguous:
  "canonical_metadata_text [\<lparr>me_key = ''a'', me_value = ''1|b=2''\<rparr>] = Inr ''a=1|b=2'' \<and>
   canonical_metadata_text [\<lparr>me_key = ''a'', me_value = ''1''\<rparr>, \<lparr>me_key = ''b'', me_value = ''2''\<rparr>]
     = Inr ''a=1|b=2''"
  by (simp add: metadata_eval)

end
