(* ===== verification/Domain_Flush.thy ===== *)
theory Domain_Flush
  imports Relay_Prelude
begin

text \<open>
  Group-commit flush criteria of \<^verbatim>\<open>craftrelay-domain\<close>: the flush trigger and the resolution of a
  requested policy against the installation's bounds. \<^verbatim>\<open>Ord::clamp\<close> panics when its lower
  bound exceeds its upper bound, so the resolution is an \<^typ>\<open>'a outcome\<close>.
\<close>

record requested_flush_criteria =
  rq_max_records :: i32
  rq_max_bytes :: i64
  rq_max_age_millis :: i64

record effective_flush_criteria =
  ef_max_records :: i32
  ef_max_bytes :: i64
  ef_max_age_millis :: i64

record flush_policy_bounds =
  fb_minimum :: effective_flush_criteria
  fb_maximum :: effective_flush_criteria

datatype policy_decision = Accepted | Clamped effective_flush_criteria | Rejected

definition should_flush :: "effective_flush_criteria \<Rightarrow> i32 \<Rightarrow> i64 \<Rightarrow> i64 \<Rightarrow> bool \<Rightarrow> bool" where
  "should_flush c records bytes age_millis draining \<longleftrightarrow>
     draining \<or> records \<ge> ef_max_records c \<or> bytes \<ge> ef_max_bytes c \<or>
     age_millis \<ge> ef_max_age_millis c"

definition semantic_coalescing_allowed :: "string \<Rightarrow> bool" where
  "semantic_coalescing_allowed event_class \<longleftrightarrow>
     event_class \<notin> {''P0_LEDGER'', ''P0_OWNERSHIP'', ''P0_PREMIUM'', ''P0_UNIQUE_ITEM'', ''P0_SECURITY''}"

definition clamp :: "int \<Rightarrow> int \<Rightarrow> int \<Rightarrow> int outcome" where
  "clamp v lo hi =
     (if hi < lo then Panicked else Done (if v < lo then lo else if v > hi then hi else v))"

definition resolve_flush_policy ::
    "requested_flush_criteria \<Rightarrow> flush_policy_bounds \<Rightarrow> bool \<Rightarrow> policy_decision outcome" where
  "resolve_flush_policy requested bounds reject_if_clamped =
     (if rq_max_records requested \<le> 0 \<or> rq_max_bytes requested \<le> 0 \<or> rq_max_age_millis requested \<le> 0
      then Done Rejected
      else
        bind_outcome (clamp (rq_max_records requested) (ef_max_records (fb_minimum bounds))
          (ef_max_records (fb_maximum bounds))) (\<lambda>records.
        bind_outcome (clamp (rq_max_bytes requested) (ef_max_bytes (fb_minimum bounds))
          (ef_max_bytes (fb_maximum bounds))) (\<lambda>bytes.
        bind_outcome (clamp (rq_max_age_millis requested) (ef_max_age_millis (fb_minimum bounds))
          (ef_max_age_millis (fb_maximum bounds))) (\<lambda>age.
        let effective = \<lparr>ef_max_records = records, ef_max_bytes = bytes, ef_max_age_millis = age\<rparr>;
            unchanged = (ef_max_records effective = rq_max_records requested \<and>
              ef_max_bytes effective = rq_max_bytes requested \<and>
              ef_max_age_millis effective = rq_max_age_millis requested)
        in Done (if unchanged then Accepted
                 else if reject_if_clamped then Rejected
                 else Clamped effective)))))"

subsection \<open>Lemmas\<close>

definition bounds_ordered :: "flush_policy_bounds \<Rightarrow> bool" where
  "bounds_ordered b \<longleftrightarrow>
     ef_max_records (fb_minimum b) \<le> ef_max_records (fb_maximum b) \<and>
     ef_max_bytes (fb_minimum b) \<le> ef_max_bytes (fb_maximum b) \<and>
     ef_max_age_millis (fb_minimum b) \<le> ef_max_age_millis (fb_maximum b)"

definition within_bounds :: "flush_policy_bounds \<Rightarrow> effective_flush_criteria \<Rightarrow> bool" where
  "within_bounds b c \<longleftrightarrow>
     ef_max_records (fb_minimum b) \<le> ef_max_records c \<and> ef_max_records c \<le> ef_max_records (fb_maximum b) \<and>
     ef_max_bytes (fb_minimum b) \<le> ef_max_bytes c \<and> ef_max_bytes c \<le> ef_max_bytes (fb_maximum b) \<and>
     ef_max_age_millis (fb_minimum b) \<le> ef_max_age_millis c \<and>
     ef_max_age_millis c \<le> ef_max_age_millis (fb_maximum b)"

definition requested_as_effective :: "requested_flush_criteria \<Rightarrow> effective_flush_criteria" where
  "requested_as_effective r = \<lparr>ef_max_records = rq_max_records r, ef_max_bytes = rq_max_bytes r,
     ef_max_age_millis = rq_max_age_millis r\<rparr>"

definition requested_positive :: "requested_flush_criteria \<Rightarrow> bool" where
  "requested_positive r \<longleftrightarrow> 0 < rq_max_records r \<and> 0 < rq_max_bytes r \<and> 0 < rq_max_age_millis r"

lemma clamp_Done: "clamp v lo hi = Done x \<longleftrightarrow> lo \<le> hi \<and> x = max lo (min v hi)"
  by (auto simp: clamp_def max_def min_def)

lemma clamp_eq: "lo \<le> hi \<Longrightarrow> clamp v lo hi = Done (max lo (min v hi))"
  by (simp add: clamp_Done)

lemmas flush_simps = resolve_flush_policy_def bounds_ordered_def within_bounds_def
  requested_as_effective_def requested_positive_def

lemma resolve_flush_policy_no_panic:
  "bounds_ordered bounds \<Longrightarrow> resolve_flush_policy req bounds rej \<noteq> Panicked"
  by (simp add: flush_simps clamp_eq Let_def)

lemma resolve_flush_policy_Accepted:
  "resolve_flush_policy req bounds rej = Done Accepted \<Longrightarrow> within_bounds bounds (requested_as_effective req)"
  by (auto simp: flush_simps bind_outcome_eq_Done clamp_Done Let_def split: if_splits)

lemma resolve_flush_policy_Clamped:
  "resolve_flush_policy req bounds rej = Done (Clamped c) \<Longrightarrow> within_bounds bounds c"
  by (auto simp: flush_simps bind_outcome_eq_Done clamp_Done Let_def split: if_splits)

text \<open>
  Under ordered bounds the resolution never panics; a positive request inside the bounds is
  accepted as it is, one outside is either rejected (when clamping is not tolerated) or replaced
  by criteria inside the bounds, and a non-positive request is always rejected.
\<close>

theorem resolve_flush_policy_cases:
  assumes "bounds_ordered bounds"
  shows "\<exists>d. resolve_flush_policy req bounds rej = Done d \<and>
     (d = Accepted \<longleftrightarrow> requested_positive req \<and> within_bounds bounds (requested_as_effective req)) \<and>
     (d = Rejected \<longleftrightarrow> \<not> requested_positive req \<or>
        rej \<and> \<not> within_bounds bounds (requested_as_effective req)) \<and>
     (\<forall>c. d = Clamped c \<longrightarrow> within_bounds bounds c \<and> \<not> rej)"
proof (cases "requested_positive req")
  case False
  then have "resolve_flush_policy req bounds rej = Done Rejected"
    by (auto simp: resolve_flush_policy_def requested_positive_def)
  with False show ?thesis by simp
next
  case True
  let ?r = "max (ef_max_records (fb_minimum bounds)) (min (rq_max_records req) (ef_max_records (fb_maximum bounds)))"
  let ?b = "max (ef_max_bytes (fb_minimum bounds)) (min (rq_max_bytes req) (ef_max_bytes (fb_maximum bounds)))"
  let ?a = "max (ef_max_age_millis (fb_minimum bounds))
    (min (rq_max_age_millis req) (ef_max_age_millis (fb_maximum bounds)))"
  have "resolve_flush_policy req bounds rej =
      Done (if ?r = rq_max_records req \<and> ?b = rq_max_bytes req \<and> ?a = rq_max_age_millis req then Accepted
        else if rej then Rejected
        else Clamped \<lparr>ef_max_records = ?r, ef_max_bytes = ?b, ef_max_age_millis = ?a\<rparr>)"
    using True assms
    by (simp add: resolve_flush_policy_def requested_positive_def bounds_ordered_def clamp_eq Let_def)
  moreover have "?r = rq_max_records req \<and> ?b = rq_max_bytes req \<and> ?a = rq_max_age_millis req \<longleftrightarrow>
      within_bounds bounds (requested_as_effective req)"
    using assms by (auto simp: within_bounds_def requested_as_effective_def bounds_ordered_def)
  moreover have "within_bounds bounds \<lparr>ef_max_records = ?r, ef_max_bytes = ?b, ef_max_age_millis = ?a\<rparr>"
    using assms by (auto simp: within_bounds_def bounds_ordered_def)
  ultimately show ?thesis using True by (simp split: if_splits)
qed

definition sample_bounds :: flush_policy_bounds where
  "sample_bounds = \<lparr>fb_minimum = \<lparr>ef_max_records = 4, ef_max_bytes = 100, ef_max_age_millis = 5\<rparr>,
     fb_maximum = \<lparr>ef_max_records = 64, ef_max_bytes = 65536, ef_max_age_millis = 1000\<rparr>\<rparr>"

theorem resolve_flush_policy_cases_witness:
  "\<exists>d. resolve_flush_policy \<lparr>rq_max_records = 1, rq_max_bytes = 10, rq_max_age_millis = 1\<rparr> sample_bounds True
     = Done d \<and> d = Rejected"
proof -
  have "bounds_ordered sample_bounds" by (simp add: bounds_ordered_def sample_bounds_def)
  from resolve_flush_policy_cases
    [OF this, of "\<lparr>rq_max_records = 1, rq_max_bytes = 10, rq_max_age_millis = 1\<rparr>" True]
  show ?thesis by (auto simp: within_bounds_def requested_as_effective_def sample_bounds_def)
qed

end
