(* ===== verification/Domain_Registration.thy ===== *)
theory Domain_Registration
  imports Domain_Core
begin

text \<open>
  Producer registration and integration-manifest validation of \<^verbatim>\<open>craftrelay-domain\<close>. The ordered
  enumerations (\<^verbatim>\<open>derive(PartialOrd, Ord)\<close>) are instances of \<open>linorder\<close> in declaration order.
\<close>

datatype producer_lifecycle_state = Active | Disabled | Suspended

datatype priority_class = P0 | P1 | P2 | Background

datatype quota_class = Critical | Standard | Bulk

datatype durability_class = LocalDurable | ReplicatedDurable

datatype retention_class = StandardRetention | Extended | Permanent

fun priority_rank :: "priority_class \<Rightarrow> nat" where
  "priority_rank P0 = 0" | "priority_rank P1 = 1" | "priority_rank P2 = 2" | "priority_rank Background = 3"

fun durability_rank :: "durability_class \<Rightarrow> nat" where
  "durability_rank LocalDurable = 0" | "durability_rank ReplicatedDurable = 1"

fun retention_rank :: "retention_class \<Rightarrow> nat" where
  "retention_rank StandardRetention = 0" | "retention_rank Extended = 1" | "retention_rank Permanent = 2"

lemma priority_rank_inj: "priority_rank p = priority_rank q \<Longrightarrow> p = q"
  by (cases p; cases q) simp_all

lemma durability_rank_inj: "durability_rank p = durability_rank q \<Longrightarrow> p = q"
  by (cases p; cases q) simp_all

lemma retention_rank_inj: "retention_rank p = retention_rank q \<Longrightarrow> p = q"
  by (cases p; cases q) simp_all

lemmas rank_inj = priority_rank_inj durability_rank_inj retention_rank_inj

instantiation priority_class :: linorder
begin
definition less_eq_priority_class :: "priority_class \<Rightarrow> priority_class \<Rightarrow> bool" where
  "p \<le> q \<longleftrightarrow> priority_rank p \<le> priority_rank q"
definition less_priority_class :: "priority_class \<Rightarrow> priority_class \<Rightarrow> bool" where
  "p < q \<longleftrightarrow> priority_rank p < priority_rank q"
instance
  by standard (auto simp: less_eq_priority_class_def less_priority_class_def intro: rank_inj)
end

instantiation durability_class :: linorder
begin
definition less_eq_durability_class :: "durability_class \<Rightarrow> durability_class \<Rightarrow> bool" where
  "p \<le> q \<longleftrightarrow> durability_rank p \<le> durability_rank q"
definition less_durability_class :: "durability_class \<Rightarrow> durability_class \<Rightarrow> bool" where
  "p < q \<longleftrightarrow> durability_rank p < durability_rank q"
instance
  by standard (auto simp: less_eq_durability_class_def less_durability_class_def intro: rank_inj)
end

instantiation retention_class :: linorder
begin
definition less_eq_retention_class :: "retention_class \<Rightarrow> retention_class \<Rightarrow> bool" where
  "p \<le> q \<longleftrightarrow> retention_rank p \<le> retention_rank q"
definition less_retention_class :: "retention_class \<Rightarrow> retention_class \<Rightarrow> bool" where
  "p < q \<longleftrightarrow> retention_rank p < retention_rank q"
instance
  by standard (auto simp: less_eq_retention_class_def less_retention_class_def intro: rank_inj)
end

subsection \<open>Producer registration\<close>

record registered_producer =
  rp_installation_id :: string
  rp_producer_id :: string
  rp_producer_instance_id :: string
  rp_integration_id :: string
  rp_paper_plugin_id :: string
  rp_lifecycle_state :: producer_lifecycle_state
  rp_allowed_namespaces :: "string list"
  rp_priority_class :: priority_class
  rp_quota_class :: quota_class
  rp_policy_binding_id :: string

datatype producer_registration_rejection =
    DuplicateProducer | DisabledProducer | SuspendedProducer | CrossInstallationProducer
  | InvalidManifest | NamespaceDeniedProducer

definition validate_producer_registration ::
    "registered_producer \<Rightarrow> string \<Rightarrow> registered_producer list \<Rightarrow> producer_registration_rejection + unit" where
  "validate_producer_registration producer requested_installation_id existing_producers =
     (if rp_installation_id producer \<noteq> requested_installation_id then Inl CrossInstallationProducer
      else case rp_lifecycle_state producer of
        Disabled \<Rightarrow> Inl DisabledProducer
      | Suspended \<Rightarrow> Inl SuspendedProducer
      | Active \<Rightarrow>
          if list_ex (\<lambda>existing. rp_producer_id existing = rp_producer_id producer \<and>
               rp_installation_id existing = rp_installation_id producer) existing_producers
          then Inl DuplicateProducer
          else if rp_producer_id producer = [] \<or> rp_integration_id producer = [] then Inl InvalidManifest
          else Inr ())"

subsection \<open>Integration manifests\<close>

record manifest_event_declaration =
  ev_event_type :: string
  ev_min_schema_version :: i32
  ev_max_schema_version :: i32
  ev_namespace :: string
  ev_event_class :: string
  ev_requested_durability :: durability_class
  ev_requested_retention :: retention_class
  ev_requested_priority :: priority_class
  ev_requested_quota :: quota_class

record manifest_query_declaration =
  qd_query_id :: string
  qd_min_schema_version :: i32
  qd_max_schema_version :: i32

record extended_integration_manifest =
  mf_integration_id :: string
  mf_integration_version :: i32
  mf_paper_plugin_id :: string
  mf_producer_id :: string
  mf_events :: "manifest_event_declaration list"
  mf_queries :: "manifest_query_declaration list"
  mf_namespaces :: "string list"
  mf_required_durability :: durability_class
  mf_required_retention :: retention_class
  mf_requested_priority :: priority_class
  mf_requested_quota :: quota_class
  mf_max_pending_publishes :: i32
  mf_max_pending_queries :: i32
  mf_max_active_watches :: i32

datatype manifest_violation =
    DuplicateEvent | DuplicateQuery | DuplicateNamespace | InvalidEventName | InvalidQueryName
  | InvalidNamespaceName | UnboundedLimit | MissingLimit | BestEffortForbidden
  | SelfPromotionForbidden | InvalidSchemaVersion

definition is_valid_identifier :: "string \<Rightarrow> bool" where
  "is_valid_identifier value \<longleftrightarrow>
     value \<noteq> [] \<and> length value \<le> 128 \<and>
     list_all (\<lambda>b. is_ascii_lowercase b \<or> is_ascii_digit b \<or> b \<in> set ''._-'') value \<and>
     is_ascii_lowercase (value ! 0)"

text \<open>One \<^verbatim>\<open>if\<close> of the source that pushes a violation.\<close>

definition push_if :: "bool \<Rightarrow> 'a \<Rightarrow> 'a list" where
  "push_if b v = (if b then [v] else [])"

lemma push_if_Nil [simp]: "push_if b v = [] \<longleftrightarrow> \<not> b"
  by (simp add: push_if_def)

lemma set_push_if [simp]: "x \<in> set (push_if b v) \<longleftrightarrow> b \<and> x = v"
  by (auto simp: push_if_def)

fun event_violations ::
    "priority_class \<Rightarrow> string list \<Rightarrow> manifest_event_declaration list \<Rightarrow> manifest_violation list" where
  "event_violations ceiling event_names [] = []"
| "event_violations ceiling event_names (event # events) =
     push_if (ev_event_type event = [] \<or> \<not> is_valid_identifier (ev_event_type event)) InvalidEventName @
     push_if (ev_event_type event \<in> set event_names) DuplicateEvent @
     push_if (ev_min_schema_version event \<le> 0 \<or> ev_max_schema_version event \<le> 0) InvalidSchemaVersion @
     push_if (ev_min_schema_version event > ev_max_schema_version event) InvalidSchemaVersion @
     push_if (ev_namespace event = [] \<or> \<not> is_valid_identifier (ev_namespace event)) InvalidNamespaceName @
     push_if (ev_event_class event = ''BEST_EFFORT'') BestEffortForbidden @
     push_if (ev_requested_priority event < ceiling) SelfPromotionForbidden @
     event_violations ceiling (ev_event_type event # event_names) events"

fun query_violations :: "string list \<Rightarrow> manifest_query_declaration list \<Rightarrow> manifest_violation list" where
  "query_violations query_ids [] = []"
| "query_violations query_ids (query # queries) =
     push_if (qd_query_id query = [] \<or> \<not> is_valid_identifier (qd_query_id query)) InvalidQueryName @
     push_if (qd_query_id query \<in> set query_ids) DuplicateQuery @
     push_if (qd_min_schema_version query \<le> 0 \<or> qd_max_schema_version query \<le> 0) InvalidSchemaVersion @
     query_violations (qd_query_id query # query_ids) queries"

fun namespace_violations :: "string list \<Rightarrow> string list \<Rightarrow> manifest_violation list" where
  "namespace_violations ns_set [] = []"
| "namespace_violations ns_set (ns # namespaces) =
     push_if (ns = [] \<or> \<not> is_valid_identifier ns) InvalidNamespaceName @
     push_if (ns \<in> set ns_set) DuplicateNamespace @
     namespace_violations (ns # ns_set) namespaces"

definition validate_manifest ::
    "extended_integration_manifest \<Rightarrow> priority_class \<Rightarrow> manifest_violation list + unit" where
  "validate_manifest manifest installation_priority_ceiling =
     (let violations =
        push_if (mf_integration_id manifest = [] \<or> mf_paper_plugin_id manifest = []) InvalidEventName @
        push_if (mf_integration_version manifest \<le> 0) InvalidSchemaVersion @
        push_if (mf_max_pending_publishes manifest \<le> 0 \<or> mf_max_pending_queries manifest \<le> 0 \<or>
          mf_max_active_watches manifest \<le> 0) MissingLimit @
        push_if (mf_max_pending_publishes manifest > 4096 \<or> mf_max_pending_queries manifest > 4096 \<or>
          mf_max_active_watches manifest > 4096) UnboundedLimit @
        push_if (mf_requested_priority manifest < installation_priority_ceiling) SelfPromotionForbidden @
        event_violations installation_priority_ceiling [] (mf_events manifest) @
        query_violations [] (mf_queries manifest) @
        namespace_violations [] (mf_namespaces manifest)
      in if violations = [] then Inr () else Inl violations)"

subsection \<open>Lemmas\<close>

definition event_acceptable :: "priority_class \<Rightarrow> manifest_event_declaration \<Rightarrow> bool" where
  "event_acceptable ceiling e \<longleftrightarrow>
     is_valid_identifier (ev_event_type e) \<and> is_valid_identifier (ev_namespace e) \<and>
     0 < ev_min_schema_version e \<and> ev_min_schema_version e \<le> ev_max_schema_version e \<and>
     ev_event_class e \<noteq> ''BEST_EFFORT'' \<and> ceiling \<le> ev_requested_priority e"

definition query_acceptable :: "manifest_query_declaration \<Rightarrow> bool" where
  "query_acceptable q \<longleftrightarrow>
     is_valid_identifier (qd_query_id q) \<and> 0 < qd_min_schema_version q \<and> 0 < qd_max_schema_version q"

lemma valid_identifier_nonempty: "is_valid_identifier s \<Longrightarrow> s \<noteq> []"
  by (simp add: is_valid_identifier_def)

lemma event_violations_Nil:
  "event_violations ceiling names events = [] \<longleftrightarrow>
     list_all (event_acceptable ceiling) events \<and> distinct (map ev_event_type events) \<and>
     set (map ev_event_type events) \<inter> set names = {}"
proof (induction events arbitrary: names)
  case (Cons e es)
  have "event_violations ceiling names (e # es) = [] \<longleftrightarrow>
      event_acceptable ceiling e \<and> ev_event_type e \<notin> set names \<and>
      event_violations ceiling (ev_event_type e # names) es = []"
    by (auto simp: event_acceptable_def dest: valid_identifier_nonempty)
  then show ?case by (auto simp: Cons.IH)
qed simp

lemma query_violations_Nil:
  "query_violations ids queries = [] \<longleftrightarrow>
     list_all query_acceptable queries \<and> distinct (map qd_query_id queries) \<and>
     set (map qd_query_id queries) \<inter> set ids = {}"
proof (induction queries arbitrary: ids)
  case (Cons q qs)
  have "query_violations ids (q # qs) = [] \<longleftrightarrow>
      query_acceptable q \<and> qd_query_id q \<notin> set ids \<and> query_violations (qd_query_id q # ids) qs = []"
    by (auto simp: query_acceptable_def dest: valid_identifier_nonempty)
  then show ?case by (auto simp: Cons.IH)
qed simp

lemma namespace_violations_Nil:
  "namespace_violations seen nss = [] \<longleftrightarrow>
     list_all is_valid_identifier nss \<and> distinct nss \<and> set nss \<inter> set seen = {}"
  by (induction nss arbitrary: seen) (auto dest: valid_identifier_nonempty)

text \<open>
  C36: a manifest is accepted exactly when its identifiers, versions, limits, priorities and
  declarations are all admissible and no event type, query id or namespace is declared twice.
\<close>

theorem validate_manifest_iff:
  "validate_manifest m ceiling = Inr () \<longleftrightarrow>
     mf_integration_id m \<noteq> [] \<and> mf_paper_plugin_id m \<noteq> [] \<and> 0 < mf_integration_version m \<and>
     (\<forall>limit \<in> {mf_max_pending_publishes m, mf_max_pending_queries m, mf_max_active_watches m}.
        0 < limit \<and> limit \<le> 4096) \<and>
     ceiling \<le> mf_requested_priority m \<and>
     list_all (event_acceptable ceiling) (mf_events m) \<and> distinct (map ev_event_type (mf_events m)) \<and>
     list_all query_acceptable (mf_queries m) \<and> distinct (map qd_query_id (mf_queries m)) \<and>
     list_all is_valid_identifier (mf_namespaces m) \<and> distinct (mf_namespaces m)"
  by (auto simp: validate_manifest_def Let_def event_violations_Nil query_violations_Nil
      namespace_violations_Nil)

definition sample_manifest :: extended_integration_manifest where
  "sample_manifest = \<lparr>mf_integration_id = ''reference'', mf_integration_version = 1,
     mf_paper_plugin_id = ''ReferencePlugin'', mf_producer_id = ''producer-a'', mf_events = [],
     mf_queries = [], mf_namespaces = [''economy''], mf_required_durability = ReplicatedDurable,
     mf_required_retention = StandardRetention, mf_requested_priority = P1, mf_requested_quota = Standard,
     mf_max_pending_publishes = 128, mf_max_pending_queries = 64, mf_max_active_watches = 32\<rparr>"

theorem validate_manifest_iff_witness: "validate_manifest sample_manifest P1 = Inr ()"
  by (simp add: validate_manifest_iff) (simp add: sample_manifest_def is_valid_identifier_def
      is_ascii_lowercase_def less_eq_priority_class_def)

text \<open>
  Registration succeeds exactly for an active producer of the requested installation with a
  non-empty identity that is not registered yet.
\<close>

theorem validate_producer_registration_iff:
  "validate_producer_registration p inst existing = Inr () \<longleftrightarrow>
     rp_installation_id p = inst \<and> rp_lifecycle_state p = Active \<and>
     rp_producer_id p \<noteq> [] \<and> rp_integration_id p \<noteq> [] \<and>
     (rp_producer_id p, inst) \<notin> set (map (\<lambda>e. (rp_producer_id e, rp_installation_id e)) existing)"
  by (auto simp: validate_producer_registration_def list_ex_iff image_iff
      split: producer_lifecycle_state.splits) metis

end
