(* ===== verification/Domain_Acl.thy ===== *)
theory Domain_Acl
  imports Domain_Registration "HOL-Library.Sublist"
begin

text \<open>
  Credentials and access rules of \<^verbatim>\<open>craftrelay-domain\<close>: \<^verbatim>\<open>evaluate_acl\<close> denies foreign
  installations and inactive credentials, then takes the first rule for the action that matches
  the namespace in a stable sort by descending priority, and denies when there is none.
\<close>

datatype credential_kind = SharedSecret | MtlsCertificate | IpcToken | FakeTestOnly

datatype credential_status = ActiveCredential | Revoked | Expired | Unknown

record credential_reference =
  cr_credential_id :: string
  cr_kind :: credential_kind
  cr_revision :: i32
  cr_status :: credential_status
  cr_installation_id :: string

datatype acl_action = Publish | Query | Watch | Admin

datatype acl_decision = Allow | Deny

datatype acl_deny_reason =
    NoMatchingRule | ExplicitDeny | CredentialInvalid | CredentialRevoked | CredentialExpired
  | CrossInstallation | NamespaceDenied

record acl_principal =
  ap_producer_id :: string
  ap_installation_id :: string
  ap_credential :: credential_reference

record acl_rule =
  ar_rule_id :: string
  ar_action :: acl_action
  ar_namespace_pattern :: string
  ar_decision :: acl_decision
  ar_priority :: i32

record acl_evaluation_result =
  ae_decision :: acl_decision
  ae_deny_reason :: "acl_deny_reason option"
  ae_matched_rule_id :: "string option"
  ae_policy_version :: i64

text \<open>\<^verbatim>\<open>str::strip_suffix\<close> and \<^verbatim>\<open>str::starts_with\<close>.\<close>

definition strip_suffix :: "string \<Rightarrow> string \<Rightarrow> string option" where
  "strip_suffix s suf =
     (if suffix suf s then Some (take (length s - length suf) s) else None)"

definition namespace_matches :: "string \<Rightarrow> string \<Rightarrow> bool" where
  "namespace_matches pattern namespace =
     (if pattern = ''*'' then True
      else case strip_suffix pattern ''.*'' of
        Some pre \<Rightarrow> prefix pre namespace \<and> length namespace > length pre
      | None \<Rightarrow> pattern = namespace)"

definition acl_denied :: "acl_deny_reason \<Rightarrow> i64 \<Rightarrow> acl_evaluation_result" where
  "acl_denied reason policy_version =
     \<lparr>ae_decision = Deny, ae_deny_reason = Some reason, ae_matched_rule_id = None,
      ae_policy_version = policy_version\<rparr>"

definition acl_matched :: "acl_rule \<Rightarrow> i64 \<Rightarrow> acl_evaluation_result" where
  "acl_matched rule policy_version =
     \<lparr>ae_decision = ar_decision rule,
      ae_deny_reason = (if ar_decision rule = Deny then Some ExplicitDeny else None),
      ae_matched_rule_id = Some (ar_rule_id rule),
      ae_policy_version = policy_version\<rparr>"

definition evaluate_acl ::
    "acl_principal \<Rightarrow> string \<Rightarrow> string \<Rightarrow> acl_action \<Rightarrow> acl_rule list \<Rightarrow> i64 \<Rightarrow> acl_evaluation_result" where
  "evaluate_acl prin scope_installation_id scope_namespace action rules policy_version =
     (if ap_installation_id prin \<noteq> scope_installation_id
      then acl_denied CrossInstallation policy_version
      else case cr_status (ap_credential prin) of
        Revoked \<Rightarrow> acl_denied CredentialRevoked policy_version
      | Expired \<Rightarrow> acl_denied CredentialExpired policy_version
      | Unknown \<Rightarrow> acl_denied CredentialInvalid policy_version
      | ActiveCredential \<Rightarrow>
          let sorted_rules = sort_key (\<lambda>r. - ar_priority r) (filter (\<lambda>r. ar_action r = action) rules) in
          (case find (\<lambda>rule. namespace_matches (ar_namespace_pattern rule) scope_namespace) sorted_rules of
             Some rule \<Rightarrow> acl_matched rule policy_version
           | None \<Rightarrow> acl_denied NoMatchingRule policy_version))"

subsection \<open>Lemmas\<close>

definition rule_applies :: "acl_action \<Rightarrow> string \<Rightarrow> acl_rule \<Rightarrow> bool" where
  "rule_applies action ns r \<longleftrightarrow> ar_action r = action \<and> namespace_matches (ar_namespace_pattern r) ns"

text \<open>The position of the winning rule: highest priority, and the earliest one at that priority.\<close>

definition wins_at :: "acl_action \<Rightarrow> string \<Rightarrow> acl_rule list \<Rightarrow> nat \<Rightarrow> bool" where
  "wins_at action ns rules i \<longleftrightarrow>
     i < length rules \<and> rule_applies action ns (rules ! i) \<and>
     (\<forall>j < length rules. rule_applies action ns (rules ! j) \<longrightarrow>
        ar_priority (rules ! j) < ar_priority (rules ! i) \<or>
        ar_priority (rules ! j) = ar_priority (rules ! i) \<and> i \<le> j)"

lemma find_filter: "find P xs = (case filter P xs of [] \<Rightarrow> None | x # _ \<Rightarrow> Some x)"
  by (induction xs) auto

lemma find_filter_conj: "find P (filter Q xs) = find (\<lambda>x. Q x \<and> P x) xs"
  by (induction xs) auto

text \<open>The first hit in a stably sorted list, as a left-to-right minimum search.\<close>

fun first_min :: "('a \<Rightarrow> bool) \<Rightarrow> ('a \<Rightarrow> int) \<Rightarrow> 'a list \<Rightarrow> 'a option" where
  "first_min P k [] = None"
| "first_min P k (x # xs) =
     (case first_min P k xs of
        None \<Rightarrow> if P x then Some x else None
      | Some y \<Rightarrow> if P x \<and> k x \<le> k y then Some x else Some y)"

lemma find_insort_key:
  "find P (insort_key k x ys) =
     (if P x then (case find P ys of None \<Rightarrow> Some x | Some y \<Rightarrow> if k x \<le> k y then Some x else Some y)
      else find P ys)"
  if "sorted (map k ys)"
  using that
proof (induction ys)
  case (Cons y ys)
  have "find P ys = Some z \<Longrightarrow> k y \<le> k z" for z
    using Cons.prems by (auto simp: find_Some_iff)
  with Cons show ?case by (auto split: option.splits)
qed simp

lemma find_sort_key: "find P (sort_key k xs) = first_min P k xs"
proof (induction xs)
  case (Cons x xs)
  then show ?case by (simp add: find_insort_key split: option.splits)
qed simp

lemma first_min_None: "first_min P k xs = None \<longleftrightarrow> (\<forall>x\<in>set xs. \<not> P x)"
  by (induction xs) (auto split: option.splits)

lemma first_min_Some:
  "first_min P k xs = Some x \<Longrightarrow>
     \<exists>i<length xs. xs ! i = x \<and> P x \<and>
       (\<forall>j<length xs. P (xs ! j) \<longrightarrow> k x < k (xs ! j) \<or> k x = k (xs ! j) \<and> i \<le> j)"
proof (induction xs arbitrary: x)
  case (Cons a xs)
  show ?case
  proof (cases "first_min P k xs")
    case None
    with Cons.prems have x: "P a" "x = a" by (auto split: if_splits)
    from None have "\<not> P (xs ! j)" if "j < length xs" for j using that by (simp add: first_min_None)
    then show ?thesis using x by (intro exI [of _ 0]) (auto simp: nth_Cons split: nat.splits)
  next
    case (Some y)
    then obtain i where i: "i < length xs" "xs ! i = y" "P y"
      "\<forall>j<length xs. P (xs ! j) \<longrightarrow> k y < k (xs ! j) \<or> k y = k (xs ! j) \<and> i \<le> j"
      using Cons.IH by blast
    show ?thesis
    proof (cases "P a \<and> k a \<le> k y")
      case True
      with Some Cons.prems have "x = a" by simp
      with True i(4) show ?thesis
        by (intro exI [of _ 0]) (fastforce simp: nth_Cons split: nat.splits)
    next
      case False
      with Some Cons.prems have "x = y" by simp
      with False i show ?thesis
        by (intro exI [of _ "Suc i"]) (auto simp: nth_Cons split: nat.splits)
    qed
  qed
qed simp

lemma wins_at_unique: "wins_at a n rs i \<Longrightarrow> wins_at a n rs j \<Longrightarrow> i = j"
  unfolding wins_at_def by (metis less_asym less_irrefl nle_le)

lemma winner_of_find:
  "first_min (rule_applies action ns) (\<lambda>r. - ar_priority r) rules = Some r \<Longrightarrow>
     \<exists>i. wins_at action ns rules i \<and> rules ! i = r"
  by (drule first_min_Some) (fastforce simp: wins_at_def)

lemma evaluate_acl_active:
  assumes "ap_installation_id p = inst" "cr_status (ap_credential p) = ActiveCredential"
  shows "evaluate_acl p inst ns action rules v =
    (case first_min (rule_applies action ns) (\<lambda>r. - ar_priority r) rules of
       Some rule \<Rightarrow> acl_matched rule v | None \<Rightarrow> acl_denied NoMatchingRule v)"
proof -
  have "find (\<lambda>rule. namespace_matches (ar_namespace_pattern rule) ns)
      (sort_key (\<lambda>r. - ar_priority r) (filter (\<lambda>r. ar_action r = action) rules)) =
      find (rule_applies action ns) (sort_key (\<lambda>r. - ar_priority r) rules)"
    by (simp add: filter_sort [symmetric] find_filter_conj rule_applies_def [abs_def])
  with assms show ?thesis by (simp add: evaluate_acl_def find_sort_key Let_def)
qed

lemma acl_decision_simps [simp]:
  "ae_decision (acl_denied r v) = Deny" "ae_decision (acl_matched rule v) = ar_decision rule"
  by (simp_all add: acl_denied_def acl_matched_def)

text \<open>
  C37: access is allowed exactly when the principal belongs to the installation, its credential is
  active, and the winning rule for the action and namespace (highest priority, first listed among
  equals) is an allow rule; in every other case the decision is a denial.
\<close>

theorem evaluate_acl_allow_iff:
  "ae_decision (evaluate_acl p inst ns action rules v) = Allow \<longleftrightarrow>
     ap_installation_id p = inst \<and> cr_status (ap_credential p) = ActiveCredential \<and>
     (\<exists>i. wins_at action ns rules i \<and> ar_decision (rules ! i) = Allow)"
proof (cases "ap_installation_id p = inst \<and> cr_status (ap_credential p) = ActiveCredential")
  case False
  then show ?thesis by (auto simp: evaluate_acl_def split: credential_status.splits)
next
  case True
  show ?thesis
  proof (cases "first_min (rule_applies action ns) (\<lambda>r. - ar_priority r) rules")
    case None
    then have "\<not> wins_at action ns rules i" for i
      by (auto simp: first_min_None wins_at_def)
    with None True show ?thesis by (simp add: evaluate_acl_active)
  next
    case (Some r)
    then obtain i where i: "wins_at action ns rules i" "rules ! i = r"
      using winner_of_find by blast
    then have "(\<exists>i. wins_at action ns rules i \<and> ar_decision (rules ! i) = Allow) \<longleftrightarrow> ar_decision r = Allow"
      by (metis wins_at_unique)
    with Some True show ?thesis by (simp add: evaluate_acl_active)
  qed
qed

text \<open>
  A wildcard pattern \<open>p.*\<close> is a plain prefix test without the dot: the pattern
  \<open>economy.*\<close> also matches the unrelated namespace \<open>economy-admin\<close>, so an allow rule for the
  former grants access to the latter.
\<close>

theorem wildcard_crosses_namespace_boundary:
  "namespace_matches ''economy.*'' ''economy.transfer'' \<and> \<not> namespace_matches ''economy.*'' ''economy'' \<and>
   namespace_matches ''economy.*'' ''economy-admin'' \<and>
   ae_decision (evaluate_acl
     \<lparr>ap_producer_id = ''producer-a'', ap_installation_id = ''inst'', ap_credential =
        \<lparr>cr_credential_id = ''cred-1'', cr_kind = IpcToken, cr_revision = 1, cr_status = ActiveCredential,
         cr_installation_id = ''inst''\<rparr>\<rparr>
     ''inst'' ''economy-admin'' Publish
     [\<lparr>ar_rule_id = ''rule'', ar_action = Publish, ar_namespace_pattern = ''economy.*'', ar_decision = Allow,
       ar_priority = 10\<rparr>] 1) = Allow"
  by (simp add: namespace_matches_def strip_suffix_def evaluate_acl_def suffix_def)

end
