(* ===== verification/Domain_Policy.thy ===== *)
theory Domain_Policy
  imports Domain_Acl Domain_Flush
begin

text \<open>
  Policy resolution and NODE\_LOCAL ownership of \<^verbatim>\<open>craftrelay-domain\<close>. \<^verbatim>\<open>resolve_policy\<close> is a
  chain of early returns; each is one branch of \<open>resolve_policy\<close> below. The call of
  \<^verbatim>\<open>resolve_flush_policy\<close> may panic, so the result is an \<^typ>\<open>'a outcome\<close>.
\<close>

subsection \<open>Ownership snapshots\<close>

datatype ownership_mode = NodeLocal

record ownership_snapshot_id =
  os_snapshot_id :: string
  os_snapshot_version :: i64

record namespace_ownership_entry =
  no_namespace :: string
  no_owner_node_id :: string
  no_owner_agent_id :: string
  no_installation_id :: string
  no_mode :: ownership_mode

record ownership_snapshot =
  sn_id :: ownership_snapshot_id
  sn_installation_id :: string
  sn_node_id :: string
  sn_mode :: ownership_mode
  sn_entries :: "namespace_ownership_entry list"

datatype ownership_violation =
    MissingOwner | DuplicateOwnedNamespace | ForeignInstallation | UnsupportedMode
  | DynamicElectionForbidden | AmbiguousOwnership | NotOwnedLocally

fun ownership_entry_violations ::
    "string \<Rightarrow> string list \<Rightarrow> namespace_ownership_entry list \<Rightarrow> ownership_violation list" where
  "ownership_entry_violations inst namespaces [] = []"
| "ownership_entry_violations inst namespaces (entry # entries) =
     push_if (no_owner_node_id entry = [] \<or> no_owner_agent_id entry = []) MissingOwner @
     push_if (no_namespace entry \<in> set namespaces) DuplicateOwnedNamespace @
     push_if (no_installation_id entry \<noteq> inst) ForeignInstallation @
     push_if (no_mode entry \<noteq> NodeLocal) UnsupportedMode @
     ownership_entry_violations inst (no_namespace entry # namespaces) entries"

definition validate_ownership_snapshot :: "ownership_snapshot \<Rightarrow> ownership_violation list + unit" where
  "validate_ownership_snapshot snapshot =
     (let violations = push_if (sn_mode snapshot \<noteq> NodeLocal) UnsupportedMode @
        ownership_entry_violations (sn_installation_id snapshot) [] (sn_entries snapshot)
      in if violations = [] then Inr () else Inl violations)"

definition is_namespace_locally_owned :: "ownership_snapshot \<Rightarrow> string \<Rightarrow> bool" where
  "is_namespace_locally_owned snapshot namespace =
     list_ex (\<lambda>e. no_namespace e = namespace \<and> no_owner_node_id e = sn_node_id snapshot)
       (sn_entries snapshot)"

subsection \<open>Policy resolution\<close>

datatype policy_rejection_reason =
    SelfPromotion | DurabilityWeakening | RetentionWeakening | ProjectionBypass | InstallationEscape
  | PolicyBestEffortForbidden | InvalidPolicyBinding | UnknownPolicyBinding | AclDenied
  | ProducerDisabled | ProducerSuspended | PolicyCrossInstallation | NotLocallyOwned | QuotaExceeded

datatype admission_decision = Admitted | AdmissionRejected

record policy_resolution_context =
  cx_installation_id :: string
  cx_producer :: registered_producer
  cx_acl_result :: acl_evaluation_result
  cx_ownership_snapshot_id :: string
  cx_namespace :: string
  cx_requested_durability :: durability_class
  cx_requested_retention :: retention_class
  cx_requested_projection_policy_id :: string
  cx_requested_priority :: priority_class
  cx_requested_quota :: quota_class
  cx_requested_flush :: requested_flush_criteria

record effective_policy_result =
  ep_effective_producer_id :: string
  ep_effective_namespace :: string
  ep_effective_durability :: durability_class
  ep_effective_retention :: retention_class
  ep_effective_projection_policy_id :: string
  ep_effective_quota_class :: quota_class
  ep_effective_priority_class :: priority_class
  ep_effective_flush :: effective_flush_criteria
  ep_policy_version :: i64
  ep_ownership_snapshot_id :: string
  ep_admission_decision :: admission_decision
  ep_rejection_reason :: "policy_rejection_reason option"
  ep_decision_detail :: string

record policy_configuration =
  pc_installation_id :: string
  pc_minimum_durability :: durability_class
  pc_minimum_retention :: retention_class
  pc_required_projection_policy_id :: "string option"
  pc_priority_ceiling :: priority_class
  pc_valid_policy_bindings :: "string list"
  pc_flush_bounds :: flush_policy_bounds
  pc_policy_version :: i64

definition policy_rejected ::
    "policy_resolution_context \<Rightarrow> policy_configuration \<Rightarrow> policy_rejection_reason \<Rightarrow> string
       \<Rightarrow> effective_policy_result" where
  "policy_rejected ctx config reason detail =
     \<lparr>ep_effective_producer_id = rp_producer_id (cx_producer ctx),
      ep_effective_namespace = cx_namespace ctx,
      ep_effective_durability = pc_minimum_durability config,
      ep_effective_retention = pc_minimum_retention config,
      ep_effective_projection_policy_id =
        (case pc_required_projection_policy_id config of None \<Rightarrow> [] | Some r \<Rightarrow> r),
      ep_effective_quota_class = rp_quota_class (cx_producer ctx),
      ep_effective_priority_class = rp_priority_class (cx_producer ctx),
      ep_effective_flush = fb_minimum (pc_flush_bounds config),
      ep_policy_version = pc_policy_version config,
      ep_ownership_snapshot_id = cx_ownership_snapshot_id ctx,
      ep_admission_decision = AdmissionRejected,
      ep_rejection_reason = Some reason,
      ep_decision_detail = detail\<rparr>"

definition policy_admitted ::
    "policy_resolution_context \<Rightarrow> policy_configuration \<Rightarrow> effective_flush_criteria
       \<Rightarrow> effective_policy_result" where
  "policy_admitted ctx config effective_flush =
     \<lparr>ep_effective_producer_id = rp_producer_id (cx_producer ctx),
      ep_effective_namespace = cx_namespace ctx,
      ep_effective_durability = cx_requested_durability ctx,
      ep_effective_retention = cx_requested_retention ctx,
      ep_effective_projection_policy_id =
        (case pc_required_projection_policy_id config of
           None \<Rightarrow> cx_requested_projection_policy_id ctx | Some r \<Rightarrow> r),
      ep_effective_quota_class = rp_quota_class (cx_producer ctx),
      ep_effective_priority_class = rp_priority_class (cx_producer ctx),
      ep_effective_flush = effective_flush,
      ep_policy_version = pc_policy_version config,
      ep_ownership_snapshot_id = cx_ownership_snapshot_id ctx,
      ep_admission_decision = Admitted,
      ep_rejection_reason = None,
      ep_decision_detail = ''policy resolved successfully''\<rparr>"

definition resolve_policy ::
    "policy_resolution_context \<Rightarrow> policy_configuration \<Rightarrow> string list \<Rightarrow> effective_policy_result outcome" where
  "resolve_policy ctx config owned_namespaces =
     (let reject = (\<lambda>reason detail. Done (policy_rejected ctx config reason detail)) in
      if cx_installation_id ctx \<noteq> pc_installation_id config then
        reject InstallationEscape ''producer cannot escape installation scope''
      else if rp_installation_id (cx_producer ctx) \<noteq> cx_installation_id ctx then
        reject PolicyCrossInstallation ''producer installation does not match request''
      else if rp_lifecycle_state (cx_producer ctx) = Disabled then
        reject ProducerDisabled ''producer is disabled''
      else if rp_lifecycle_state (cx_producer ctx) = Suspended then
        reject ProducerSuspended ''producer is suspended''
      else if ae_decision (cx_acl_result ctx) = Deny then
        reject AclDenied ''ACL denied''
      else if cx_requested_durability ctx < pc_minimum_durability config then
        reject DurabilityWeakening ''cannot weaken durability below installation minimum''
      else if cx_requested_retention ctx < pc_minimum_retention config then
        reject RetentionWeakening ''cannot weaken retention below installation minimum''
      else if (case pc_required_projection_policy_id config of
                 None \<Rightarrow> False
               | Some required \<Rightarrow> cx_requested_projection_policy_id ctx \<noteq> [] \<and>
                   cx_requested_projection_policy_id ctx \<noteq> required) then
        reject ProjectionBypass ''cannot bypass required projection policy''
      else if cx_requested_priority ctx < pc_priority_ceiling config then
        reject SelfPromotion ''producer cannot self-promote above priority ceiling''
      else if rp_policy_binding_id (cx_producer ctx) \<noteq> [] \<and>
          rp_policy_binding_id (cx_producer ctx) \<notin> set (pc_valid_policy_bindings config) then
        reject UnknownPolicyBinding ''producer policy binding is not recognized''
      else if cx_namespace ctx \<notin> set owned_namespaces then
        reject NotLocallyOwned ''namespace is not locally owned''
      else
        bind_outcome (resolve_flush_policy (cx_requested_flush ctx) (pc_flush_bounds config) False) (\<lambda>d.
          case d of
            Accepted \<Rightarrow> Done (policy_admitted ctx config
              \<lparr>ef_max_records = rq_max_records (cx_requested_flush ctx),
               ef_max_bytes = rq_max_bytes (cx_requested_flush ctx),
               ef_max_age_millis = rq_max_age_millis (cx_requested_flush ctx)\<rparr>)
          | Clamped clamped \<Rightarrow> Done (policy_admitted ctx config clamped)
          | Rejected \<Rightarrow> reject InvalidPolicyBinding ''requested flush criteria rejected by policy''))"

subsection \<open>Lemmas\<close>

lemma ownership_entry_violations_Nil:
  "ownership_entry_violations inst seen entries = [] \<longleftrightarrow>
     list_all (\<lambda>e. no_owner_node_id e \<noteq> [] \<and> no_owner_agent_id e \<noteq> [] \<and> no_installation_id e = inst) entries \<and>
     distinct (map no_namespace entries) \<and> set (map no_namespace entries) \<inter> set seen = {}"
proof (induction entries arbitrary: seen)
  case (Cons e es)
  then show ?case by (cases "no_mode e") auto
qed simp

text \<open>
  C38: a snapshot is valid exactly when every entry names a node and an agent of the snapshot's
  installation and no namespace is listed twice; in a valid snapshot a namespace therefore has at
  most one owner, and it is locally owned iff that owner is the snapshot's node.
\<close>

theorem validate_ownership_snapshot_sound:
  "(validate_ownership_snapshot s = Inr () \<longleftrightarrow>
      (\<forall>e \<in> set (sn_entries s). no_owner_node_id e \<noteq> [] \<and> no_owner_agent_id e \<noteq> [] \<and>
         no_installation_id e = sn_installation_id s) \<and>
      distinct (map no_namespace (sn_entries s))) \<and>
   (validate_ownership_snapshot s = Inr () \<longrightarrow>
      (\<forall>e \<in> set (sn_entries s). is_namespace_locally_owned s (no_namespace e) \<longleftrightarrow>
         no_owner_node_id e = sn_node_id s))"
proof -
  have valid: "validate_ownership_snapshot s = Inr () \<longleftrightarrow>
      (\<forall>e \<in> set (sn_entries s). no_owner_node_id e \<noteq> [] \<and> no_owner_agent_id e \<noteq> [] \<and>
         no_installation_id e = sn_installation_id s) \<and> distinct (map no_namespace (sn_entries s))"
    by (cases "sn_mode s")
      (auto simp: validate_ownership_snapshot_def Let_def ownership_entry_violations_Nil list_all_iff)
  have "is_namespace_locally_owned s (no_namespace e) \<longleftrightarrow> no_owner_node_id e = sn_node_id s"
    if "distinct (map no_namespace (sn_entries s))" "e \<in> set (sn_entries s)" for e
    using that by (auto simp: is_namespace_locally_owned_def list_ex_iff distinct_map inj_on_def)
  with valid show ?thesis by blast
qed

definition sample_snapshot :: ownership_snapshot where
  "sample_snapshot = \<lparr>sn_id = \<lparr>os_snapshot_id = ''snapshot-1'', os_snapshot_version = 1\<rparr>,
     sn_installation_id = ''inst'', sn_node_id = ''node-1'', sn_mode = NodeLocal,
     sn_entries = [\<lparr>no_namespace = ''economy'', no_owner_node_id = ''node-1'', no_owner_agent_id = ''agent-1'',
       no_installation_id = ''inst'', no_mode = NodeLocal\<rparr>]\<rparr>"

theorem validate_ownership_snapshot_sound_witness:
  "validate_ownership_snapshot sample_snapshot = Inr () \<and> is_namespace_locally_owned sample_snapshot ''economy''"
  using validate_ownership_snapshot_sound [of sample_snapshot] by (simp add: sample_snapshot_def)

lemma policy_decision_simps [simp]:
  "ep_admission_decision (policy_rejected ctx config reason detail) = AdmissionRejected"
  "ep_admission_decision (policy_admitted ctx config flush) = Admitted"
  by (simp_all add: policy_rejected_def policy_admitted_def)

text \<open>A guard of \<^verbatim>\<open>resolve_policy\<close> and its last step, for an admitted result.\<close>

lemma guard_admitted:
  "(if b then Done (policy_rejected ctx config reason detail) else y) = Done r \<and> ep_admission_decision r = Admitted \<longleftrightarrow>
     \<not> b \<and> y = Done r \<and> ep_admission_decision r = Admitted"
  by auto

lemma flush_admitted:
  "bind_outcome x (\<lambda>d. case d of Accepted \<Rightarrow> Done (policy_admitted ctx config f)
       | Clamped c \<Rightarrow> Done (policy_admitted ctx config c)
       | Rejected \<Rightarrow> Done (policy_rejected ctx config reason detail)) = Done r \<and> ep_admission_decision r = Admitted \<longleftrightarrow>
     x = Done Accepted \<and> r = policy_admitted ctx config f \<or> (\<exists>c. x = Done (Clamped c) \<and> r = policy_admitted ctx config c)"
proof (cases x)
  case (Done d)
  then show ?thesis by (cases d) auto
qed simp

lemma resolve_policy_admitted_conv:
  "resolve_policy ctx config owned = Done r \<and> ep_admission_decision r = Admitted \<longleftrightarrow>
     cx_installation_id ctx = pc_installation_id config \<and>
     rp_installation_id (cx_producer ctx) = cx_installation_id ctx \<and>
     rp_lifecycle_state (cx_producer ctx) = Active \<and>
     ae_decision (cx_acl_result ctx) = Allow \<and>
     pc_minimum_durability config \<le> cx_requested_durability ctx \<and>
     pc_minimum_retention config \<le> cx_requested_retention ctx \<and>
     pc_required_projection_policy_id config \<in>
       (if cx_requested_projection_policy_id ctx = [] then UNIV
        else {None, Some (cx_requested_projection_policy_id ctx)}) \<and>
     pc_priority_ceiling config \<le> cx_requested_priority ctx \<and>
     rp_policy_binding_id (cx_producer ctx) \<in> insert [] (set (pc_valid_policy_bindings config)) \<and>
     cx_namespace ctx \<in> set owned \<and>
     (resolve_flush_policy (cx_requested_flush ctx) (pc_flush_bounds config) False = Done Accepted \<and>
        r = policy_admitted ctx config (requested_as_effective (cx_requested_flush ctx)) \<or>
      (\<exists>c. resolve_flush_policy (cx_requested_flush ctx) (pc_flush_bounds config) False = Done (Clamped c) \<and>
        r = policy_admitted ctx config c))"
proof -
  have projection: "(case p of None \<Rightarrow> False | Some required \<Rightarrow> q \<noteq> [] \<and> q \<noteq> required) \<longleftrightarrow>
      p \<notin> (if q = [] then UNIV else {None, Some q})" for p and q :: string
    by (cases p) auto
  have state: "s \<noteq> Disabled \<and> s \<noteq> Suspended \<longleftrightarrow> s = Active" for s by (cases s) simp_all
  have acl: "x \<noteq> Deny \<longleftrightarrow> x = Allow" for x by (cases x) simp_all
  show ?thesis
    unfolding resolve_policy_def Let_def guard_admitted flush_admitted projection requested_as_effective_def state [symmetric] acl [symmetric]
    by (simp only: not_not not_less de_Morgan_conj insert_iff conj_assoc)
qed

text \<open>
  C39: whatever a producer asks for, an admitted request is served under a policy no weaker than
  the installation's: at least the minimum durability and retention, the required projection
  policy when there is one, flush criteria inside the bounds, in a namespace this node owns, for
  an active producer of this installation that the ACL allowed.
\<close>

theorem resolve_policy_admitted_safe:
  assumes "resolve_policy ctx config owned = Done r" and "ep_admission_decision r = Admitted"
  shows "pc_minimum_durability config \<le> ep_effective_durability r \<and>
     pc_minimum_retention config \<le> ep_effective_retention r \<and>
     (\<forall>required. pc_required_projection_policy_id config = Some required \<longrightarrow>
        ep_effective_projection_policy_id r = required) \<and>
     within_bounds (pc_flush_bounds config) (ep_effective_flush r) \<and>
     ep_effective_namespace r \<in> set owned \<and>
     rp_lifecycle_state (cx_producer ctx) = Active \<and>
     rp_installation_id (cx_producer ctx) = pc_installation_id config \<and>
     ae_decision (cx_acl_result ctx) = Allow"
proof -
  from assms have conv: "resolve_policy ctx config owned = Done r \<and> ep_admission_decision r = Admitted"
    by simp
  note facts = conv [unfolded resolve_policy_admitted_conv]
  from facts have flush: "within_bounds (pc_flush_bounds config) (ep_effective_flush r)"
    by (auto simp: policy_admitted_def resolve_flush_policy_Clamped resolve_flush_policy_Accepted)
  from facts have "ep_effective_durability r = cx_requested_durability ctx"
    "ep_effective_retention r = cx_requested_retention ctx" "ep_effective_namespace r = cx_namespace ctx"
    "\<forall>required. pc_required_projection_policy_id config = Some required \<longrightarrow>
       ep_effective_projection_policy_id r = required"
    by (auto simp: policy_admitted_def)
  with facts flush show ?thesis by simp
qed

definition sample_producer :: registered_producer where
  "sample_producer = \<lparr>rp_installation_id = ''inst'', rp_producer_id = ''producer-a'',
     rp_producer_instance_id = ''instance-1'', rp_integration_id = ''reference'',
     rp_paper_plugin_id = ''ReferencePlugin'', rp_lifecycle_state = Active,
     rp_allowed_namespaces = [''economy''], rp_priority_class = P0, rp_quota_class = Standard,
     rp_policy_binding_id = ''binding-1''\<rparr>"

definition sample_context :: policy_resolution_context where
  "sample_context = \<lparr>cx_installation_id = ''inst'', cx_producer = sample_producer,
     cx_acl_result = \<lparr>ae_decision = Allow, ae_deny_reason = None, ae_matched_rule_id = Some ''rule-1'',
       ae_policy_version = 1\<rparr>,
     cx_ownership_snapshot_id = ''snapshot-1'', cx_namespace = ''economy'',
     cx_requested_durability = ReplicatedDurable, cx_requested_retention = StandardRetention,
     cx_requested_projection_policy_id = ''projection-v1'', cx_requested_priority = P1,
     cx_requested_quota = Standard,
     cx_requested_flush = \<lparr>rq_max_records = 16, rq_max_bytes = 16384, rq_max_age_millis = 5\<rparr>\<rparr>"

definition sample_config :: policy_configuration where
  "sample_config = \<lparr>pc_installation_id = ''inst'', pc_minimum_durability = ReplicatedDurable,
     pc_minimum_retention = StandardRetention, pc_required_projection_policy_id = Some ''projection-v1'',
     pc_priority_ceiling = P1, pc_valid_policy_bindings = [''binding-1''], pc_flush_bounds = sample_bounds,
     pc_policy_version = 42\<rparr>"

lemmas sample_policy_defs = sample_context_def sample_config_def sample_producer_def sample_bounds_def
  resolve_policy_def Let_def resolve_flush_policy_def clamp_def policy_admitted_def
  less_durability_class_def less_retention_class_def less_priority_class_def

theorem resolve_policy_admitted_safe_witness:
  "\<exists>r. resolve_policy sample_context sample_config [''economy''] = Done r \<and>
     pc_minimum_durability sample_config \<le> ep_effective_durability r"
proof -
  obtain r where r: "resolve_policy sample_context sample_config [''economy''] = Done r"
    and adm: "ep_admission_decision r = Admitted"
    by (simp add: sample_policy_defs)
  from resolve_policy_admitted_safe [OF r adm] r show ?thesis by blast
qed

text \<open>
  The priority ceiling is checked against the requested priority only, while the effective
  priority is the producer's registered one: a producer registered at \<open>P0\<close> that asks for \<open>P1\<close> is
  admitted at \<open>P0\<close>, above the ceiling \<open>P1\<close>.
\<close>

theorem resolve_policy_ceiling_not_on_effective_priority:
  "\<exists>r. resolve_policy sample_context sample_config [''economy''] = Done r \<and>
     ep_admission_decision r = Admitted \<and> ep_effective_priority_class r < pc_priority_ceiling sample_config"
  by (simp add: sample_policy_defs)

end
