(* ===== verification/Domain_Admission.thy ===== *)
theory Domain_Admission
  imports Domain_Policy
begin

text \<open>
  Quota admission of \<^verbatim>\<open>craftrelay-domain\<close>. The quota arithmetic is on \<^verbatim>\<open>i32\<close> and \<^verbatim>\<open>i64\<close>: the
  parameter \<open>checks\<close> is the build's \<^verbatim>\<open>overflow-checks\<close> setting, so a sum out of range panics in
  a checked build and wraps in an unchecked one.
\<close>

record producer_quota_state =
  pq_producer_id :: string
  pq_in_flight_publishes :: i32
  pq_max_in_flight_publishes :: i32
  pq_queued_publishes :: i32
  pq_max_queued_publishes :: i32
  pq_in_flight_bytes :: i64
  pq_max_in_flight_bytes :: i64

record namespace_quota_state =
  nq_namespace :: string
  nq_in_flight_publishes :: i32
  nq_max_in_flight_publishes :: i32

record global_quota_state =
  gq_in_flight_publishes :: i32
  gq_max_in_flight_publishes :: i32
  gq_reserved_p0_capacity :: i32
  gq_used_p0_capacity :: i32

datatype admission_rejection_reason =
    ProducerInFlightExceeded | ProducerQueueExceeded | ProducerBytesExceeded
  | NamespaceInFlightExceeded | GlobalInFlightExceeded | P0CapacityReserved
  | AdmissionProducerDisabled | ProducerUnauthorized | AdmissionNotLocallyOwned

record admission_result =
  ad_decision :: admission_decision
  ad_rejection_reason :: "admission_rejection_reason option"
  ad_rejection_detail :: string

definition admission_rejected :: "admission_rejection_reason \<Rightarrow> string \<Rightarrow> admission_result" where
  "admission_rejected reason detail =
     \<lparr>ad_decision = AdmissionRejected, ad_rejection_reason = Some reason, ad_rejection_detail = detail\<rparr>"

definition admission_admitted :: admission_result where
  "admission_admitted =
     \<lparr>ad_decision = Admitted, ad_rejection_reason = None, ad_rejection_detail = ''admitted''\<rparr>"

text \<open>The checks on the global quota, from the computation of the free capacity on.\<close>

definition evaluate_global_admission ::
    "bool \<Rightarrow> registered_producer \<Rightarrow> global_quota_state \<Rightarrow> admission_result outcome" where
  "evaluate_global_admission checks producer gq =
     bind_outcome (arith_i32 checks (gq_max_in_flight_publishes gq - gq_in_flight_publishes gq))
       (\<lambda>available_global.
     if available_global \<le> 0 then
       Done (admission_rejected GlobalInFlightExceeded ''global in-flight publish limit reached'')
     else
       bind_outcome (arith_i32 checks (gq_reserved_p0_capacity gq - gq_used_p0_capacity gq))
         (\<lambda>remaining_p0.
       if rp_priority_class producer \<noteq> P0 then
         bind_outcome (arith_i32 checks (available_global - max remaining_p0 0)) (\<lambda>non_p0_available.
           if non_p0_available \<le> 0 then
             Done (admission_rejected P0CapacityReserved
               ''lower-priority producer cannot consume reserved P0 capacity'')
           else Done admission_admitted)
       else Done admission_admitted))"

definition evaluate_admission ::
    "bool \<Rightarrow> registered_producer \<Rightarrow> producer_quota_state \<Rightarrow> namespace_quota_state \<Rightarrow> global_quota_state
       \<Rightarrow> i64 \<Rightarrow> bool \<Rightarrow> admission_result outcome" where
  "evaluate_admission checks producer pq nq gq payload_bytes namespace_owned =
     (if rp_lifecycle_state producer = Disabled then
        Done (admission_rejected AdmissionProducerDisabled ''producer is disabled'')
      else if \<not> namespace_owned then
        Done (admission_rejected AdmissionNotLocallyOwned ''namespace is not locally owned by this node'')
      else if pq_in_flight_publishes pq \<ge> pq_max_in_flight_publishes pq then
        Done (admission_rejected ProducerInFlightExceeded ''producer in-flight publish limit reached'')
      else if pq_queued_publishes pq \<ge> pq_max_queued_publishes pq then
        Done (admission_rejected ProducerQueueExceeded ''producer queued publish limit reached'')
      else
        bind_outcome (arith_i64 checks (pq_in_flight_bytes pq + payload_bytes)) (\<lambda>bytes.
          if bytes > pq_max_in_flight_bytes pq then
            Done (admission_rejected ProducerBytesExceeded ''producer in-flight bytes limit would be exceeded'')
          else if nq_in_flight_publishes nq \<ge> nq_max_in_flight_publishes nq then
            Done (admission_rejected NamespaceInFlightExceeded ''namespace in-flight publish limit reached'')
          else evaluate_global_admission checks producer gq))"

subsection \<open>Lemmas\<close>

lemma admission_decision_simps [simp]:
  "ad_decision (admission_rejected reason detail) = AdmissionRejected"
  "ad_decision admission_admitted = Admitted"
  by (simp_all add: admission_rejected_def admission_admitted_def)

lemma arith_checked: "arith_i32 True x = Done y \<longleftrightarrow> in_i32 x \<and> y = x" "arith_i64 True x = Done y \<longleftrightarrow> in_i64 x \<and> y = x"
  by (auto simp: arith_i32_def arith_i64_def)

definition quota_headroom ::
    "registered_producer \<Rightarrow> producer_quota_state \<Rightarrow> namespace_quota_state \<Rightarrow> global_quota_state \<Rightarrow> i64 \<Rightarrow> bool" where
  "quota_headroom producer pq nq gq payload_bytes \<longleftrightarrow>
     pq_in_flight_publishes pq + 1 \<le> pq_max_in_flight_publishes pq \<and>
     pq_queued_publishes pq + 1 \<le> pq_max_queued_publishes pq \<and>
     pq_in_flight_bytes pq + payload_bytes \<le> pq_max_in_flight_bytes pq \<and>
     nq_in_flight_publishes nq + 1 \<le> nq_max_in_flight_publishes nq \<and>
     gq_in_flight_publishes gq + 1 \<le> gq_max_in_flight_publishes gq \<and>
     (rp_priority_class producer \<noteq> P0 \<longrightarrow>
        gq_in_flight_publishes gq + 1 + max 0 (gq_reserved_p0_capacity gq - gq_used_p0_capacity gq)
          \<le> gq_max_in_flight_publishes gq)"

lemma evaluate_global_admission_checked:
  "evaluate_global_admission True producer gq = Done r \<Longrightarrow> ad_decision r = Admitted \<Longrightarrow>
     gq_in_flight_publishes gq + 1 \<le> gq_max_in_flight_publishes gq \<and>
     (rp_priority_class producer \<noteq> P0 \<longrightarrow>
        gq_in_flight_publishes gq + 1 + max 0 (gq_reserved_p0_capacity gq - gq_used_p0_capacity gq)
          \<le> gq_max_in_flight_publishes gq)"
  by (auto simp: evaluate_global_admission_def bind_outcome_eq_Done arith_checked max.commute split: if_splits)

text \<open>
  C40: in a build with overflow checks, an admitted publish leaves every quota respected after it
  is counted: producer, queue, byte, namespace and global limits hold with the publish added, and
  a producer below \<open>P0\<close> leaves the whole unused \<open>P0\<close> reservation free; the producer is not
  disabled and the namespace is owned.
\<close>

theorem evaluate_admission_checked_sound:
  assumes "evaluate_admission True producer pq nq gq payload_bytes owned = Done r"
    and "ad_decision r = Admitted"
  shows "quota_headroom producer pq nq gq payload_bytes \<and> owned \<and> rp_lifecycle_state producer \<noteq> Disabled"
proof -
  from assms have "evaluate_global_admission True producer gq = Done r"
    and *: "owned" "rp_lifecycle_state producer \<noteq> Disabled"
      "pq_in_flight_publishes pq < pq_max_in_flight_publishes pq"
      "pq_queued_publishes pq < pq_max_queued_publishes pq"
      "pq_in_flight_bytes pq + payload_bytes \<le> pq_max_in_flight_bytes pq"
      "nq_in_flight_publishes nq < nq_max_in_flight_publishes nq"
    by (auto simp: evaluate_admission_def bind_outcome_eq_Done arith_checked split: if_splits)
  with evaluate_global_admission_checked [OF this(1) assms(2)] show ?thesis
    by (auto simp: quota_headroom_def)
qed

definition sample_pq :: producer_quota_state where
  "sample_pq = \<lparr>pq_producer_id = ''producer-a'', pq_in_flight_publishes = 5, pq_max_in_flight_publishes = 100,
     pq_queued_publishes = 0, pq_max_queued_publishes = 50, pq_in_flight_bytes = 1000,
     pq_max_in_flight_bytes = 100000\<rparr>"

definition sample_nq :: namespace_quota_state where
  "sample_nq = \<lparr>nq_namespace = ''economy'', nq_in_flight_publishes = 10, nq_max_in_flight_publishes = 200\<rparr>"

definition sample_gq :: global_quota_state where
  "sample_gq = \<lparr>gq_in_flight_publishes = 20, gq_max_in_flight_publishes = 500, gq_reserved_p0_capacity = 50,
     gq_used_p0_capacity = 10\<rparr>"

lemmas admission_eval = evaluate_admission_def evaluate_global_admission_def sample_pq_def sample_nq_def
  sample_gq_def sample_producer_def in_i32_def in_i64_def i32_max_def i64_max_def

theorem evaluate_admission_checked_sound_witness:
  "quota_headroom (sample_producer\<lparr>rp_priority_class := P2\<rparr>) sample_pq sample_nq sample_gq 100"
proof -
  have "evaluate_admission True (sample_producer\<lparr>rp_priority_class := P2\<rparr>) sample_pq sample_nq sample_gq 100 True
      = Done admission_admitted"
    by (simp add: admission_eval)
  from evaluate_admission_checked_sound [OF this] show ?thesis by simp
qed

text \<open>
  Without overflow checks the byte quota can be bypassed: with 1000 bytes in flight and a
  limit of 100000, a payload length of \<open>i64::MAX\<close> wraps the sum below zero and is admitted.
\<close>

theorem evaluate_admission_wraps_in_release:
  "evaluate_admission False sample_producer sample_pq sample_nq sample_gq i64_max True = Done admission_admitted \<and>
   pq_in_flight_bytes sample_pq + i64_max > pq_max_in_flight_bytes sample_pq"
  by (simp add: admission_eval arith_i64_def wrap_i64_def)

text \<open>
  Admission does not look at suspension: a suspended producer with free quota is admitted,
  although policy resolution refuses it.
\<close>

theorem evaluate_admission_ignores_suspension:
  "evaluate_admission True (sample_producer\<lparr>rp_lifecycle_state := Suspended\<rparr>) sample_pq sample_nq sample_gq 100 True
     = Done admission_admitted"
  by (simp add: admission_eval)

end
