(* ===== verification/Domain_Profile.thy ===== *)
theory Domain_Profile
  imports Domain_Core
begin

text \<open>
  Kafka durability and production profiles of \<^verbatim>\<open>craftrelay-domain\<close>, and the drift detection and
  delivery check built on them in \<^verbatim>\<open>craftrelay-kafka-delivery/src/profile.rs\<close>.
\<close>

record kafka_durability_profile =
  kd_profile_id :: string
  kd_replication_factor :: i32
  kd_min_insync_replicas :: i32
  kd_required_acks :: string
  kd_topic_reference :: string
  kd_profile_version :: i32

datatype profile_validation_error =
    UnknownProfile | InvalidRf | InvalidMinIsr | InvalidAcks | WeakenedDurability

definition validate_kafka_profile :: "kafka_durability_profile \<Rightarrow> profile_validation_error + unit" where
  "validate_kafka_profile profile =
     (if kd_replication_factor profile \<le> 0 then Inl InvalidRf
      else if kd_min_insync_replicas profile \<le> 0 then Inl InvalidMinIsr
      else if kd_min_insync_replicas profile > kd_replication_factor profile then Inl InvalidMinIsr
      else if kd_required_acks profile \<noteq> ''all'' \<and> kd_required_acks profile \<noteq> ''-1'' then Inl InvalidAcks
      else Inr ())"

definition validate_p0_kafka_profile :: "kafka_durability_profile \<Rightarrow> profile_validation_error + unit" where
  "validate_p0_kafka_profile profile =
     (case validate_kafka_profile profile of
        Inl e \<Rightarrow> Inl e
      | Inr _ \<Rightarrow>
          if kd_replication_factor profile < 5 then Inl WeakenedDurability
          else if kd_min_insync_replicas profile < 5 then Inl WeakenedDurability
          else Inr ())"

record kafka_production_profile =
  kp_profile_id :: string
  kp_profile_version :: i32
  kp_replication_factor :: i32
  kp_min_insync_replicas :: i32
  kp_required_acks :: string
  kp_enable_idempotence :: bool
  kp_delivery_timeout_ms :: i64
  kp_request_timeout_ms :: i64
  kp_linger_ms :: i64
  kp_max_in_flight_requests_per_connection :: i32
  kp_compression :: string
  kp_retention_ms :: i64
  kp_retention_bytes :: i64
  kp_cleanup_policy :: string
  kp_unclean_leader_election :: bool
  kp_topic_deletion_policy :: string

datatype extended_profile_validation_error =
    Base profile_validation_error | IdempotenceRequired | InvalidCleanupPolicy
  | UncleanElectionForbidden | InvalidDeliveryTimeout | InvalidRequestTimeout | InvalidLingerMs
  | InvalidMaxInFlight | InvalidCompression | InvalidRetentionMs | InvalidRetentionBytes
  | TopicDeletionForbidden

text \<open>The durability profile \<open>base\<close> that the production check is run on first.\<close>

definition production_base_profile :: "kafka_production_profile \<Rightarrow> kafka_durability_profile" where
  "production_base_profile profile =
     \<lparr>kd_profile_id = kp_profile_id profile, kd_replication_factor = kp_replication_factor profile,
      kd_min_insync_replicas = kp_min_insync_replicas profile,
      kd_required_acks = kp_required_acks profile, kd_topic_reference = [],
      kd_profile_version = kp_profile_version profile\<rparr>"

definition validate_production_base ::
    "kafka_production_profile \<Rightarrow> extended_profile_validation_error + unit" where
  "validate_production_base profile =
     (case validate_kafka_profile (production_base_profile profile) of
        Inl e \<Rightarrow> Inl (Base e)
      | Inr _ \<Rightarrow>
          if \<not> kp_enable_idempotence profile then Inl IdempotenceRequired
          else if kp_delivery_timeout_ms profile \<le> 0 then Inl InvalidDeliveryTimeout
          else if kp_request_timeout_ms profile \<le> 0 then Inl InvalidRequestTimeout
          else if kp_linger_ms profile < 0 then Inl InvalidLingerMs
          else if \<not> (1 \<le> kp_max_in_flight_requests_per_connection profile \<and>
                     kp_max_in_flight_requests_per_connection profile \<le> 5) then Inl InvalidMaxInFlight
          else if kp_compression profile \<notin> set [''none'', ''gzip'', ''snappy'', ''lz4'', ''zstd'']
            then Inl InvalidCompression
          else if kp_retention_ms profile \<le> 0 then Inl InvalidRetentionMs
          else if kp_retention_bytes profile \<le> 0 then Inl InvalidRetentionBytes
          else if kp_cleanup_policy profile \<notin> set [''delete'', ''compact'', ''delete,compact'']
            then Inl InvalidCleanupPolicy
          else if kp_unclean_leader_election profile then Inl UncleanElectionForbidden
          else if kp_topic_deletion_policy profile \<noteq> ''PROTECTED'' then Inl TopicDeletionForbidden
          else Inr ())"

definition validate_production_profile ::
    "kafka_production_profile \<Rightarrow> extended_profile_validation_error + unit" where
  "validate_production_profile profile = validate_production_base profile"

definition validate_p0_production_profile ::
    "kafka_production_profile \<Rightarrow> extended_profile_validation_error + unit" where
  "validate_p0_production_profile profile =
     (case validate_production_base profile of
        Inl e \<Rightarrow> Inl e
      | Inr _ \<Rightarrow>
          if kp_replication_factor profile < 5 then Inl (Base WeakenedDurability)
          else if kp_min_insync_replicas profile < 5 then Inl (Base WeakenedDurability)
          else Inr ())"

subsection \<open>Drift detection\<close>

datatype profile_drift_kind =
    VersionDowngrade | RfWeakened | MinIsrWeakened | IdempotenceDisabled | UncleanElectionEnabled
  | AcksWeakened

definition acks_all :: "string \<Rightarrow> bool" where
  "acks_all a \<longleftrightarrow> a = ''all'' \<or> a = ''-1''"

definition detect_profile_drift ::
    "kafka_production_profile \<Rightarrow> kafka_production_profile \<Rightarrow> profile_drift_kind list" where
  "detect_profile_drift current previous =
     (if kp_profile_version current < kp_profile_version previous then [VersionDowngrade] else []) @
     (if kp_replication_factor current < kp_replication_factor previous then [RfWeakened] else []) @
     (if kp_min_insync_replicas current < kp_min_insync_replicas previous then [MinIsrWeakened] else []) @
     (if \<not> kp_enable_idempotence current \<and> kp_enable_idempotence previous then [IdempotenceDisabled] else []) @
     (if kp_unclean_leader_election current \<and> \<not> kp_unclean_leader_election previous
      then [UncleanElectionEnabled] else []) @
     (if kp_required_acks current \<noteq> ''all'' \<and> kp_required_acks current \<noteq> ''-1'' \<and>
         (kp_required_acks previous = ''all'' \<or> kp_required_acks previous = ''-1'')
      then [AcksWeakened] else [])"

definition is_profile_safe_for_delivery ::
    "kafka_production_profile \<Rightarrow> extended_profile_validation_error + unit" where
  "is_profile_safe_for_delivery profile = validate_p0_production_profile profile"

subsection \<open>Lemmas\<close>

lemma validate_kafka_profile_iff:
  "validate_kafka_profile p = Inr u \<longleftrightarrow>
     0 < kd_min_insync_replicas p \<and> kd_min_insync_replicas p \<le> kd_replication_factor p \<and>
     acks_all (kd_required_acks p)"
  by (auto simp: validate_kafka_profile_def acks_all_def)

lemma validate_production_base_iff:
  "validate_production_base p = Inr u \<longleftrightarrow>
     0 < kp_min_insync_replicas p \<and> kp_min_insync_replicas p \<le> kp_replication_factor p \<and>
     acks_all (kp_required_acks p) \<and> kp_enable_idempotence p \<and>
     0 < kp_delivery_timeout_ms p \<and> 0 < kp_request_timeout_ms p \<and> 0 \<le> kp_linger_ms p \<and>
     1 \<le> kp_max_in_flight_requests_per_connection p \<and> kp_max_in_flight_requests_per_connection p \<le> 5 \<and>
     kp_compression p \<in> set [''none'', ''gzip'', ''snappy'', ''lz4'', ''zstd''] \<and>
     0 < kp_retention_ms p \<and> 0 < kp_retention_bytes p \<and>
     kp_cleanup_policy p \<in> set [''delete'', ''compact'', ''delete,compact''] \<and>
     \<not> kp_unclean_leader_election p \<and> kp_topic_deletion_policy p = ''PROTECTED''"
proof (cases "validate_kafka_profile (production_base_profile p)")
  case (Inl e)
  then have "\<not> (0 < kp_min_insync_replicas p \<and> kp_min_insync_replicas p \<le> kp_replication_factor p \<and>
      acks_all (kp_required_acks p))"
    using validate_kafka_profile_iff [of "production_base_profile p" "()"]
    by (auto simp: production_base_profile_def)
  with Inl show ?thesis by (auto simp: validate_production_base_def)
next
  case (Inr u)
  then have "0 < kp_min_insync_replicas p \<and> kp_min_insync_replicas p \<le> kp_replication_factor p \<and>
      acks_all (kp_required_acks p)"
    by (simp add: validate_kafka_profile_iff production_base_profile_def)
  with Inr show ?thesis by (auto simp: validate_production_base_def split: if_splits)
qed

lemma validate_p0_production_profile_iff:
  "validate_p0_production_profile p = Inr u \<longleftrightarrow>
     validate_production_base p = Inr () \<and> 5 \<le> kp_replication_factor p \<and> 5 \<le> kp_min_insync_replicas p"
  by (cases "validate_production_base p") (auto simp: validate_p0_production_profile_def)

text \<open>
  A profile that passes the delivery check is a zero-loss profile: at least five in-sync
  replicas out of at least as many copies, acknowledgement by all of them, idempotent producer,
  no unclean leader election, protected topics, bounded pipelining and positive retention.
\<close>

theorem safe_profile_is_zero_loss:
  assumes "is_profile_safe_for_delivery p = Inr ()"
  shows "5 \<le> kp_min_insync_replicas p \<and> kp_min_insync_replicas p \<le> kp_replication_factor p \<and>
     kp_required_acks p \<in> {''all'', ''-1''} \<and> kp_enable_idempotence p \<and>
     \<not> kp_unclean_leader_election p \<and> kp_topic_deletion_policy p = ''PROTECTED'' \<and>
     kp_max_in_flight_requests_per_connection p \<in> {1..5} \<and>
     0 < kp_retention_ms p \<and> 0 < kp_retention_bytes p"
  using assms
  by (simp add: is_profile_safe_for_delivery_def validate_p0_production_profile_iff validate_production_base_iff
      acks_all_def)

definition sample_profile :: kafka_production_profile where
  "sample_profile = \<lparr>kp_profile_id = ''p0-test'', kp_profile_version = 1, kp_replication_factor = 5,
     kp_min_insync_replicas = 5, kp_required_acks = ''all'', kp_enable_idempotence = True,
     kp_delivery_timeout_ms = 120000, kp_request_timeout_ms = 30000, kp_linger_ms = 5,
     kp_max_in_flight_requests_per_connection = 5, kp_compression = ''lz4'', kp_retention_ms = 604800000,
     kp_retention_bytes = 1073741824, kp_cleanup_policy = ''delete'', kp_unclean_leader_election = False,
     kp_topic_deletion_policy = ''PROTECTED''\<rparr>"

lemma sample_profile_safe: "is_profile_safe_for_delivery sample_profile = Inr ()"
  by (simp add: is_profile_safe_for_delivery_def validate_p0_production_profile_iff
      validate_production_base_iff sample_profile_def acks_all_def)

theorem safe_profile_is_zero_loss_witness: "5 \<le> kp_min_insync_replicas sample_profile"
  using safe_profile_is_zero_loss [OF sample_profile_safe] by simp

text \<open>
  When no drift is reported against a profile that was safe for delivery, the current profile
  keeps every guarantee drift detection watches: version, replication, in-sync replicas,
  idempotence, clean leader election and full acknowledgement.
\<close>

theorem no_drift_keeps_guarantees:
  assumes "detect_profile_drift current previous = []"
    and "is_profile_safe_for_delivery previous = Inr ()"
  shows "kp_profile_version previous \<le> kp_profile_version current \<and>
     5 \<le> kp_replication_factor current \<and> 5 \<le> kp_min_insync_replicas current \<and>
     kp_enable_idempotence current \<and> \<not> kp_unclean_leader_election current \<and>
     kp_required_acks current \<in> {''all'', ''-1''}"
  using assms
  by (auto simp: detect_profile_drift_def is_profile_safe_for_delivery_def validate_p0_production_profile_iff
      validate_production_base_iff acks_all_def split: if_splits)

theorem no_drift_keeps_guarantees_witness:
  "5 \<le> kp_min_insync_replicas (sample_profile\<lparr>kp_profile_version := 2\<rparr>)"
proof -
  have "detect_profile_drift (sample_profile\<lparr>kp_profile_version := 2\<rparr>) sample_profile = []"
    by (simp add: detect_profile_drift_def sample_profile_def)
  from no_drift_keeps_guarantees [OF this sample_profile_safe] show ?thesis by simp
qed

end
