(* ===== verification/Relay_Table.thy ===== *)
theory Relay_Table
  imports Relay_Text
begin

text \<open>
  SQL tables as the journal uses them: a table is the list of its rows; a statement selects,
  inserts, updates or trims rows. The statements the code runs are modelled by these five
  functions; the locale \<open>row_table\<close> states what a table with a primary key promises to the code
  that reads and writes it.
\<close>

subsection \<open>Statements\<close>

text \<open>\<^verbatim>\<open>SELECT ... WHERE key = ?\<close> with \<^verbatim>\<open>query_row(..).optional()\<close>.\<close>

definition select_row :: "('r \<Rightarrow> 'k) \<Rightarrow> 'k \<Rightarrow> 'r list \<Rightarrow> 'r option" where
  "select_row key k rows = find (\<lambda>r. key r = k) rows"

text \<open>\<^verbatim>\<open>INSERT INTO\<close> under a primary key or unique constraint: \<open>None\<close> when the key exists.\<close>

definition insert_row :: "('r \<Rightarrow> 'k) \<Rightarrow> 'r \<Rightarrow> 'r list \<Rightarrow> 'r list option" where
  "insert_row key r rows = (if key r \<in> set (map key rows) then None else Some (rows @ [r]))"

text \<open>\<^verbatim>\<open>INSERT ... ON CONFLICT(key) DO UPDATE\<close>.\<close>

definition upsert_row :: "('r \<Rightarrow> 'k) \<Rightarrow> 'r \<Rightarrow> 'r list \<Rightarrow> 'r list" where
  "upsert_row key r rows =
     (if key r \<in> set (map key rows) then map (\<lambda>x. if key x = key r then r else x) rows else rows @ [r])"

text \<open>\<^verbatim>\<open>UPDATE ... WHERE p\<close>: the new rows and the number of affected ones.\<close>

definition update_rows :: "('r \<Rightarrow> bool) \<Rightarrow> ('r \<Rightarrow> 'r) \<Rightarrow> 'r list \<Rightarrow> 'r list \<times> nat" where
  "update_rows p f rows = (map (\<lambda>r. if p r then f r else r) rows, length (filter p rows))"

text \<open>
  \<^verbatim>\<open>DELETE ... WHERE id IN (SELECT id .. WHERE p ORDER BY id DESC LIMIT -1 OFFSET n)\<close>: of the rows
  with \<open>p\<close>, all but the \<open>n\<close> with the greatest ids are deleted.
\<close>

definition trim_rows :: "('r \<Rightarrow> nat) \<Rightarrow> ('r \<Rightarrow> bool) \<Rightarrow> nat \<Rightarrow> 'r list \<Rightarrow> 'r list" where
  "trim_rows ident p n rows =
     (let dropped = drop n (rev (sort (map ident (filter p rows))))
      in filter (\<lambda>r. ident r \<notin> set dropped) rows)"

subsection \<open>Lemmas on the statements\<close>

lemma select_row_simps [simp]:
  "select_row key k [] = None"
  "select_row key k (r # rows) = (if key r = k then Some r else select_row key k rows)"
  by (simp_all add: select_row_def)

lemma select_row_None: "select_row key k rows = None \<longleftrightarrow> k \<notin> set (map key rows)"
  by (induction rows) auto

lemma select_row_Some_in: "select_row key k rows = Some r \<Longrightarrow> r \<in> set rows \<and> key r = k"
  by (induction rows) (auto split: if_splits)

lemma select_row_append:
  "select_row key k (xs @ ys) = (case select_row key k xs of None \<Rightarrow> select_row key k ys | Some r \<Rightarrow> Some r)"
  by (induction xs) auto

lemma select_row_distinct:
  "distinct (map key rows) \<Longrightarrow> r \<in> set rows \<Longrightarrow> select_row key (key r) rows = Some r"
  by (induction rows) auto

lemma insert_row_Some: "insert_row key r rows = Some rows' \<longleftrightarrow> select_row key (key r) rows = None \<and> rows' = rows @ [r]"
  by (auto simp: insert_row_def select_row_None)

lemma insert_row_None: "insert_row key r rows = None \<longleftrightarrow> select_row key (key r) rows \<noteq> None"
  by (auto simp: insert_row_def select_row_None)

lemma select_insert_row:
  "insert_row key r rows = Some rows' \<Longrightarrow>
     select_row key k rows' = (if k = key r then Some r else select_row key k rows)"
  by (auto simp: insert_row_Some select_row_append split: option.splits)

lemma select_upsert_row:
  "select_row key k (upsert_row key r rows) = (if k = key r then Some r else select_row key k rows)"
proof (cases "key r \<in> set (map key rows)")
  case True
  have "select_row key k (map (\<lambda>x. if key x = key r then r else x) rows) =
      (if k = key r then (if key r \<in> set (map key rows) then Some r else None) else select_row key k rows)"
    by (induction rows) auto
  with True show ?thesis by (simp add: upsert_row_def)
next
  case False
  then have "select_row key (key r) rows = None" by (simp add: select_row_None)
  with False show ?thesis by (cases "select_row key k rows") (auto simp: upsert_row_def select_row_append)
qed

lemma distinct_upsert_row: "distinct (map key rows) \<Longrightarrow> distinct (map key (upsert_row key r rows))"
proof -
  have "map key (upsert_row key r rows) = (if key r \<in> set (map key rows) then map key rows else map key rows @ [key r])"
    by (auto simp: upsert_row_def)
  then show "distinct (map key rows) \<Longrightarrow> distinct (map key (upsert_row key r rows))"
    by (simp del: set_map)
qed

text \<open>
  A compare-and-swap update \<^verbatim>\<open>WHERE key = k AND q\<close> that keeps the key, on a table whose keys are
  distinct.
\<close>

lemma update_rows_count:
  assumes "distinct (map key rows)"
  shows "snd (update_rows (\<lambda>r. key r = k \<and> q r) f rows) =
    (case select_row key k rows of None \<Rightarrow> 0 | Some r \<Rightarrow> if q r then 1 else 0)"
proof -
  have "length (filter (\<lambda>r. key r = k \<and> q r) rows) =
      (case select_row key k rows of None \<Rightarrow> 0 | Some r \<Rightarrow> if q r then 1 else 0)"
    using assms
  proof (induction rows)
    case (Cons r rows)
    have "key r \<notin> set (map key rows) \<Longrightarrow> filter (\<lambda>x. key x = key r \<and> q x) rows = []"
      by (auto simp: filter_empty_conv image_iff)
    with Cons show ?case by auto
  qed simp
  then show ?thesis by (simp add: update_rows_def)
qed

lemma select_update_rows:
  assumes "\<And>r. key (f r) = key r"
  shows "select_row key k' (fst (update_rows (\<lambda>r. key r = k \<and> q r) f rows)) =
    map_option (\<lambda>r. if k' = k \<and> q r then f r else r) (select_row key k' rows)"
proof -
  have "select_row key k' (map (\<lambda>r. if key r = k \<and> q r then f r else r) rows) =
    map_option (\<lambda>r. if k' = k \<and> q r then f r else r) (select_row key k' rows)"
    using assms by (induction rows) auto
  then show ?thesis by (simp add: update_rows_def)
qed

lemma map_key_update_rows:
  "(\<And>r. key (f r) = key r) \<Longrightarrow> map key (fst (update_rows p f rows)) = map key rows"
  by (simp add: update_rows_def comp_def)

lemma set_trim_rows: "set (trim_rows ident p n rows) \<subseteq> set rows"
  by (auto simp: trim_rows_def Let_def)

lemma set_take_drop_rev_sorted:
  assumes "distinct xs"
  shows "length (filter (\<lambda>x. x \<notin> set (drop n (rev (sort xs)))) xs) = min n (length xs)"
proof -
  have d: "distinct (rev (sort xs))" using assms by simp
  have "length (filter (\<lambda>x. x \<notin> set (drop n (rev (sort xs)))) xs) =
      card (set xs - set (drop n (rev (sort xs))))"
    using assms by (simp add: distinct_card [symmetric] set_diff_eq)
  also have "set (drop n (rev (sort xs))) \<subseteq> set xs" by (metis set_drop_subset set_rev set_sort)
  then have "card (set xs - set (drop n (rev (sort xs)))) = length xs - (length xs - n)"
    using d assms by (simp add: card_Diff_subset distinct_card)
  finally show ?thesis by simp
qed

lemma length_trim_rows:
  assumes "distinct (map ident rows)"
  shows "length (filter p (trim_rows ident p n rows)) = min n (length (filter p rows))"
proof -
  let ?d = "set (drop n (rev (sort (map ident (filter p rows)))))"
  have "distinct (map ident (filter p rows))" using assms by (rule distinct_map_filter)
  then have "length (filter (\<lambda>x. x \<notin> ?d) (map ident (filter p rows))) = min n (length (filter p rows))"
    using set_take_drop_rev_sorted by fastforce
  moreover have "filter (\<lambda>x. x \<notin> ?d) (map ident (filter p rows)) =
      map ident (filter p (trim_rows ident p n rows))"
    by (simp add: trim_rows_def Let_def filter_map comp_def conj_commute)
  ultimately show ?thesis by (metis length_map)
qed

lemma trim_rows_other:
  assumes "distinct (map ident rows)"
  shows "filter (\<lambda>r. \<not> p r) (trim_rows ident p n rows) = filter (\<lambda>r. \<not> p r) rows"
proof -
  have "ident r \<notin> set (drop n (rev (sort (map ident (filter p rows)))))"
    if "r \<in> set rows" "\<not> p r" for r
  proof
    assume "ident r \<in> set (drop n (rev (sort (map ident (filter p rows)))))"
    then obtain s where "s \<in> set rows" "p s" "ident s = ident r"
      by (auto dest!: in_set_dropD)
    with assms that show False by (auto simp: distinct_map inj_on_def)
  qed
  then show ?thesis by (auto simp: trim_rows_def Let_def conj_commute intro!: filter_cong)
qed

lemma distinct_trim_rows: "distinct (map ident rows) \<Longrightarrow> distinct (map ident (trim_rows ident p n rows))"
  by (simp add: trim_rows_def Let_def distinct_map_filter)

subsection \<open>The interface of a table with a primary key\<close>

locale row_table =
  fixes sel :: "'k \<Rightarrow> 'd \<Rightarrow> 'r option"
    and ins :: "'r \<Rightarrow> 'd \<Rightarrow> 'd option"
    and key :: "'r \<Rightarrow> 'k"
  assumes ins_fails: "ins r d = None \<longleftrightarrow> sel (key r) d \<noteq> None"
    and sel_ins: "ins r d = Some d' \<Longrightarrow> sel k d' = (if k = key r then Some r else sel k d)"
begin

lemma ins_new: "sel (key r) d = None \<Longrightarrow> \<exists>d'. ins r d = Some d'"
  using ins_fails [of r d] by auto

lemma ins_was_absent: "ins r d = Some d' \<Longrightarrow> sel (key r) d = None"
  using ins_fails [of r d] by auto

lemma sel_ins_same: "ins r d = Some d' \<Longrightarrow> sel (key r) d' = Some r"
  by (simp add: sel_ins)

lemma sel_ins_keeps: "ins r d = Some d' \<Longrightarrow> sel k d = Some s \<Longrightarrow> sel k d' = Some s"
  using ins_was_absent by (auto simp: sel_ins)

lemma ins_twice: "ins r d = Some d' \<Longrightarrow> key s = key r \<Longrightarrow> ins s d' = None"
  by (simp add: ins_fails sel_ins)

end

interpretation list_table: row_table "select_row key" "insert_row key" key for key :: "'r \<Rightarrow> 'k"
  by unfold_locales (auto simp: insert_row_None select_insert_row)

end
