(* ===== verification/Journal_Types.thy ===== *)
theory Journal_Types
  imports Relay_Table Domain_Core
begin

text \<open>
  The data of \<^verbatim>\<open>craftrelay-journal\<close>: request and result types, the SQLite tables, the state of a
  \<^verbatim>\<open>LocalJournal\<close>, and the environment its operations run in.

  SQLite and \<^verbatim>\<open>rusqlite\<close> are third-party code. The model fixes the meaning of the statements the
  code sends (theory \<open>Relay_Table\<close>) and leaves everything else about the engine to the
  environment \<open>env\<close>: \<open>env_fault\<close> says which statements fail and with which message, so every
  \<^verbatim>\<open>Err(e)\<close> branch of the code is reachable and a theorem that holds for all environments holds
  for every pattern of engine failures; \<open>env_reject\<close> is the message of a statement that cannot
  succeed (a violated constraint, a value outside the Rust type it is read into). \<open>env_sha\<close> is the
  digest of the crate \<^verbatim>\<open>sha2\<close>, \<open>env_now_ms\<close> the clock reading of the call, \<open>env_disk_safe\<close> the
  answer of the installed \<^verbatim>\<open>DiskGuard\<close> and \<open>env_overflow_checks\<close> the build's overflow setting.
\<close>

definition SCHEMA_VERSION :: i64 where "SCHEMA_VERSION = 2"
definition MAX_ATTEMPTS :: nat where "MAX_ATTEMPTS = 16"
definition MAX_DELIVERY_ATTEMPTS :: nat where "MAX_DELIVERY_ATTEMPTS = 16"

subsection \<open>Requests and results\<close>

record accept_request =
  aq_installation_id :: string
  aq_event_id :: string
  aq_producer_id :: string
  aq_producer_instance_id :: string
  aq_producer_operation_sequence :: i64
  aq_namespace :: string
  aq_logical_stream_type :: string
  aq_stream_key :: string
  aq_event_type :: string
  aq_schema_version :: i32
  aq_payload :: bytes
  aq_request_fingerprint :: checksum
  aq_routing_version :: i64

record accepted_event =
  ac_event_id :: string
  ac_journal_sequence :: i64
  ac_stream_sequence :: i64
  ac_lifecycle_revision :: i64
  ac_envelope_checksum :: checksum
  ac_delivery_status :: delivery_status

datatype accept_result =
    AcceptAccepted accepted_event
  | ExistingDuplicate accepted_event
  | AcceptCorrupted string string
  | FingerprintConflict string
  | SequenceConflict string
  | DiskUnsafe
  | ShuttingDown
  | AcceptError string

record persisted_status =
  ps_event_id :: string
  ps_journal_sequence :: i64
  ps_stream_sequence :: i64
  ps_lifecycle_revision :: i64
  ps_lifecycle_checksum :: checksum
  ps_delivery_status :: string
  ps_retention_status :: string
  ps_payload_digest :: checksum
  ps_envelope_checksum :: checksum

datatype status_result = StatusFound persisted_status | StatusNotFound | StatusCorrupted string string

datatype cas_result =
    Updated | AlreadyConfirmed | StaleRevision | CasNotFound | InvalidTransition
  | CasCorrupted string string | CasError string

datatype local_delivery_status = LdsLocalAccepted | LdsDeliveryPending | LdsDeliveryBlocked

fun local_delivery_as_str :: "local_delivery_status \<Rightarrow> string" where
  "local_delivery_as_str LdsLocalAccepted = ''LOCAL_ACCEPTED''"
| "local_delivery_as_str LdsDeliveryPending = ''DELIVERY_PENDING''"
| "local_delivery_as_str LdsDeliveryBlocked = ''DELIVERY_BLOCKED''"

datatype local_retention_status = LrsPresent

fun local_retention_as_str :: "local_retention_status \<Rightarrow> string" where
  "local_retention_as_str LrsPresent = ''PRESENT''"

datatype verify_result = VerifyOk | VerifyNotFound | DigestMismatch | VerifyError string

datatype payload_read_result =
    PayloadFound bytes | PayloadNotFound | PayloadCorrupted string string | PayloadError string

record delivery_state_record =
  ds_event_id :: string
  ds_delivery_status :: string
  ds_attempt_count :: i32
  ds_next_retry_at_ms :: "i64 option"
  ds_last_error :: "string option"
  ds_blocked_reason :: "string option"
  ds_kafka_topic :: "string option"
  ds_kafka_partition :: "i32 option"
  ds_kafka_offset :: "i64 option"
  ds_routing_fingerprint :: "checksum option"
  ds_profile_id :: "string option"
  ds_profile_version :: "i32 option"
  ds_delivery_revision :: i64
  ds_delivery_checksum :: checksum
  ds_confirmed_at_ms :: "i64 option"
  ds_created_at_ms :: i64
  ds_updated_at_ms :: i64

record delivery_attempt_record =
  da_event_id :: string
  da_attempt_number :: i32
  da_outcome :: string
  da_error_code :: "string option"
  da_kafka_topic :: "string option"
  da_kafka_partition :: "i32 option"
  da_kafka_offset :: "i64 option"
  da_profile_id :: "string option"
  da_profile_version :: "i32 option"
  da_attempted_at_ms :: i64

record replicated_delivery_confirmation =
  rc_expected_routing_fingerprint :: checksum
  rc_expected_profile_id :: string
  rc_expected_profile_version :: i32
  rc_kafka_topic :: string
  rc_kafka_partition :: i32
  rc_kafka_offset :: i64

datatype delivery_state_result =
    DeliveryFound delivery_state_record | DeliveryNotFound | DeliveryCorrupted string string
  | DeliveryError string

record delivery_candidate =
  dc_event_id :: string
  dc_installation_id :: string
  dc_namespace :: string
  dc_logical_stream_type :: string
  dc_stream_key :: string
  dc_stream_sequence :: i64
  dc_event_type :: string
  dc_routing_version :: i64
  dc_delivery_state :: delivery_state_record

datatype delivery_candidate_result =
    CandidateFound delivery_candidate | CandidateNotFound | CandidateCorrupted string string
  | CandidateError string

record pending_delivery =
  pd_event_id :: string
  pd_journal_sequence :: i64
  pd_stream_key :: string
  pd_stream_sequence :: i64
  pd_delivery_status :: string
  pd_attempt_count :: i32
  pd_next_retry_at_ms :: "i64 option"

datatype delivery_scan_result =
    ScanOk "pending_delivery list" | ScanCorrupted "string option" string | ScanError string

record journal_config =
  jc_busy_timeout_ms :: nat
  jc_wal_autocheckpoint :: nat
  jc_max_payload_bytes :: nat
  jc_max_metadata_entries :: nat

definition default_journal_config :: journal_config where
  "default_journal_config = \<lparr>jc_busy_timeout_ms = 5000, jc_wal_autocheckpoint = 1000,
     jc_max_payload_bytes = 1048576, jc_max_metadata_entries = 32\<rparr>"

subsection \<open>Tables\<close>

record envelope_row =
  se_journal_sequence :: i64
  se_event_id :: string
  se_installation_id :: string
  se_producer_id :: string
  se_producer_instance_id :: string
  se_producer_op_seq :: i64
  se_namespace :: string
  se_logical_stream_type :: string
  se_stream_key :: string
  se_event_type :: string
  se_schema_version :: i64
  se_stream_sequence :: i64
  se_payload_digest :: bytes
  se_request_fingerprint :: bytes
  se_envelope_checksum :: bytes
  se_payload_ref_id :: string
  se_payload_length :: i64
  se_routing_version :: i64
  se_received_at_ms :: i64

record payload_row =
  pb_event_id :: string
  pb_payload :: bytes
  pb_payload_digest :: bytes

record lifecycle_row =
  ls_event_id :: string
  ls_revision :: i64
  ls_lifecycle_checksum :: bytes
  ls_delivery_status :: string
  ls_retention_status :: string
  ls_updated_at_ms :: i64

record dedup_row =
  dd_event_id :: string
  dd_request_fingerprint :: bytes

record producer_sequence_row =
  pr_producer_key :: string
  pr_highest_seq :: i64
  pr_last_event_id :: string

record stream_head_row =
  sh_stream_key :: string
  sh_head_sequence :: i64

record write_attempt_row =
  wa_id :: nat
  wa_event_id :: string
  wa_outcome :: string
  wa_detail :: "string option"
  wa_attempt_at_ms :: i64

record delivery_row =
  dr_event_id :: string
  dr_delivery_status :: string
  dr_attempt_count :: i64
  dr_next_retry_at_ms :: "i64 option"
  dr_last_error :: "string option"
  dr_blocked_reason :: "string option"
  dr_kafka_topic :: "string option"
  dr_kafka_partition :: "i64 option"
  dr_kafka_offset :: "i64 option"
  dr_routing_fingerprint :: "bytes option"
  dr_profile_id :: "string option"
  dr_profile_version :: "i64 option"
  dr_delivery_revision :: i64
  dr_delivery_checksum :: bytes
  dr_confirmed_at_ms :: "i64 option"
  dr_created_at_ms :: i64
  dr_updated_at_ms :: i64

record delivery_attempt_row =
  dt_id :: nat
  dt_attempt :: delivery_attempt_record

text \<open>
  The database. The two counters are the \<^verbatim>\<open>AUTOINCREMENT\<close> sequences (the greatest id handed out).
\<close>

record db =
  db_envelopes :: "envelope_row list"
  db_payloads :: "payload_row list"
  db_lifecycles :: "lifecycle_row list"
  db_dedups :: "dedup_row list"
  db_producer_sequences :: "producer_sequence_row list"
  db_stream_heads :: "stream_head_row list"
  db_write_attempts :: "write_attempt_row list"
  db_write_attempt_seq :: nat
  db_deliveries :: "delivery_row list"
  db_delivery_attempts :: "delivery_attempt_row list"
  db_delivery_attempt_seq :: nat

definition empty_db :: db where
  "empty_db = \<lparr>db_envelopes = [], db_payloads = [], db_lifecycles = [], db_dedups = [],
     db_producer_sequences = [], db_stream_heads = [], db_write_attempts = [],
     db_write_attempt_seq = 0, db_deliveries = [], db_delivery_attempts = [],
     db_delivery_attempt_seq = 0\<rparr>"

subsection \<open>The environment\<close>

datatype sql_point =
    SqlBegin | SqlCommit | SqlDedupQuery | SqlProducerSequenceQuery | SqlAllocateJournal
  | SqlStreamHeadQuery | SqlStreamHeadUpsert | SqlInsertEnvelope | SqlInsertPayload
  | SqlInsertLifecycle | SqlInsertDedup | SqlUpsertProducer | SqlInsertWriteAttempt
  | SqlTrimWriteAttempts | SqlStatusQuery | SqlSequenceLookup | SqlRecompute string
  | SqlPayloadQuery | SqlEnvelopeDigestQuery | SqlUpdateLifecycle | SqlExistsQuery
  | SqlInsertDelivery | SqlLoadDelivery string | SqlInsertDeliveryAttempt
  | SqlTrimDeliveryAttempts | SqlUpdateDelivery | SqlCandidateEnvelope | SqlPrepareScan
  | SqlScanQuery | SqlScanRow string | SqlPragma string | SqlCreate string | SqlMetaQuery
  | SqlMetaWrite | SqlOpen

record env =
  env_sha :: "bytes \<Rightarrow> checksum"
  env_fault :: "sql_point \<Rightarrow> string option"
  env_reject :: "sql_point \<Rightarrow> string"
  env_now_ms :: i64
  env_disk_safe :: bool
  env_overflow_checks :: bool

text \<open>One statement: its error message when the engine fails it, else its value.\<close>

definition sql :: "env \<Rightarrow> sql_point \<Rightarrow> 'a \<Rightarrow> string + 'a" where
  "sql e p v = (case env_fault e p of Some m \<Rightarrow> Inl m | None \<Rightarrow> Inr v)"

text \<open>A statement that is also refused when its value is \<open>None\<close>.\<close>

definition sql_checked :: "env \<Rightarrow> sql_point \<Rightarrow> 'a option \<Rightarrow> string + 'a" where
  "sql_checked e p v =
     (case env_fault e p of
        Some m \<Rightarrow> Inl m
      | None \<Rightarrow> (case v of None \<Rightarrow> Inl (env_reject e p) | Some x \<Rightarrow> Inr x))"

definition no_faults :: "env \<Rightarrow> bool" where
  "no_faults e \<longleftrightarrow> (\<forall>p. env_fault e p = None)"

lemma sql_Inr: "sql e p v = Inr x \<longleftrightarrow> env_fault e p = None \<and> x = v"
  by (auto simp: sql_def split: option.splits)

lemma sql_checked_Inr: "sql_checked e p v = Inr x \<longleftrightarrow> env_fault e p = None \<and> v = Some x"
  by (auto simp: sql_checked_def split: option.splits)

lemma sql_no_faults [simp]: "no_faults e \<Longrightarrow> sql e p v = Inr v"
  by (simp add: sql_def no_faults_def)

lemma sql_checked_no_faults [simp]: "no_faults e \<Longrightarrow> sql_checked e p (Some v) = Inr v"
  by (simp add: sql_checked_def no_faults_def)

subsection \<open>Row lookup\<close>

abbreviation find_envelope :: "db \<Rightarrow> string \<Rightarrow> envelope_row option" where
  "find_envelope d eid \<equiv> select_row se_event_id eid (db_envelopes d)"

abbreviation find_payload :: "db \<Rightarrow> string \<Rightarrow> payload_row option" where
  "find_payload d eid \<equiv> select_row pb_event_id eid (db_payloads d)"

abbreviation find_lifecycle :: "db \<Rightarrow> string \<Rightarrow> lifecycle_row option" where
  "find_lifecycle d eid \<equiv> select_row ls_event_id eid (db_lifecycles d)"

abbreviation find_dedup :: "db \<Rightarrow> string \<Rightarrow> dedup_row option" where
  "find_dedup d eid \<equiv> select_row dd_event_id eid (db_dedups d)"

abbreviation find_delivery :: "db \<Rightarrow> string \<Rightarrow> delivery_row option" where
  "find_delivery d eid \<equiv> select_row dr_event_id eid (db_deliveries d)"

text \<open>A foreign key \<^verbatim>\<open>REFERENCES stored_envelope(event_id)\<close>.\<close>

definition fk_envelope :: "db \<Rightarrow> string \<Rightarrow> bool" where
  "fk_envelope d eid \<longleftrightarrow> find_envelope d eid \<noteq> None"

subsection \<open>The journal object\<close>

record local_journal =
  lj_db :: db
  lj_config :: journal_config
  lj_poisoned :: bool
  lj_shutdown :: bool

text \<open>
  \<^verbatim>\<open>self.conn.lock().unwrap()\<close> around a body: a poisoned mutex panics, and a panic in the body
  poisons it (the open transaction is rolled back while unwinding, so the body returns the
  database it started from).
\<close>

definition with_conn :: "(db \<Rightarrow> 'a outcome \<times> db) \<Rightarrow> local_journal \<Rightarrow> 'a outcome \<times> local_journal" where
  "with_conn f j =
     (if lj_poisoned j then (Panicked, j)
      else case f (lj_db j) of
        (Done a, d) \<Rightarrow> (Done a, j\<lparr>lj_db := d\<rparr>)
      | (Panicked, d) \<Rightarrow> (Panicked, j\<lparr>lj_db := d, lj_poisoned := True\<rparr>))"

end
