(* ===== verification/Journal_Checksum.thy ===== *)
theory Journal_Checksum
  imports Journal_Types
begin

text \<open>
  The canonical encodings the journal hashes: the immutable envelope (\<^verbatim>\<open>compute_envelope_checksum\<close>),
  the lifecycle state and the delivery state. The lemmas say which fields an encoding determines,
  that is, what a matching checksum vouches for when the digest does not collide.
\<close>

subsection \<open>Encodings and checksums\<close>

text \<open>
  The \<^verbatim>\<open>update\<close> calls of \<^verbatim>\<open>compute_envelope_checksum\<close>: seventeen values separated by a zero byte.
\<close>

definition envelope_encoding ::
    "i64 \<Rightarrow> string \<Rightarrow> string \<Rightarrow> string \<Rightarrow> string \<Rightarrow> i64 \<Rightarrow> string \<Rightarrow> string \<Rightarrow> string \<Rightarrow> string \<Rightarrow> i32 \<Rightarrow> i64
       \<Rightarrow> checksum \<Rightarrow> checksum \<Rightarrow> string \<Rightarrow> i64 \<Rightarrow> i64 \<Rightarrow> bytes" where
  "envelope_encoding journal_seq event_id installation_id producer_id producer_instance_id producer_op_seq
     namespace logical_stream_type stream_key event_type schema_version stream_seq payload_digest
     request_fingerprint payload_ref_id payload_length routing_version =
     intercalate [0]
       [be_i64 journal_seq, str_bytes event_id, str_bytes installation_id, str_bytes producer_id,
        str_bytes producer_instance_id, be_i64 producer_op_seq, str_bytes namespace,
        str_bytes logical_stream_type, str_bytes stream_key, str_bytes event_type,
        be_i32 schema_version, be_i64 stream_seq, bytes_of payload_digest,
        bytes_of request_fingerprint, str_bytes payload_ref_id, be_i64 payload_length,
        be_i64 routing_version]"

definition compute_envelope_checksum ::
    "env \<Rightarrow> i64 \<Rightarrow> string \<Rightarrow> string \<Rightarrow> string \<Rightarrow> string \<Rightarrow> i64 \<Rightarrow> string \<Rightarrow> string \<Rightarrow> string \<Rightarrow> string \<Rightarrow> i32
       \<Rightarrow> i64 \<Rightarrow> checksum \<Rightarrow> checksum \<Rightarrow> string \<Rightarrow> i64 \<Rightarrow> i64 \<Rightarrow> checksum" where
  "compute_envelope_checksum e js eid inst prd pinst opseq ns lst sk et sv ss pd rf pref pl rv =
     env_sha e (envelope_encoding js eid inst prd pinst opseq ns lst sk et sv ss pd rf pref pl rv)"

definition lifecycle_encoding :: "string \<Rightarrow> i64 \<Rightarrow> string \<Rightarrow> string \<Rightarrow> bytes" where
  "lifecycle_encoding event_id revision delivery_status retention_status =
     str_bytes (join_nul [event_id, show_int revision, delivery_status, retention_status])"

definition compute_lifecycle_checksum :: "env \<Rightarrow> string \<Rightarrow> i64 \<Rightarrow> string \<Rightarrow> string \<Rightarrow> checksum" where
  "compute_lifecycle_checksum e event_id revision delivery_status retention_status =
     env_sha e (lifecycle_encoding event_id revision delivery_status retention_status)"

definition checksum_hex :: "checksum \<Rightarrow> string" where
  "checksum_hex c = concat (map (\<lambda>b. [hex_digit (unat b div 16), hex_digit (unat b mod 16)]) (bytes_of c))"

definition opt_text :: "('a \<Rightarrow> string) \<Rightarrow> 'a option \<Rightarrow> string" where
  "opt_text f x = (case x of None \<Rightarrow> [] | Some a \<Rightarrow> f a)"

definition delivery_encoding :: "delivery_state_record \<Rightarrow> bytes" where
  "delivery_encoding state = str_bytes (join_nul
     [ds_event_id state, ds_delivery_status state, show_int (ds_attempt_count state),
      opt_text show_int (ds_next_retry_at_ms state), opt_text id (ds_last_error state),
      opt_text id (ds_blocked_reason state), opt_text id (ds_kafka_topic state),
      opt_text show_int (ds_kafka_partition state), opt_text show_int (ds_kafka_offset state),
      opt_text checksum_hex (ds_routing_fingerprint state), opt_text id (ds_profile_id state),
      opt_text show_int (ds_profile_version state), show_int (ds_delivery_revision state),
      opt_text show_int (ds_confirmed_at_ms state), show_int (ds_created_at_ms state)])"

definition compute_delivery_checksum :: "env \<Rightarrow> delivery_state_record \<Rightarrow> checksum" where
  "compute_delivery_checksum e state = env_sha e (delivery_encoding state)"

subsection \<open>Recomputation from a stored row\<close>

text \<open>The encoding of a stored envelope row whose digests have the right length.\<close>

definition row_encoding :: "envelope_row \<Rightarrow> checksum \<Rightarrow> checksum \<Rightarrow> bytes" where
  "row_encoding r pd rf =
     envelope_encoding (se_journal_sequence r) (se_event_id r) (se_installation_id r) (se_producer_id r)
       (se_producer_instance_id r) (se_producer_op_seq r) (se_namespace r) (se_logical_stream_type r)
       (se_stream_key r) (se_event_type r) (se_schema_version r) (se_stream_sequence r) pd rf
       (se_payload_ref_id r) (se_payload_length r) (se_routing_version r)"

definition expected_length_32 :: "string \<Rightarrow> bytes \<Rightarrow> string" where
  "expected_length_32 field bs = field @ '' length '' @ show_int (int (length bs)) @ '', expected 32''"

definition recompute_envelope_checksum_from_row :: "env \<Rightarrow> db \<Rightarrow> string \<Rightarrow> string + checksum" where
  "recompute_envelope_checksum_from_row e d event_id =
     (case sql_checked e (SqlRecompute event_id)
        (case find_envelope d event_id of
           Some r \<Rightarrow> if in_i32 (se_schema_version r) then Some (Some r) else None
         | None \<Rightarrow> Some None) of
        Inl m \<Rightarrow> Inl (''envelope recompute query error: '' @ m)
      | Inr None \<Rightarrow> Inl ''stored envelope row not found for recompute''
      | Inr (Some r) \<Rightarrow>
          (case checksum_of (se_payload_digest r) of
             None \<Rightarrow> Inl (expected_length_32 ''payload_digest'' (se_payload_digest r))
           | Some pd \<Rightarrow>
               (case checksum_of (se_request_fingerprint r) of
                  None \<Rightarrow> Inl (expected_length_32 ''request_fingerprint'' (se_request_fingerprint r))
                | Some rf \<Rightarrow>
                    Inr (compute_envelope_checksum e (se_journal_sequence r) event_id (se_installation_id r)
                      (se_producer_id r) (se_producer_instance_id r) (se_producer_op_seq r) (se_namespace r)
                      (se_logical_stream_type r) (se_stream_key r) (se_event_type r) (se_schema_version r)
                      (se_stream_sequence r) pd rf (se_payload_ref_id r) (se_payload_length r)
                      (se_routing_version r)))))"

subsection \<open>Lemmas\<close>

lemma recompute_Inr:
  "recompute_envelope_checksum_from_row e d eid = Inr c \<Longrightarrow>
     \<exists>r pd rf. find_envelope d eid = Some r \<and> se_payload_digest r = bytes_of pd \<and>
       se_request_fingerprint r = bytes_of rf \<and> in_i32 (se_schema_version r) \<and> c = env_sha e (row_encoding r pd rf)"
  by (auto simp: recompute_envelope_checksum_from_row_def sql_checked_def compute_envelope_checksum_def
      row_encoding_def checksum_of_eq_Some split: option.splits if_splits dest: select_row_Some_in)

lemma recompute_ok:
  assumes "find_envelope d eid = Some r" "se_payload_digest r = bytes_of pd"
    "se_request_fingerprint r = bytes_of rf" "in_i32 (se_schema_version r)" "env_fault e (SqlRecompute eid) = None"
  shows "recompute_envelope_checksum_from_row e d eid = Inr (env_sha e (row_encoding r pd rf))"
  using assms
  by (auto simp: recompute_envelope_checksum_from_row_def sql_checked_def compute_envelope_checksum_def
      row_encoding_def dest: select_row_Some_in)

lemma checksum_hex_inj: "checksum_hex a = checksum_hex b \<longleftrightarrow> a = b"
proof
  assume eq: "checksum_hex a = checksum_hex b"
  have "xs = ys" if "length xs = length ys"
    "concat (map (\<lambda>b. [hex_digit (unat b div 16), hex_digit (unat b mod 16)]) xs) =
     concat (map (\<lambda>b. [hex_digit (unat b div 16), hex_digit (unat b mod 16)]) ys)" for xs ys :: bytes
    using that
  proof (induction xs ys rule: list_induct2)
    case (Cons x xs y ys)
    from Cons.prems have "unat x div 16 = unat y div 16" "unat x mod 16 = unat y mod 16"
      by (simp_all add: hex_digit_inj byte_high_nibble)
    then have "unat x = unat y" by (metis div_mod_decomp)
    then have "x = y" by (rule unsigned_word_eqI)
    with Cons show ?case by simp
  qed simp
  from this [of "bytes_of a" "bytes_of b"] eq show "a = b"
    by (simp add: checksum_hex_def bytes_of_inject)
qed simp

lemma checksum_hex_nul_free: "nul_free (checksum_hex c)"
proof -
  have "hex_digit (unat b div 16) \<noteq> nul" "hex_digit (unat b mod 16) \<noteq> nul" for b :: byte
    by (simp_all add: hex_digit_not_nul byte_high_nibble)
  then show ?thesis unfolding checksum_hex_def nul_free_def by fastforce
qed

lemma checksum_hex_nonempty: "checksum_hex c \<noteq> []"
proof -
  have "bytes_of c \<noteq> []" using length_bytes_of [of c] by (metis list.size(3) zero_neq_numeral)
  then show ?thesis by (cases "bytes_of c") (simp_all add: checksum_hex_def)
qed

lemma lifecycle_encoding_inj:
  assumes "nul_free eid" "nul_free ds" "nul_free rs" "nul_free eid'" "nul_free ds'" "nul_free rs'"
  shows "lifecycle_encoding eid rv ds rs = lifecycle_encoding eid' rv' ds' rs' \<longleftrightarrow>
    eid = eid' \<and> rv = rv' \<and> ds = ds' \<and> rs = rs'"
  using assms join_nul_inj [of "[eid, show_int rv, ds, rs]" "[eid', show_int rv', ds', rs']"]
  by (simp add: lifecycle_encoding_def)

text \<open>Peeling one field off a zero-separated encoding.\<close>

lemma str_bytes_sep_cancel:
  assumes "str_bytes s @ 0 # xs = str_bytes t @ 0 # ys" "nul_free s" "nul_free t"
  shows "s = t \<and> xs = ys"
proof -
  have "(0 :: byte) \<notin> set (str_bytes u)" if "nul_free u" for u
  proof
    assume "(0 :: byte) \<in> set (str_bytes u)"
    then obtain c where "c \<in> set u" "(of_char c :: byte) = of_char nul" by (auto simp: str_bytes_def)
    then have "nul \<in> set u" using inj_of_char_byte by (metis injD)
    with that show False by (simp add: nul_free_def)
  qed
  with assms have "str_bytes s = str_bytes t \<and> xs = ys" by (intro sep_append_cancel [of _ 0]) auto
  then show ?thesis by simp
qed

lemma be_sep_cancel:
  "be_bytes k i @ xs = be_bytes k j @ ys \<longleftrightarrow> be_bytes k i = be_bytes k j \<and> xs = ys"
  "bytes_of p @ xs = bytes_of q @ ys \<longleftrightarrow> p = q \<and> xs = ys"
  by (simp_all add: bytes_of_inject)

text \<open>The text fields of an envelope row, and rows whose text fields hold no zero byte.\<close>

definition row_texts :: "envelope_row \<Rightarrow> string list" where
  "row_texts r = [se_event_id r, se_installation_id r, se_producer_id r, se_producer_instance_id r,
     se_namespace r, se_logical_stream_type r, se_stream_key r, se_event_type r, se_payload_ref_id r]"

definition row_in_range :: "envelope_row \<Rightarrow> bool" where
  "row_in_range r \<longleftrightarrow> in_i64 (se_journal_sequence r) \<and> in_i64 (se_producer_op_seq r) \<and>
     in_i32 (se_schema_version r) \<and> in_i64 (se_stream_sequence r) \<and> in_i64 (se_payload_length r) \<and>
     in_i64 (se_routing_version r)"

definition row_numbers :: "envelope_row \<Rightarrow> int list" where
  "row_numbers r = [se_journal_sequence r, se_producer_op_seq r, se_schema_version r,
     se_stream_sequence r, se_payload_length r, se_routing_version r]"

lemma row_encoding_inj:
  assumes texts: "list_all nul_free (row_texts r)" "list_all nul_free (row_texts s)"
    and range: "row_in_range r" "row_in_range s"
    and eq: "row_encoding r pd rf = row_encoding s pd' rf'"
  shows "row_texts r = row_texts s \<and> row_numbers r = row_numbers s \<and> pd = pd' \<and> rf = rf'"
proof -
  note cancel = be_sep_cancel(1) [of 8 _ "0 # _" _ "0 # _"] be_sep_cancel(1) [of 4 _ "0 # _" _ "0 # _"]
    be_sep_cancel(2) [of _ "0 # _" _ "0 # _"]
  have nf: "nul_free x" if "x \<in> set (row_texts r) \<union> set (row_texts s)" for x
    using that texts by (auto simp: list_all_iff)
  from eq have "be_i64 (se_journal_sequence r) = be_i64 (se_journal_sequence s)"
    and "be_i64 (se_producer_op_seq r) = be_i64 (se_producer_op_seq s)"
    and "be_i32 (se_schema_version r) = be_i32 (se_schema_version s)"
    and "be_i64 (se_stream_sequence r) = be_i64 (se_stream_sequence s)"
    and "be_i64 (se_payload_length r) = be_i64 (se_payload_length s)"
    and "be_i64 (se_routing_version r) = be_i64 (se_routing_version s)"
    and "pd = pd'" "rf = rf'" "row_texts r = row_texts s"
    by (auto simp: row_encoding_def envelope_encoding_def row_texts_def cancel nf
        simp del: be_bytes.simps dest!: str_bytes_sep_cancel)
  with range show ?thesis by (simp add: row_numbers_def row_in_range_def be_i64_inj be_i32_inj)
qed

end
