(* ===== verification/Journal_Read.thy ===== *)
theory Journal_Read
  imports Journal_Checksum
begin

text \<open>
  The read side of \<^verbatim>\<open>craftrelay-journal\<close>: every row is verified against its checksum before it is
  returned. \<open>get_status_impl\<close>, \<open>verify_payload_digest\<close>, \<open>read_verified_payload_impl\<close>,
  \<open>load_delivery_state\<close> and \<open>load_delivery_candidate\<close> follow the source function by function;
  the lemmas turn a successful read into the facts about the stored rows it rests on.
\<close>

subsection \<open>Status lookup\<close>

definition is_allowed_delivery_status :: "string \<Rightarrow> bool" where
  "is_allowed_delivery_status status \<longleftrightarrow>
     status \<in> set [''LOCAL_ACCEPTED'', ''DELIVERY_PENDING'', ''DELIVERY_RETRYING'', ''REPLICATED'',
       ''DELIVERY_BLOCKED'']"

definition is_allowed_retention_status :: "string \<Rightarrow> bool" where
  "is_allowed_retention_status status \<longleftrightarrow> status = ''PRESENT''"

text \<open>The body of the \<^verbatim>\<open>Some\<close> arm of \<^verbatim>\<open>get_status_impl\<close>: the checks on the joined row.\<close>

definition check_status_row :: "env \<Rightarrow> db \<Rightarrow> string \<Rightarrow> envelope_row \<Rightarrow> lifecycle_row \<Rightarrow> status_result" where
  "check_status_row e d event_id en l =
     (case (checksum_of (se_payload_digest en), checksum_of (se_envelope_checksum en),
            checksum_of (ls_lifecycle_checksum l)) of
        (Some payload_digest, Some envelope_checksum, Some lifecycle_checksum) \<Rightarrow>
          if lifecycle_checksum \<noteq> compute_lifecycle_checksum e event_id (ls_revision l)
               (ls_delivery_status l) (ls_retention_status l)
          then StatusCorrupted event_id ''lifecycle checksum mismatch''
          else if \<not> is_allowed_delivery_status (ls_delivery_status l)
          then StatusCorrupted event_id (''unsupported delivery status: '' @ ls_delivery_status l)
          else if \<not> is_allowed_retention_status (ls_retention_status l)
          then StatusCorrupted event_id (''unsupported retention status: '' @ ls_retention_status l)
          else (case recompute_envelope_checksum_from_row e d event_id of
                  Inl detail \<Rightarrow> StatusCorrupted event_id detail
                | Inr expected_ec \<Rightarrow>
                    if envelope_checksum \<noteq> expected_ec
                    then StatusCorrupted event_id ''envelope checksum mismatch''
                    else StatusFound
                      \<lparr>ps_event_id = event_id, ps_journal_sequence = se_journal_sequence en,
                       ps_stream_sequence = se_stream_sequence en,
                       ps_lifecycle_revision = ls_revision l,
                       ps_lifecycle_checksum = lifecycle_checksum,
                       ps_delivery_status = ls_delivery_status l,
                       ps_retention_status = ls_retention_status l,
                       ps_payload_digest = payload_digest,
                       ps_envelope_checksum = envelope_checksum\<rparr>)
      | _ \<Rightarrow> StatusCorrupted event_id ''checksum field length invalid'')"

definition get_status_impl :: "env \<Rightarrow> db \<Rightarrow> string \<Rightarrow> status_result" where
  "get_status_impl e d event_id =
     (case sql e SqlStatusQuery (find_envelope d event_id, find_lifecycle d event_id) of
        Inl m \<Rightarrow> StatusCorrupted event_id (''status query error: '' @ m)
      | Inr (Some en, Some l) \<Rightarrow> check_status_row e d event_id en l
      | Inr _ \<Rightarrow> StatusNotFound)"

definition get_status_by_journal_seq :: "env \<Rightarrow> db \<Rightarrow> i64 \<Rightarrow> status_result" where
  "get_status_by_journal_seq e d journal_seq =
     (case sql e SqlSequenceLookup (select_row se_journal_sequence journal_seq (db_envelopes d)) of
        Inl m \<Rightarrow> StatusCorrupted (''journal_seq='' @ show_int journal_seq) (''sequence lookup error: '' @ m)
      | Inr None \<Rightarrow> StatusNotFound
      | Inr (Some r) \<Rightarrow> get_status_impl e d (se_event_id r))"

subsection \<open>Payload reads\<close>

definition verify_payload_digest :: "env \<Rightarrow> db \<Rightarrow> string \<Rightarrow> string + unit" where
  "verify_payload_digest e d event_id =
     (case sql e SqlPayloadQuery (find_payload d event_id) of
        Inl m \<Rightarrow> Inl (''payload query error: '' @ m)
      | Inr None \<Rightarrow> Inl ''payload blob not found''
      | Inr (Some b) \<Rightarrow>
          if length (pb_payload_digest b) \<noteq> 32
          then Inl (expected_length_32 ''payload_digest'' (pb_payload_digest b))
          else if bytes_of (env_sha e (pb_payload b)) \<noteq> pb_payload_digest b
          then Inl ''payload digest mismatch''
          else Inr ())"

definition verify_payload :: "env \<Rightarrow> db \<Rightarrow> string \<Rightarrow> verify_result" where
  "verify_payload e d event_id =
     (case sql e SqlPayloadQuery (find_payload d event_id) of
        Inl m \<Rightarrow> VerifyError (''payload query error: '' @ m)
      | Inr None \<Rightarrow> VerifyNotFound
      | Inr (Some b) \<Rightarrow>
          if bytes_of (env_sha e (pb_payload b)) = pb_payload_digest b then VerifyOk else DigestMismatch)"

definition read_verified_payload_impl :: "env \<Rightarrow> db \<Rightarrow> string \<Rightarrow> payload_read_result" where
  "read_verified_payload_impl e d event_id =
     (case sql e SqlEnvelopeDigestQuery (find_envelope d event_id) of
        Inl m \<Rightarrow> PayloadError (''stored envelope payload digest query error: '' @ m)
      | Inr None \<Rightarrow> PayloadNotFound
      | Inr (Some en) \<Rightarrow>
          if length (se_payload_digest en) \<noteq> 32
          then PayloadCorrupted event_id
            (expected_length_32 ''stored envelope payload_digest'' (se_payload_digest en))
          else (case sql e SqlPayloadQuery (find_payload d event_id) of
                  Inl m \<Rightarrow> PayloadError (''payload blob query error: '' @ m)
                | Inr None \<Rightarrow> PayloadCorrupted event_id ''payload blob not found''
                | Inr (Some b) \<Rightarrow>
                    if length (pb_payload_digest b) \<noteq> 32
                    then PayloadCorrupted event_id
                      (expected_length_32 ''payload blob payload_digest'' (pb_payload_digest b))
                    else if pb_payload_digest b \<noteq> se_payload_digest en
                    then PayloadCorrupted event_id
                      ''payload blob digest differs from stored envelope digest''
                    else if bytes_of (env_sha e (pb_payload b)) \<noteq> se_payload_digest en
                    then PayloadCorrupted event_id ''payload digest mismatch''
                    else PayloadFound (pb_payload b)))"

subsection \<open>Delivery-state invariants\<close>

definition require_some :: "'a option \<Rightarrow> string \<Rightarrow> string \<Rightarrow> string + unit" where
  "require_some value field status =
     (if value \<noteq> None then Inr () else Inl (status @ '' delivery state missing '' @ field))"

definition require_non_empty :: "string option \<Rightarrow> string \<Rightarrow> string \<Rightarrow> string + unit" where
  "require_non_empty value field status =
     (case value of
        Some v \<Rightarrow> if v \<noteq> [] then Inr () else Inl (status @ '' delivery state has empty '' @ field)
      | None \<Rightarrow> Inl (status @ '' delivery state missing '' @ field))"

definition require_absent :: "'a option \<Rightarrow> string \<Rightarrow> string \<Rightarrow> string + unit" where
  "require_absent value field status =
     (if value = None then Inr () else Inl (status @ '' delivery state must not contain '' @ field))"

definition require_positive_i32 :: "i32 option \<Rightarrow> string \<Rightarrow> string \<Rightarrow> string + unit" where
  "require_positive_i32 value field status =
     (case value of
        Some v \<Rightarrow> if 0 < v then Inr () else Inl (status @ '' delivery state has invalid '' @ field)
      | None \<Rightarrow> Inl (status @ '' delivery state missing '' @ field))"

text \<open>\<^verbatim>\<open>require_non_negative_i32\<close> and \<^verbatim>\<open>require_non_negative_i64\<close> have the same body.\<close>

definition require_non_negative_i32 :: "i32 option \<Rightarrow> string \<Rightarrow> string \<Rightarrow> string + unit" where
  "require_non_negative_i32 value field status =
     (case value of
        Some v \<Rightarrow> if 0 \<le> v then Inr () else Inl (status @ '' delivery state has invalid '' @ field)
      | None \<Rightarrow> Inl (status @ '' delivery state missing '' @ field))"

definition require_non_negative_i64 :: "i64 option \<Rightarrow> string \<Rightarrow> string \<Rightarrow> string + unit" where
  "require_non_negative_i64 value field status =
     (case value of
        Some v \<Rightarrow> if 0 \<le> v then Inr () else Inl (status @ '' delivery state has invalid '' @ field)
      | None \<Rightarrow> Inl (status @ '' delivery state missing '' @ field))"

definition require_delivery_routing_fields :: "delivery_state_record \<Rightarrow> string \<Rightarrow> string + unit" where
  "require_delivery_routing_fields state status = try_all
     [require_non_empty (ds_kafka_topic state) ''kafka_topic'' status,
      require_some (ds_routing_fingerprint state) ''routing_fingerprint'' status,
      require_non_empty (ds_profile_id state) ''profile_id'' status,
      require_positive_i32 (ds_profile_version state) ''profile_version'' status]"

definition require_no_confirmed_kafka_metadata :: "delivery_state_record \<Rightarrow> string \<Rightarrow> string + unit" where
  "require_no_confirmed_kafka_metadata state status = try_all
     [require_absent (ds_kafka_partition state) ''kafka_partition'' status,
      require_absent (ds_kafka_offset state) ''kafka_offset'' status,
      require_absent (ds_confirmed_at_ms state) ''confirmed_at_ms'' status]"

definition validate_delivery_state_invariants :: "delivery_state_record \<Rightarrow> string + unit" where
  "validate_delivery_state_invariants state =
     (let status = ds_delivery_status state in
      if status = ''REPLICATED'' then try_all
        [require_non_empty (ds_kafka_topic state) ''kafka_topic'' status,
         require_some (ds_routing_fingerprint state) ''routing_fingerprint'' status,
         require_non_empty (ds_profile_id state) ''profile_id'' status,
         require_positive_i32 (ds_profile_version state) ''profile_version'' status,
         require_non_negative_i32 (ds_kafka_partition state) ''kafka_partition'' status,
         require_non_negative_i64 (ds_kafka_offset state) ''kafka_offset'' status,
         require_some (ds_confirmed_at_ms state) ''confirmed_at_ms'' status,
         require_absent (ds_blocked_reason state) ''blocked_reason'' status,
         require_absent (ds_next_retry_at_ms state) ''next_retry_at_ms'' status]
      else if status = ''DELIVERY_PENDING'' then try_all
        [require_delivery_routing_fields state status,
         require_absent (ds_next_retry_at_ms state) ''next_retry_at_ms'' status,
         require_absent (ds_blocked_reason state) ''blocked_reason'' status,
         require_no_confirmed_kafka_metadata state status]
      else if status = ''DELIVERY_RETRYING'' then try_all
        [require_delivery_routing_fields state status,
         require_some (ds_next_retry_at_ms state) ''next_retry_at_ms'' status,
         require_absent (ds_blocked_reason state) ''blocked_reason'' status,
         require_no_confirmed_kafka_metadata state status]
      else if status = ''DELIVERY_BLOCKED'' then try_all
        [require_non_empty (ds_blocked_reason state) ''blocked_reason'' status,
         require_absent (ds_next_retry_at_ms state) ''next_retry_at_ms'' status,
         require_no_confirmed_kafka_metadata state status]
      else Inr ())"

subsection \<open>Loading a delivery state\<close>

definition supported_delivery_statuses :: "string list" where
  "supported_delivery_statuses =
     [''DELIVERY_PENDING'', ''DELIVERY_RETRYING'', ''REPLICATED'', ''DELIVERY_BLOCKED'']"

text \<open>The typed reads of the row: the \<^verbatim>\<open>i32\<close> columns must be in range.\<close>

definition delivery_row_readable :: "delivery_row \<Rightarrow> bool" where
  "delivery_row_readable r \<longleftrightarrow> in_i32 (dr_attempt_count r) \<and>
     (case dr_kafka_partition r of None \<Rightarrow> True | Some v \<Rightarrow> in_i32 v) \<and>
     (case dr_profile_version r of None \<Rightarrow> True | Some v \<Rightarrow> in_i32 v)"

definition delivery_record_of ::
    "string \<Rightarrow> delivery_row \<Rightarrow> checksum option \<Rightarrow> checksum \<Rightarrow> delivery_state_record" where
  "delivery_record_of event_id r rf dc =
     \<lparr>ds_event_id = event_id, ds_delivery_status = dr_delivery_status r,
      ds_attempt_count = dr_attempt_count r, ds_next_retry_at_ms = dr_next_retry_at_ms r,
      ds_last_error = dr_last_error r, ds_blocked_reason = dr_blocked_reason r,
      ds_kafka_topic = dr_kafka_topic r, ds_kafka_partition = dr_kafka_partition r,
      ds_kafka_offset = dr_kafka_offset r, ds_routing_fingerprint = rf,
      ds_profile_id = dr_profile_id r, ds_profile_version = dr_profile_version r,
      ds_delivery_revision = dr_delivery_revision r, ds_delivery_checksum = dc,
      ds_confirmed_at_ms = dr_confirmed_at_ms r, ds_created_at_ms = dr_created_at_ms r,
      ds_updated_at_ms = dr_updated_at_ms r\<rparr>"

text \<open>The checks after the row is read, in the source's order.\<close>

definition check_delivery_row :: "env \<Rightarrow> string \<Rightarrow> delivery_row \<Rightarrow> delivery_state_result" where
  "check_delivery_row e event_id r =
     (case checksum_of (dr_delivery_checksum r) of
        None \<Rightarrow> DeliveryCorrupted event_id ''delivery checksum length invalid''
      | Some dc \<Rightarrow>
          if (case dr_routing_fingerprint r of None \<Rightarrow> False | Some v \<Rightarrow> length v \<noteq> 32)
          then DeliveryCorrupted event_id ''routing fingerprint length invalid''
          else if dr_delivery_status r \<notin> set supported_delivery_statuses
          then DeliveryCorrupted event_id (''unsupported delivery state status: '' @ dr_delivery_status r)
          else
            let state = delivery_record_of event_id r (Option.bind (dr_routing_fingerprint r) checksum_of) dc in
            if ds_delivery_checksum state \<noteq> compute_delivery_checksum e state
            then DeliveryCorrupted event_id ''delivery checksum mismatch''
            else (case validate_delivery_state_invariants state of
                    Inl detail \<Rightarrow> DeliveryCorrupted event_id detail
                  | Inr _ \<Rightarrow> DeliveryFound state))"

definition load_delivery_state :: "env \<Rightarrow> db \<Rightarrow> string \<Rightarrow> delivery_state_result" where
  "load_delivery_state e d event_id =
     (case sql_checked e (SqlLoadDelivery event_id)
        (case find_delivery d event_id of
           Some r \<Rightarrow> if delivery_row_readable r then Some (Some r) else None
         | None \<Rightarrow> Some None) of
        Inl m \<Rightarrow> DeliveryError m
      | Inr None \<Rightarrow> DeliveryNotFound
      | Inr (Some r) \<Rightarrow> check_delivery_row e event_id r)"

definition load_delivery_candidate :: "env \<Rightarrow> db \<Rightarrow> string \<Rightarrow> delivery_candidate_result" where
  "load_delivery_candidate e d event_id =
     (case load_delivery_state e d event_id of
        DeliveryNotFound \<Rightarrow> CandidateNotFound
      | DeliveryCorrupted eid detail \<Rightarrow> CandidateCorrupted eid detail
      | DeliveryError m \<Rightarrow> CandidateError m
      | DeliveryFound delivery_state \<Rightarrow>
          (case sql e SqlCandidateEnvelope (find_envelope d event_id) of
             Inl m \<Rightarrow> CandidateCorrupted event_id (''delivery candidate envelope query error: '' @ m)
           | Inr None \<Rightarrow> CandidateCorrupted event_id ''stored envelope missing for delivery state''
           | Inr (Some r) \<Rightarrow>
               (case checksum_of (se_envelope_checksum r) of
                  None \<Rightarrow> CandidateCorrupted event_id
                    (expected_length_32 ''envelope checksum'' (se_envelope_checksum r))
                | Some envelope_checksum \<Rightarrow>
                    (case recompute_envelope_checksum_from_row e d event_id of
                       Inl detail \<Rightarrow> CandidateCorrupted event_id detail
                     | Inr expected \<Rightarrow>
                         if envelope_checksum \<noteq> expected
                         then CandidateCorrupted event_id ''envelope checksum mismatch''
                         else CandidateFound
                           \<lparr>dc_event_id = event_id, dc_installation_id = se_installation_id r,
                            dc_namespace = se_namespace r,
                            dc_logical_stream_type = se_logical_stream_type r,
                            dc_stream_key = se_stream_key r,
                            dc_stream_sequence = se_stream_sequence r,
                            dc_event_type = se_event_type r,
                            dc_routing_version = se_routing_version r,
                            dc_delivery_state = delivery_state\<rparr>))))"

definition load_verified_lifecycle_for_transition :: "env \<Rightarrow> db \<Rightarrow> string \<Rightarrow> cas_result + persisted_status" where
  "load_verified_lifecycle_for_transition e d event_id =
     (case get_status_impl e d event_id of
        StatusFound status \<Rightarrow> Inr status
      | StatusNotFound \<Rightarrow> Inl (CasCorrupted event_id ''lifecycle state missing for delivery transition'')
      | StatusCorrupted eid detail \<Rightarrow> Inl (CasCorrupted eid detail))"

subsection \<open>What a successful read says about the rows\<close>

text \<open>Rows whose stored checksum is the one recomputed from their other fields.\<close>

definition envelope_ok :: "env \<Rightarrow> envelope_row \<Rightarrow> bool" where
  "envelope_ok e en \<longleftrightarrow> in_i32 (se_schema_version en) \<and>
     (case (checksum_of (se_payload_digest en), checksum_of (se_request_fingerprint en)) of
        (Some pd, Some rf) \<Rightarrow> se_envelope_checksum en = bytes_of (env_sha e (row_encoding en pd rf))
      | _ \<Rightarrow> False)"

definition lifecycle_ok :: "env \<Rightarrow> lifecycle_row \<Rightarrow> bool" where
  "lifecycle_ok e l \<longleftrightarrow>
     ls_lifecycle_checksum l = bytes_of (compute_lifecycle_checksum e (ls_event_id l) (ls_revision l)
       (ls_delivery_status l) (ls_retention_status l)) \<and>
     is_allowed_delivery_status (ls_delivery_status l) \<and> is_allowed_retention_status (ls_retention_status l)"

definition describes :: "persisted_status \<Rightarrow> envelope_row \<Rightarrow> lifecycle_row \<Rightarrow> bool" where
  "describes s en l \<longleftrightarrow> ps_event_id s = se_event_id en \<and> ps_journal_sequence s = se_journal_sequence en \<and>
     ps_stream_sequence s = se_stream_sequence en \<and> ps_lifecycle_revision s = ls_revision l \<and>
     bytes_of (ps_lifecycle_checksum s) = ls_lifecycle_checksum l \<and>
     ps_delivery_status s = ls_delivery_status l \<and> ps_retention_status s = ls_retention_status l \<and>
     bytes_of (ps_payload_digest s) = se_payload_digest en \<and>
     bytes_of (ps_envelope_checksum s) = se_envelope_checksum en"

lemma envelope_ok_iff:
  "envelope_ok e en \<longleftrightarrow> in_i32 (se_schema_version en) \<and>
     (\<exists>pd rf. se_payload_digest en = bytes_of pd \<and> se_request_fingerprint en = bytes_of rf \<and>
        se_envelope_checksum en = bytes_of (env_sha e (row_encoding en pd rf)))"
  by (auto simp: envelope_ok_def checksum_of_eq_Some bytes_of_inject split: option.splits)

lemma describes_unique: "describes s en l \<Longrightarrow> describes s' en l \<Longrightarrow> s = s'"
  by (cases s; cases s') (simp add: describes_def flip: bytes_of_inject)

lemma recompute_matches:
  assumes "find_envelope d eid = Some en"
  shows "recompute_envelope_checksum_from_row e d eid = Inr c \<and> se_envelope_checksum en = bytes_of c \<longleftrightarrow>
    env_fault e (SqlRecompute eid) = None \<and> envelope_ok e en \<and> se_envelope_checksum en = bytes_of c"
proof
  assume L: "recompute_envelope_checksum_from_row e d eid = Inr c \<and> se_envelope_checksum en = bytes_of c"
  then have "env_fault e (SqlRecompute eid) = None"
    by (auto simp: recompute_envelope_checksum_from_row_def sql_checked_def split: option.splits)
  with L assms show "env_fault e (SqlRecompute eid) = None \<and> envelope_ok e en \<and> se_envelope_checksum en = bytes_of c"
    by (auto simp: envelope_ok_iff bytes_of_inject dest!: recompute_Inr)
next
  assume R: "env_fault e (SqlRecompute eid) = None \<and> envelope_ok e en \<and> se_envelope_checksum en = bytes_of c"
  then obtain pd rf where "se_payload_digest en = bytes_of pd" "se_request_fingerprint en = bytes_of rf"
    "in_i32 (se_schema_version en)" "se_envelope_checksum en = bytes_of (env_sha e (row_encoding en pd rf))"
    by (auto simp: envelope_ok_iff)
  with R recompute_ok [OF assms] show
    "recompute_envelope_checksum_from_row e d eid = Inr c \<and> se_envelope_checksum en = bytes_of c"
    by (simp add: bytes_of_inject)
qed

lemma check_status_row_Found:
  assumes "find_envelope d eid = Some en" "find_lifecycle d eid = Some l"
  shows "check_status_row e d eid en l = StatusFound s \<longleftrightarrow>
     env_fault e (SqlRecompute eid) = None \<and> envelope_ok e en \<and> lifecycle_ok e l \<and> describes s en l"
proof -
  have ids: "se_event_id en = eid" "ls_event_id l = eid" using assms by (auto dest: select_row_Some_in)
  show ?thesis
  proof
    assume L: "check_status_row e d eid en l = StatusFound s"
    then obtain pd ec lc where cs: "checksum_of (se_payload_digest en) = Some pd"
      "checksum_of (se_envelope_checksum en) = Some ec" "checksum_of (ls_lifecycle_checksum l) = Some lc"
      by (auto simp: check_status_row_def split: option.splits)
    with L have rc: "recompute_envelope_checksum_from_row e d eid = Inr ec"
      by (auto simp: check_status_row_def split: if_splits sum.splits)
    with L cs ids recompute_matches [OF assms(1), of e ec] show
      "env_fault e (SqlRecompute eid) = None \<and> envelope_ok e en \<and> lifecycle_ok e l \<and> describes s en l"
      by (auto simp: check_status_row_def checksum_of_eq_Some lifecycle_ok_def describes_def split: if_splits)
  next
    assume R: "env_fault e (SqlRecompute eid) = None \<and> envelope_ok e en \<and> lifecycle_ok e l \<and> describes s en l"
    then have cs: "checksum_of (se_payload_digest en) = Some (ps_payload_digest s)"
      "checksum_of (se_envelope_checksum en) = Some (ps_envelope_checksum s)"
      "checksum_of (ls_lifecycle_checksum l) = Some (ps_lifecycle_checksum s)"
      by (simp_all add: checksum_of_eq_Some describes_def)
    have "recompute_envelope_checksum_from_row e d eid = Inr (ps_envelope_checksum s)"
      using R recompute_matches [OF assms(1), of e "ps_envelope_checksum s"] by (simp add: describes_def)
    with R cs ids show "check_status_row e d eid en l = StatusFound s"
      by (auto simp: check_status_row_def lifecycle_ok_def describes_def simp flip: bytes_of_inject)
  qed
qed

lemma get_status_Found:
  "get_status_impl e d eid = StatusFound s \<longleftrightarrow>
     env_fault e SqlStatusQuery = None \<and> env_fault e (SqlRecompute eid) = None \<and>
     (\<exists>en l. find_envelope d eid = Some en \<and> find_lifecycle d eid = Some l \<and>
        envelope_ok e en \<and> lifecycle_ok e l \<and> describes s en l)"
  by (auto simp: get_status_impl_def sql_def check_status_row_Found split: option.splits)

text \<open>A status read depends on the event's envelope and lifecycle rows only.\<close>

lemma recompute_cong:
  "find_envelope d eid = find_envelope d' eid \<Longrightarrow>
     recompute_envelope_checksum_from_row e d eid = recompute_envelope_checksum_from_row e d' eid"
  by (simp add: recompute_envelope_checksum_from_row_def)

lemma get_status_cong:
  assumes "find_envelope d eid = find_envelope d' eid" "find_lifecycle d eid = find_lifecycle d' eid"
  shows "get_status_impl e d eid = get_status_impl e d' eid"
proof -
  have "check_status_row e d eid = check_status_row e d' eid"
    unfolding check_status_row_def recompute_cong [OF assms(1)] ..
  then show ?thesis unfolding get_status_impl_def assms by (rule arg_cong)
qed

lemma envelope_and_lifecycle_described:
  assumes "envelope_ok e en" "lifecycle_ok e l"
  obtains s where "describes s en l"
proof -
  from assms obtain pd ec lc where "se_payload_digest en = bytes_of pd" "se_envelope_checksum en = bytes_of ec"
    "ls_lifecycle_checksum l = bytes_of lc" by (auto simp: envelope_ok_iff lifecycle_ok_def)
  then have "describes \<lparr>ps_event_id = se_event_id en, ps_journal_sequence = se_journal_sequence en,
      ps_stream_sequence = se_stream_sequence en, ps_lifecycle_revision = ls_revision l,
      ps_lifecycle_checksum = lc, ps_delivery_status = ls_delivery_status l,
      ps_retention_status = ls_retention_status l, ps_payload_digest = pd, ps_envelope_checksum = ec\<rparr> en l"
    by (simp add: describes_def)
  then show ?thesis by (rule that)
qed

lemma read_payload_Found:
  "read_verified_payload_impl e d eid = PayloadFound p \<longleftrightarrow>
     env_fault e SqlEnvelopeDigestQuery = None \<and> env_fault e SqlPayloadQuery = None \<and>
     (\<exists>en b. find_envelope d eid = Some en \<and> find_payload d eid = Some b \<and> pb_payload b = p \<and>
        se_payload_digest en = bytes_of (env_sha e p) \<and> pb_payload_digest b = bytes_of (env_sha e p))"
  by (auto simp: read_verified_payload_impl_def sql_def split: option.splits if_splits)

text \<open>The row that stores a delivery state.\<close>

definition delivery_row_of :: "delivery_state_record \<Rightarrow> delivery_row" where
  "delivery_row_of s =
     \<lparr>dr_event_id = ds_event_id s, dr_delivery_status = ds_delivery_status s,
      dr_attempt_count = ds_attempt_count s, dr_next_retry_at_ms = ds_next_retry_at_ms s,
      dr_last_error = ds_last_error s, dr_blocked_reason = ds_blocked_reason s,
      dr_kafka_topic = ds_kafka_topic s, dr_kafka_partition = ds_kafka_partition s,
      dr_kafka_offset = ds_kafka_offset s,
      dr_routing_fingerprint = map_option bytes_of (ds_routing_fingerprint s),
      dr_profile_id = ds_profile_id s, dr_profile_version = ds_profile_version s,
      dr_delivery_revision = ds_delivery_revision s, dr_delivery_checksum = bytes_of (ds_delivery_checksum s),
      dr_confirmed_at_ms = ds_confirmed_at_ms s, dr_created_at_ms = ds_created_at_ms s,
      dr_updated_at_ms = ds_updated_at_ms s\<rparr>"

definition delivery_ok :: "env \<Rightarrow> delivery_state_record \<Rightarrow> bool" where
  "delivery_ok e s \<longleftrightarrow> ds_delivery_checksum s = compute_delivery_checksum e s \<and>
     ds_delivery_status s \<in> set supported_delivery_statuses \<and>
     validate_delivery_state_invariants s = Inr () \<and> delivery_row_readable (delivery_row_of s)"

lemma delivery_row_of_inject [simp]: "delivery_row_of s = delivery_row_of s' \<longleftrightarrow> s = s'"
proof
  assume eq: "delivery_row_of s = delivery_row_of s'"
  have inj: "map_option bytes_of x = map_option bytes_of y \<Longrightarrow> x = y" for x y
    by (metis bytes_of_inject option.inj_map_strong)
  show "s = s'" using eq by (cases s; cases s') (auto simp: delivery_row_of_def bytes_of_inject dest: inj)
qed simp

lemma delivery_record_row:
  assumes "checksum_of (dr_delivery_checksum r) = Some dc"
    "\<not> (case dr_routing_fingerprint r of None \<Rightarrow> False | Some v \<Rightarrow> length v \<noteq> 32)" "dr_event_id r = eid"
  shows "delivery_row_of (delivery_record_of eid r (Option.bind (dr_routing_fingerprint r) checksum_of) dc) = r"
proof -
  from assms(1) have "dr_delivery_checksum r = bytes_of dc" by (simp add: checksum_of_eq_Some)
  moreover from assms(2) have
    "map_option bytes_of (Option.bind (dr_routing_fingerprint r) checksum_of) = dr_routing_fingerprint r"
    by (cases "dr_routing_fingerprint r") (auto simp: checksum_of_def)
  ultimately show ?thesis using assms(3) by (simp add: delivery_row_of_def delivery_record_of_def)
qed

lemma delivery_record_of_row:
  "delivery_record_of (ds_event_id s) (delivery_row_of s)
     (Option.bind (dr_routing_fingerprint (delivery_row_of s)) checksum_of) (ds_delivery_checksum s) = s"
  by (cases s; cases "ds_routing_fingerprint s") (auto simp: delivery_row_of_def delivery_record_of_def)

lemma check_delivery_row_Found:
  assumes "dr_event_id r = eid"
  shows "check_delivery_row e eid r = DeliveryFound s \<and> delivery_row_readable r \<longleftrightarrow> r = delivery_row_of s \<and> delivery_ok e s"
proof
  assume L: "check_delivery_row e eid r = DeliveryFound s \<and> delivery_row_readable r"
  then obtain dc where dc: "checksum_of (dr_delivery_checksum r) = Some dc"
    by (auto simp: check_delivery_row_def split: option.splits)
  let ?s = "delivery_record_of eid r (Option.bind (dr_routing_fingerprint r) checksum_of) dc"
  from L dc have "s = ?s" "\<not> (case dr_routing_fingerprint r of None \<Rightarrow> False | Some v \<Rightarrow> length v \<noteq> 32)"
    "validate_delivery_state_invariants s = Inr ()" "ds_delivery_checksum s = compute_delivery_checksum e s"
    "dr_delivery_status r \<in> set supported_delivery_statuses"
    by (auto simp: check_delivery_row_def Let_def split: if_splits sum.splits)
  moreover from this have "delivery_row_of s = r" using delivery_record_row [OF dc] assms by simp
  moreover from this have "dr_delivery_status r = ds_delivery_status s" by (auto simp: delivery_row_of_def)
  ultimately show "r = delivery_row_of s \<and> delivery_ok e s" using L by (simp add: delivery_ok_def)
next
  assume R: "r = delivery_row_of s \<and> delivery_ok e s"
  then have "eid = ds_event_id s" "checksum_of (dr_delivery_checksum r) = Some (ds_delivery_checksum s)"
    "\<not> (case dr_routing_fingerprint r of None \<Rightarrow> False | Some v \<Rightarrow> length v \<noteq> 32)"
    "dr_delivery_status r = ds_delivery_status s"
    using assms by (auto simp: delivery_row_of_def checksum_of_eq_Some split: option.splits)
  with R delivery_record_of_row [of s] show "check_delivery_row e eid r = DeliveryFound s \<and> delivery_row_readable r"
    by (simp add: check_delivery_row_def Let_def delivery_ok_def)
qed

lemma load_delivery_Found:
  "load_delivery_state e d eid = DeliveryFound s \<longleftrightarrow>
     env_fault e (SqlLoadDelivery eid) = None \<and> find_delivery d eid = Some (delivery_row_of s) \<and> delivery_ok e s"
proof (cases "find_delivery d eid")
  case None
  then show ?thesis by (auto simp: load_delivery_state_def sql_checked_def split: option.splits)
next
  case (Some r)
  then have "dr_event_id r = eid" by (auto dest: select_row_Some_in)
  from check_delivery_row_Found [OF this, of e s] Some show ?thesis
    by (auto simp: load_delivery_state_def sql_checked_def split: option.splits)
qed

subsection \<open>Tampering\<close>

text \<open>The encoding that the stored checksum of a row is compared with.\<close>

definition stored_encoding :: "envelope_row \<Rightarrow> bytes" where
  "stored_encoding en = row_encoding en (array_of (se_payload_digest en)) (array_of (se_request_fingerprint en))"


end
