(* ===== verification/Journal_Accept.thy ===== *)
theory Journal_Accept
  imports Journal_Read
begin

text \<open>
  \<^verbatim>\<open>LocalJournal::accept\<close>: guards, deduplication, producer and stream sequences, the insert chain of
  a new event and the write-attempt history. A transaction works on a copy of the database; the
  copy replaces the database when the commit succeeds and is dropped on every other path
  (\<^verbatim>\<open>rusqlite\<close> rolls an unfinished transaction back when it goes out of scope).
\<close>

subsection \<open>Helpers\<close>

datatype dedup_check = DedupNew | DedupDuplicate | DedupConflict

definition check_dedup :: "env \<Rightarrow> db \<Rightarrow> string \<Rightarrow> checksum \<Rightarrow> string + dedup_check" where
  "check_dedup e d event_id fingerprint =
     (case sql e SqlDedupQuery (find_dedup d event_id) of
        Inl m \<Rightarrow> Inl (''dedup query error: '' @ m)
      | Inr None \<Rightarrow> Inr DedupNew
      | Inr (Some r) \<Rightarrow>
          if dd_request_fingerprint r = bytes_of fingerprint then Inr DedupDuplicate else Inr DedupConflict)"

definition check_producer_sequence :: "env \<Rightarrow> db \<Rightarrow> string \<Rightarrow> i64 \<Rightarrow> string \<Rightarrow> string + string option" where
  "check_producer_sequence e d producer_key seq event_id =
     (case sql e SqlProducerSequenceQuery (select_row pr_producer_key producer_key (db_producer_sequences d)) of
        Inl m \<Rightarrow> Inl (''producer sequence query error: '' @ m)
      | Inr None \<Rightarrow> Inr None
      | Inr (Some r) \<Rightarrow>
          if seq \<le> pr_highest_seq r \<and> pr_last_event_id r \<noteq> event_id
          then Inr (Some (''producer sequence '' @ show_int seq @ '' conflicts with existing highest '' @
            show_int (pr_highest_seq r) @ '' (last event_id='' @ pr_last_event_id r @ '')''))
          else Inr None)"

text \<open>
  \<^verbatim>\<open>COALESCE(MAX(journal_sequence), 0) + 1\<close>: a sum outside 64 bits becomes a real number in SQLite,
  which is not an \<^verbatim>\<open>i64\<close>, so the \<^verbatim>\<open>expect\<close> fails as it does for an engine error.
\<close>

definition max_sequence :: "i64 list \<Rightarrow> i64" where
  "max_sequence xs = (case xs of [] \<Rightarrow> 0 | y # ys \<Rightarrow> fold max ys y)"

definition allocate_journal_sequence :: "env \<Rightarrow> db \<Rightarrow> i64 outcome" where
  "allocate_journal_sequence e d =
     (let next = max_sequence (map se_journal_sequence (db_envelopes d)) + 1 in
      if env_fault e SqlAllocateJournal \<noteq> None \<or> \<not> in_i64 next then Panicked else Done next)"

definition allocate_stream_sequence :: "env \<Rightarrow> db \<Rightarrow> string \<Rightarrow> (string + i64 \<times> db) outcome" where
  "allocate_stream_sequence e d stream_key =
     (case sql e SqlStreamHeadQuery (select_row sh_stream_key stream_key (db_stream_heads d)) of
        Inl m \<Rightarrow> Done (Inl (''stream head query error: '' @ m))
      | Inr existing \<Rightarrow>
          bind_outcome
            (arith_i64 (env_overflow_checks e)
              ((case existing of None \<Rightarrow> 0 | Some r \<Rightarrow> sh_head_sequence r) + 1))
            (\<lambda>next.
              case sql e SqlStreamHeadUpsert (upsert_row sh_stream_key
                     \<lparr>sh_stream_key = stream_key, sh_head_sequence = next\<rparr> (db_stream_heads d)) of
                Inl m \<Rightarrow> Done (Inl (''stream head upsert error: '' @ m))
              | Inr heads \<Rightarrow> Done (Inr (next, d\<lparr>db_stream_heads := heads\<rparr>))))"

text \<open>Both statements of \<^verbatim>\<open>record_attempt\<close> ignore their errors.\<close>

definition insert_write_attempt :: "env \<Rightarrow> db \<Rightarrow> string \<Rightarrow> string \<Rightarrow> string option \<Rightarrow> db" where
  "insert_write_attempt e d event_id what detail =
     (if env_fault e SqlInsertWriteAttempt \<noteq> None then d
      else let new_id = db_write_attempt_seq d + 1 in
        d\<lparr>db_write_attempts := db_write_attempts d @
            [\<lparr>wa_id = new_id, wa_event_id = event_id, wa_outcome = what, wa_detail = detail,
              wa_attempt_at_ms = env_now_ms e\<rparr>],
          db_write_attempt_seq := new_id\<rparr>)"

definition trim_write_attempts :: "env \<Rightarrow> db \<Rightarrow> string \<Rightarrow> db" where
  "trim_write_attempts e d event_id =
     (if env_fault e SqlTrimWriteAttempts \<noteq> None then d
      else d\<lparr>db_write_attempts :=
        trim_rows wa_id (\<lambda>r. wa_event_id r = event_id) MAX_ATTEMPTS (db_write_attempts d)\<rparr>)"

definition record_attempt :: "env \<Rightarrow> db \<Rightarrow> string \<Rightarrow> string \<Rightarrow> string option \<Rightarrow> db" where
  "record_attempt e d event_id what detail =
     trim_write_attempts e (insert_write_attempt e d event_id what detail) event_id"

text \<open>\<^verbatim>\<open>let _ = tx.commit()\<close>: the copy \<open>d'\<close> when the commit succeeds, else the database as it was.\<close>

definition commit_ignoring :: "env \<Rightarrow> db \<Rightarrow> db \<Rightarrow> db" where
  "commit_ignoring e d d' = (if env_fault e SqlCommit = None then d' else d)"

subsection \<open>The rows of a new event\<close>

definition producer_key_of :: "accept_request \<Rightarrow> string" where
  "producer_key_of req =
     join_nul [aq_installation_id req, aq_producer_id req, aq_producer_instance_id req]"

definition stream_key_of :: "accept_request \<Rightarrow> string" where
  "stream_key_of req =
     join_nul [aq_installation_id req, aq_namespace req, aq_logical_stream_type req, aq_stream_key req]"

definition payload_ref_of :: "accept_request \<Rightarrow> string" where
  "payload_ref_of req = aq_installation_id req @ ''/'' @ aq_event_id req"

definition accept_envelope_checksum :: "env \<Rightarrow> accept_request \<Rightarrow> i64 \<Rightarrow> i64 \<Rightarrow> checksum" where
  "accept_envelope_checksum e req journal_sequence stream_sequence =
     compute_envelope_checksum e journal_sequence (aq_event_id req) (aq_installation_id req)
       (aq_producer_id req) (aq_producer_instance_id req) (aq_producer_operation_sequence req)
       (aq_namespace req) (aq_logical_stream_type req) (aq_stream_key req) (aq_event_type req)
       (aq_schema_version req) stream_sequence (env_sha e (aq_payload req)) (aq_request_fingerprint req)
       (payload_ref_of req) (int (length (aq_payload req))) (aq_routing_version req)"

definition new_envelope_row :: "env \<Rightarrow> accept_request \<Rightarrow> i64 \<Rightarrow> i64 \<Rightarrow> envelope_row" where
  "new_envelope_row e req journal_sequence stream_sequence =
     \<lparr>se_journal_sequence = journal_sequence, se_event_id = aq_event_id req,
      se_installation_id = aq_installation_id req, se_producer_id = aq_producer_id req,
      se_producer_instance_id = aq_producer_instance_id req,
      se_producer_op_seq = aq_producer_operation_sequence req, se_namespace = aq_namespace req,
      se_logical_stream_type = aq_logical_stream_type req, se_stream_key = aq_stream_key req,
      se_event_type = aq_event_type req, se_schema_version = aq_schema_version req,
      se_stream_sequence = stream_sequence,
      se_payload_digest = bytes_of (env_sha e (aq_payload req)),
      se_request_fingerprint = bytes_of (aq_request_fingerprint req),
      se_envelope_checksum = bytes_of (accept_envelope_checksum e req journal_sequence stream_sequence),
      se_payload_ref_id = payload_ref_of req, se_payload_length = int (length (aq_payload req)),
      se_routing_version = aq_routing_version req, se_received_at_ms = env_now_ms e\<rparr>"

definition new_payload_row :: "env \<Rightarrow> accept_request \<Rightarrow> payload_row" where
  "new_payload_row e req = \<lparr>pb_event_id = aq_event_id req, pb_payload = aq_payload req,
     pb_payload_digest = bytes_of (env_sha e (aq_payload req))\<rparr>"

definition new_lifecycle_row :: "env \<Rightarrow> accept_request \<Rightarrow> lifecycle_row" where
  "new_lifecycle_row e req = \<lparr>ls_event_id = aq_event_id req, ls_revision = 1,
     ls_lifecycle_checksum =
       bytes_of (compute_lifecycle_checksum e (aq_event_id req) 1 ''LOCAL_ACCEPTED'' ''PRESENT''),
     ls_delivery_status = ''LOCAL_ACCEPTED'', ls_retention_status = ''PRESENT'',
     ls_updated_at_ms = env_now_ms e\<rparr>"

definition new_dedup_row :: "accept_request \<Rightarrow> dedup_row" where
  "new_dedup_row req = \<lparr>dd_event_id = aq_event_id req,
     dd_request_fingerprint = bytes_of (aq_request_fingerprint req)\<rparr>"

definition new_producer_row :: "accept_request \<Rightarrow> producer_sequence_row" where
  "new_producer_row req = \<lparr>pr_producer_key = producer_key_of req,
     pr_highest_seq = aq_producer_operation_sequence req, pr_last_event_id = aq_event_id req\<rparr>"

text \<open>The insert statements with their primary-key, unique and foreign-key constraints.\<close>

definition insert_envelope :: "env \<Rightarrow> envelope_row \<Rightarrow> db \<Rightarrow> string + db" where
  "insert_envelope e r d = sql_checked e SqlInsertEnvelope
     (if se_journal_sequence r \<in> set (map se_journal_sequence (db_envelopes d)) then None
      else map_option (\<lambda>rows. d\<lparr>db_envelopes := rows\<rparr>) (insert_row se_event_id r (db_envelopes d)))"

definition insert_payload :: "env \<Rightarrow> payload_row \<Rightarrow> db \<Rightarrow> string + db" where
  "insert_payload e r d = sql_checked e SqlInsertPayload
     (if fk_envelope d (pb_event_id r)
      then map_option (\<lambda>rows. d\<lparr>db_payloads := rows\<rparr>) (insert_row pb_event_id r (db_payloads d)) else None)"

definition insert_lifecycle :: "env \<Rightarrow> lifecycle_row \<Rightarrow> db \<Rightarrow> string + db" where
  "insert_lifecycle e r d = sql_checked e SqlInsertLifecycle
     (if fk_envelope d (ls_event_id r)
      then map_option (\<lambda>rows. d\<lparr>db_lifecycles := rows\<rparr>) (insert_row ls_event_id r (db_lifecycles d)) else None)"

definition insert_dedup :: "env \<Rightarrow> dedup_row \<Rightarrow> db \<Rightarrow> string + db" where
  "insert_dedup e r d = sql_checked e SqlInsertDedup
     (if fk_envelope d (dd_event_id r)
      then map_option (\<lambda>rows. d\<lparr>db_dedups := rows\<rparr>) (insert_row dd_event_id r (db_dedups d)) else None)"

definition upsert_producer :: "env \<Rightarrow> producer_sequence_row \<Rightarrow> db \<Rightarrow> string + db" where
  "upsert_producer e r d = sql e SqlUpsertProducer
     (d\<lparr>db_producer_sequences := upsert_row pr_producer_key r (db_producer_sequences d)\<rparr>)"

definition insert_event :: "env \<Rightarrow> accept_request \<Rightarrow> i64 \<Rightarrow> i64 \<Rightarrow> db \<Rightarrow> string + db" where
  "insert_event e req journal_sequence stream_sequence d =
     bind_res (insert_envelope e (new_envelope_row e req journal_sequence stream_sequence) d) (\<lambda>d.
     bind_res (insert_payload e (new_payload_row e req) d) (\<lambda>d.
     bind_res (insert_lifecycle e (new_lifecycle_row e req) d) (\<lambda>d.
     bind_res (insert_dedup e (new_dedup_row req) d) (\<lambda>d.
     upsert_producer e (new_producer_row req) d))))"

subsection \<open>Accept\<close>

definition accepted_of_status :: "persisted_status \<Rightarrow> accepted_event" where
  "accepted_of_status status =
     \<lparr>ac_event_id = ps_event_id status, ac_journal_sequence = ps_journal_sequence status,
      ac_stream_sequence = ps_stream_sequence status, ac_lifecycle_revision = ps_lifecycle_revision status,
      ac_envelope_checksum = ps_envelope_checksum status,
      ac_delivery_status =
        (if ps_delivery_status status = ''LOCAL_ACCEPTED'' then LocalAccepted
         else if ps_delivery_status status = ''DELIVERY_PENDING'' then DeliveryPending
         else DeliveryBlocked)\<rparr>"

definition accept_duplicate :: "env \<Rightarrow> accept_request \<Rightarrow> db \<Rightarrow> accept_result \<times> db" where
  "accept_duplicate e req d =
     (case get_status_impl e d (aq_event_id req) of
        StatusFound status \<Rightarrow>
          (case verify_payload_digest e d (aq_event_id req) of
             Inl detail \<Rightarrow> (AcceptCorrupted (aq_event_id req) detail, d)
           | Inr _ \<Rightarrow>
               (ExistingDuplicate (accepted_of_status status),
                commit_ignoring e d (record_attempt e d (aq_event_id req) ''EXISTING_DUPLICATE'' None)))
      | StatusCorrupted event_id detail \<Rightarrow> (AcceptCorrupted event_id detail, d)
      | StatusNotFound \<Rightarrow> (AcceptError ''dedup entry without envelope'', d))"

text \<open>The part of \<^verbatim>\<open>accept\<close> after the producer-sequence check.\<close>

definition accept_insert :: "env \<Rightarrow> accept_request \<Rightarrow> db \<Rightarrow> accept_result outcome \<times> db" where
  "accept_insert e req d =
     (case allocate_journal_sequence e d of
        Panicked \<Rightarrow> (Panicked, d)
      | Done journal_sequence \<Rightarrow>
          (case allocate_stream_sequence e d (stream_key_of req) of
             Panicked \<Rightarrow> (Panicked, d)
           | Done (Inl detail) \<Rightarrow> (Done (AcceptError detail), d)
           | Done (Inr (stream_sequence, d1)) \<Rightarrow>
               (case insert_event e req journal_sequence stream_sequence d1 of
                  Inl m \<Rightarrow> (Done (AcceptError m), d)
                | Inr d2 \<Rightarrow>
                    (case sql e SqlCommit (record_attempt e d2 (aq_event_id req) ''NEWLY_ACCEPTED'' None) of
                       Inl m \<Rightarrow> (Done (AcceptError m), d)
                     | Inr d3 \<Rightarrow>
                         (Done (AcceptAccepted
                           \<lparr>ac_event_id = aq_event_id req, ac_journal_sequence = journal_sequence,
                            ac_stream_sequence = stream_sequence, ac_lifecycle_revision = 1,
                            ac_envelope_checksum =
                              accept_envelope_checksum e req journal_sequence stream_sequence,
                            ac_delivery_status = LocalAccepted\<rparr>), d3)))))"

definition accept_new :: "env \<Rightarrow> accept_request \<Rightarrow> db \<Rightarrow> accept_result outcome \<times> db" where
  "accept_new e req d =
     (case check_producer_sequence e d (producer_key_of req) (aq_producer_operation_sequence req)
             (aq_event_id req) of
        Inl detail \<Rightarrow> (Done (AcceptCorrupted (aq_event_id req) detail), d)
      | Inr (Some conflict) \<Rightarrow>
          (Done (SequenceConflict conflict),
           commit_ignoring e d (record_attempt e d (aq_event_id req) ''SEQUENCE_CONFLICT'' (Some conflict)))
      | Inr None \<Rightarrow> accept_insert e req d)"

text \<open>The transaction.\<close>

definition accept_tx :: "env \<Rightarrow> accept_request \<Rightarrow> db \<Rightarrow> accept_result outcome \<times> db" where
  "accept_tx e req d =
     (case sql e SqlBegin () of
        Inl m \<Rightarrow> (Done (AcceptError m), d)
      | Inr _ \<Rightarrow>
          (case check_dedup e d (aq_event_id req) (aq_request_fingerprint req) of
             Inl detail \<Rightarrow> (Done (AcceptCorrupted (aq_event_id req) detail), d)
           | Inr DedupDuplicate \<Rightarrow> apfst Done (accept_duplicate e req d)
           | Inr DedupConflict \<Rightarrow>
               (Done (FingerprintConflict (aq_event_id req)),
                commit_ignoring e d (record_attempt e d (aq_event_id req) ''FINGERPRINT_CONFLICT'' None))
           | Inr DedupNew \<Rightarrow> accept_new e req d))"

definition accept :: "env \<Rightarrow> accept_request \<Rightarrow> local_journal \<Rightarrow> accept_result outcome \<times> local_journal" where
  "accept e req j =
     (if lj_shutdown j then (Done ShuttingDown, j)
      else if \<not> env_disk_safe e then (Done DiskUnsafe, j)
      else if length (aq_payload req) > jc_max_payload_bytes (lj_config j) then
        (Done (AcceptError ''payload exceeds max size''), j)
      else if aq_event_id req = [] \<or> aq_installation_id req = [] then
        (Done (AcceptError ''missing required field''), j)
      else with_conn (accept_tx e req) j)"

end
