(* ===== verification/Journal_Integrity.thy ===== *)
theory Journal_Integrity
  imports Journal_Accept
begin

text \<open>
  Correctness of \<^verbatim>\<open>accept\<close>. First what one call does to the tables: a call that does not accept
  changes nothing but the write-attempt history, whatever statement fails; a call that accepts adds
  exactly one row to each table. Then the invariant \<open>journal_inv\<close> of the database (keys,
  references, gap-free sequences, bounded history) and that every accept keeps it.
\<close>

subsection \<open>The history is the only table a non-accepting call writes\<close>

definition same_data :: "db \<Rightarrow> db \<Rightarrow> bool" where
  "same_data d d' \<longleftrightarrow>
     d' = d\<lparr>db_write_attempts := db_write_attempts d', db_write_attempt_seq := db_write_attempt_seq d'\<rparr>"

lemma same_data_refl [simp]: "same_data d d"
  by (simp add: same_data_def)

lemma same_data_fields:
  "same_data d d' \<Longrightarrow> db_envelopes d' = db_envelopes d \<and> db_payloads d' = db_payloads d \<and>
     db_lifecycles d' = db_lifecycles d \<and> db_dedups d' = db_dedups d \<and>
     db_producer_sequences d' = db_producer_sequences d \<and> db_stream_heads d' = db_stream_heads d \<and>
     db_deliveries d' = db_deliveries d \<and> db_delivery_attempts d' = db_delivery_attempts d \<and>
     db_delivery_attempt_seq d' = db_delivery_attempt_seq d"
  by (cases d; cases d') (simp add: same_data_def)

lemma same_data_record_attempt [simp]: "same_data d (record_attempt e d eid what detail)"
  by (simp add: same_data_def record_attempt_def trim_write_attempts_def insert_write_attempt_def Let_def)

lemma same_data_commit [simp]: "same_data d d' \<Longrightarrow> same_data d (commit_ignoring e d d')"
  by (simp add: commit_ignoring_def)

lemmas record_attempt_defs = record_attempt_def trim_write_attempts_def insert_write_attempt_def Let_def

lemma record_attempt_fields [simp]:
  "db_envelopes (record_attempt e d eid what detail) = db_envelopes d"
  "db_payloads (record_attempt e d eid what detail) = db_payloads d"
  "db_lifecycles (record_attempt e d eid what detail) = db_lifecycles d"
  "db_dedups (record_attempt e d eid what detail) = db_dedups d"
  "db_producer_sequences (record_attempt e d eid what detail) = db_producer_sequences d"
  "db_stream_heads (record_attempt e d eid what detail) = db_stream_heads d"
  "db_deliveries (record_attempt e d eid what detail) = db_deliveries d"
  "db_delivery_attempts (record_attempt e d eid what detail) = db_delivery_attempts d"
  "db_delivery_attempt_seq (record_attempt e d eid what detail) = db_delivery_attempt_seq d"
  by (simp_all add: record_attempt_defs)

lemma accept_insert_not_accepted:
  "accept_insert e req d = (r, d') \<Longrightarrow> (\<And>a. r \<noteq> Done (AcceptAccepted a)) \<Longrightarrow> d' = d"
  by (auto simp: accept_insert_def split: outcome.splits sum.splits prod.splits)

lemma accept_duplicate_data: "accept_duplicate e req d = (r, d') \<Longrightarrow> same_data d d'"
  by (auto simp: accept_duplicate_def split: status_result.splits sum.splits)

lemma accept_tx_not_accepted:
  assumes "accept_tx e req d = (r, d')" "\<And>a. r \<noteq> Done (AcceptAccepted a)"
  shows "same_data d d'"
proof -
  from assms(1) consider "d' = d" | "accept_duplicate e req d = (fst (accept_duplicate e req d), d')"
    | "same_data d d'" | "accept_insert e req d = (r, d')"
    by (auto simp: accept_tx_def accept_new_def apfst_def map_prod_def
        split: sum.splits dedup_check.splits option.splits prod.splits)
  then show ?thesis
    by cases (auto dest: accept_duplicate_data accept_insert_not_accepted [OF _ assms(2)])
qed

lemma with_conn_cases:
  assumes "with_conn f j = (r, j')"
  obtains "lj_poisoned j" "r = Panicked" "j' = j"
  | a d where "\<not> lj_poisoned j" "f (lj_db j) = (Done a, d)" "r = Done a" "j' = j\<lparr>lj_db := d\<rparr>"
  | d where "\<not> lj_poisoned j" "f (lj_db j) = (Panicked, d)" "r = Panicked" "j' = j\<lparr>lj_db := d, lj_poisoned := True\<rparr>"
  using assms by (auto simp: with_conn_def split: if_splits prod.splits outcome.splits)

lemma accept_cases:
  assumes "accept e req j = (r, j')"
  obtains "j' = j" "\<And>a. r \<noteq> Done (AcceptAccepted a)"
  | d where "accept_tx e req (lj_db j) = (r, d)" "lj_db j' = d" "lj_config j' = lj_config j"
      "\<not> lj_shutdown j" "lj_shutdown j' = lj_shutdown j" "aq_event_id req \<noteq> []"
  using assms unfolding accept_def by (auto split: if_splits elim!: with_conn_cases)

lemma accept_unchanged: "accept e req j = (r, j') \<Longrightarrow> (\<And>a. r \<noteq> Done (AcceptAccepted a)) \<Longrightarrow> same_data (lj_db j) (lj_db j')"
  by (erule accept_cases) (auto dest: accept_tx_not_accepted)

text \<open>
  C3: accepting is atomic. Whatever statements fail, in whatever combination, a call that does not
  answer \<^verbatim>\<open>Accepted\<close> (a rejection, a duplicate, an error, a panic) leaves every table as it was,
  the bounded write-attempt history apart.
\<close>

theorem accept_atomic:
  assumes "accept e req j = (r, j')" "\<And>a. r \<noteq> Done (AcceptAccepted a)"
  shows "same_data (lj_db j) (lj_db j')"
  by (rule accept_unchanged [OF assms])

subsection \<open>The effect of an accepted event\<close>

definition event_added :: "env \<Rightarrow> accept_request \<Rightarrow> i64 \<Rightarrow> i64 \<Rightarrow> db \<Rightarrow> db" where
  "event_added e req js ss d = d\<lparr>
     db_envelopes := db_envelopes d @ [new_envelope_row e req js ss],
     db_payloads := db_payloads d @ [new_payload_row e req],
     db_lifecycles := db_lifecycles d @ [new_lifecycle_row e req],
     db_dedups := db_dedups d @ [new_dedup_row req],
     db_producer_sequences := upsert_row pr_producer_key (new_producer_row req) (db_producer_sequences d),
     db_stream_heads := upsert_row sh_stream_key \<lparr>sh_stream_key = stream_key_of req, sh_head_sequence = ss\<rparr>
       (db_stream_heads d)\<rparr>"

definition event_absent :: "db \<Rightarrow> string \<Rightarrow> bool" where
  "event_absent d eid \<longleftrightarrow> find_envelope d eid = None \<and> find_payload d eid = None \<and>
     find_lifecycle d eid = None \<and> find_dedup d eid = None"

definition stream_head :: "db \<Rightarrow> string \<Rightarrow> i64" where
  "stream_head d k = (case select_row sh_stream_key k (db_stream_heads d) of None \<Rightarrow> 0 | Some r \<Rightarrow> sh_head_sequence r)"

lemma new_row_keys [simp]:
  "se_event_id (new_envelope_row e req js ss) = aq_event_id req"
  "se_journal_sequence (new_envelope_row e req js ss) = js"
  "se_stream_sequence (new_envelope_row e req js ss) = ss"
  "pb_event_id (new_payload_row e req) = aq_event_id req"
  "ls_event_id (new_lifecycle_row e req) = aq_event_id req"
  "dd_event_id (new_dedup_row req) = aq_event_id req"
  by (simp_all add: new_envelope_row_def new_payload_row_def new_lifecycle_row_def new_dedup_row_def)

lemma insert_event_Inr:
  "insert_event e req js ss d = Inr d' \<longleftrightarrow>
     (\<forall>p \<in> {SqlInsertEnvelope, SqlInsertPayload, SqlInsertLifecycle, SqlInsertDedup, SqlUpsertProducer}.
        env_fault e p = None) \<and>
     js \<notin> set (map se_journal_sequence (db_envelopes d)) \<and> event_absent d (aq_event_id req) \<and>
     d' = d\<lparr>db_envelopes := db_envelopes d @ [new_envelope_row e req js ss],
       db_payloads := db_payloads d @ [new_payload_row e req],
       db_lifecycles := db_lifecycles d @ [new_lifecycle_row e req],
       db_dedups := db_dedups d @ [new_dedup_row req],
       db_producer_sequences := upsert_row pr_producer_key (new_producer_row req) (db_producer_sequences d)\<rparr>"
  by (auto simp: insert_event_def bind_res_eq_Inr insert_envelope_def insert_payload_def insert_lifecycle_def
      insert_dedup_def upsert_producer_def sql_checked_Inr sql_Inr insert_row_Some fk_envelope_def event_absent_def
      select_row_append split: if_splits)

lemma allocate_stream_Done:
  "allocate_stream_sequence e d k = Done (Inr (ss, d')) \<longleftrightarrow>
     env_fault e SqlStreamHeadQuery = None \<and> env_fault e SqlStreamHeadUpsert = None \<and>
     arith_i64 (env_overflow_checks e) (stream_head d k + 1) = Done ss \<and>
     d' = d\<lparr>db_stream_heads := upsert_row sh_stream_key \<lparr>sh_stream_key = k, sh_head_sequence = ss\<rparr> (db_stream_heads d)\<rparr>"
  by (auto simp: allocate_stream_sequence_def sql_def stream_head_def bind_outcome_eq_Done split: option.splits)

lemma accept_insert_Accepted:
  assumes "accept_insert e req d = (Done (AcceptAccepted a), d')"
  obtains js ss where "js = max_sequence (map se_journal_sequence (db_envelopes d)) + 1" "in_i64 js"
    "arith_i64 (env_overflow_checks e) (stream_head d (stream_key_of req) + 1) = Done ss"
    "js \<notin> set (map se_journal_sequence (db_envelopes d))" "event_absent d (aq_event_id req)"
    "d' = record_attempt e (event_added e req js ss d) (aq_event_id req) ''NEWLY_ACCEPTED'' None"
    "a = \<lparr>ac_event_id = aq_event_id req, ac_journal_sequence = js, ac_stream_sequence = ss,
      ac_lifecycle_revision = 1, ac_envelope_checksum = accept_envelope_checksum e req js ss,
      ac_delivery_status = LocalAccepted\<rparr>"
proof -
  obtain js where js: "allocate_journal_sequence e d = Done js"
    using assms by (cases "allocate_journal_sequence e d") (auto simp: accept_insert_def)
  obtain ss d1 where al: "allocate_stream_sequence e d (stream_key_of req) = Done (Inr (ss, d1))"
    using assms js by (auto simp: accept_insert_def split: outcome.splits sum.splits)
  obtain d2 where ins: "insert_event e req js ss d1 = Inr d2"
    using assms js al by (auto simp: accept_insert_def split: sum.splits)
  show ?thesis
  proof (rule that [of js ss])
    show "js = max_sequence (map se_journal_sequence (db_envelopes d)) + 1" "in_i64 js"
      using js by (auto simp: allocate_journal_sequence_def Let_def split: if_splits)
    show "arith_i64 (env_overflow_checks e) (stream_head d (stream_key_of req) + 1) = Done ss"
      using al by (simp add: allocate_stream_Done)
    have d1: "d1 = d\<lparr>db_stream_heads := upsert_row sh_stream_key
        \<lparr>sh_stream_key = stream_key_of req, sh_head_sequence = ss\<rparr> (db_stream_heads d)\<rparr>"
      using al by (simp add: allocate_stream_Done)
    with ins show "js \<notin> set (map se_journal_sequence (db_envelopes d))" "event_absent d (aq_event_id req)"
      by (simp_all add: insert_event_Inr event_absent_def)
    from d1 ins have "d2 = event_added e req js ss d" by (simp add: insert_event_Inr event_added_def)
    with assms js al ins show
      "d' = record_attempt e (event_added e req js ss d) (aq_event_id req) ''NEWLY_ACCEPTED'' None"
      by (auto simp: accept_insert_def split: sum.splits dest: sql_Inr [THEN iffD1])
    from assms js al ins show "a = \<lparr>ac_event_id = aq_event_id req, ac_journal_sequence = js,
      ac_stream_sequence = ss, ac_lifecycle_revision = 1,
      ac_envelope_checksum = accept_envelope_checksum e req js ss, ac_delivery_status = LocalAccepted\<rparr>"
      by (auto simp: accept_insert_def split: sum.splits)
  qed
qed

lemma accept_tx_Accepted:
  assumes "accept_tx e req d = (Done (AcceptAccepted a), d')"
  shows "accept_insert e req d = (Done (AcceptAccepted a), d')"
  using assms
  by (auto simp: accept_tx_def accept_new_def accept_duplicate_def
      split: sum.splits dedup_check.splits option.splits status_result.splits)

lemma accept_Accepted:
  assumes "accept e req j = (Done (AcceptAccepted a), j')"
  shows "accept_insert e req (lj_db j) = (Done (AcceptAccepted a), lj_db j')"
  using assms by (cases rule: accept_cases) (auto intro: accept_tx_Accepted)

lemma find_event_added:
  assumes "event_absent d (aq_event_id req)"
  shows "find_envelope (event_added e req js ss d) eid =
      (if eid = aq_event_id req then Some (new_envelope_row e req js ss) else find_envelope d eid)"
    and "find_payload (event_added e req js ss d) eid =
      (if eid = aq_event_id req then Some (new_payload_row e req) else find_payload d eid)"
    and "find_lifecycle (event_added e req js ss d) eid =
      (if eid = aq_event_id req then Some (new_lifecycle_row e req) else find_lifecycle d eid)"
    and "find_dedup (event_added e req js ss d) eid =
      (if eid = aq_event_id req then Some (new_dedup_row req) else find_dedup d eid)"
  using assms by (auto simp: event_added_def event_absent_def select_row_append split: option.splits)

lemma new_rows_ok:
  "in_i32 (aq_schema_version req) \<Longrightarrow> env_sha e' = env_sha e \<Longrightarrow> envelope_ok e' (new_envelope_row e req js ss)"
  "env_sha e' = env_sha e \<Longrightarrow> lifecycle_ok e' (new_lifecycle_row e req)"
  by (auto simp: envelope_ok_iff new_envelope_row_def accept_envelope_checksum_def compute_envelope_checksum_def
      row_encoding_def bytes_of_inject lifecycle_ok_def new_lifecycle_row_def compute_lifecycle_checksum_def
      is_allowed_delivery_status_def is_allowed_retention_status_def)

subsection \<open>Round trip and idempotence\<close>

lemma accept_Accepted_state:
  assumes "accept e req j = (Done (AcceptAccepted a), j')"
  shows "\<not> lj_shutdown j' \<and> \<not> lj_poisoned j' \<and> length (aq_payload req) \<le> jc_max_payload_bytes (lj_config j') \<and>
    aq_event_id req \<noteq> [] \<and> aq_installation_id req \<noteq> []"
  using assms by (auto simp: accept_def with_conn_def split: if_splits prod.splits outcome.splits)

lemma status_after_accept:
  assumes acc: "accept e req j = (Done (AcceptAccepted a), j')"
    and rng: "in_i32 (aq_schema_version req)" and env: "no_faults e'" "env_sha e' = env_sha e"
  obtains s where "get_status_impl e' (lj_db j') (aq_event_id req) = StatusFound s" "accepted_of_status s = a"
    "ps_delivery_status s = ''LOCAL_ACCEPTED''" "ps_retention_status s = ''PRESENT''"
proof -
  from accept_insert_Accepted [OF accept_Accepted [OF acc]] obtain js ss where
    abs: "event_absent (lj_db j) (aq_event_id req)" and
    db: "lj_db j' = record_attempt e (event_added e req js ss (lj_db j)) (aq_event_id req) ''NEWLY_ACCEPTED'' None" and
    a: "a = \<lparr>ac_event_id = aq_event_id req, ac_journal_sequence = js, ac_stream_sequence = ss,
      ac_lifecycle_revision = 1, ac_envelope_checksum = accept_envelope_checksum e req js ss,
      ac_delivery_status = LocalAccepted\<rparr>" by metis
  let ?en = "new_envelope_row e req js ss" and ?l = "new_lifecycle_row e req"
  obtain s where s: "describes s ?en ?l"
    using envelope_and_lifecycle_described new_rows_ok rng env(2) by metis
  have "get_status_impl e' (lj_db j') (aq_event_id req) = StatusFound s"
    using s new_rows_ok(1) [of req e' e js ss] new_rows_ok(2) [of e' e req] rng env
    by (auto simp: get_status_Found db find_event_added [OF abs] no_faults_def)
  moreover have "accepted_of_status s = a"
    using s by (auto simp: describes_def a accepted_of_status_def new_envelope_row_def new_lifecycle_row_def
        bytes_of_inject)
  moreover have "ps_delivery_status s = ''LOCAL_ACCEPTED''" "ps_retention_status s = ''PRESENT''"
    using s by (simp_all add: describes_def new_lifecycle_row_def)
  ultimately show ?thesis by (rule that)
qed

lemma payload_after_accept:
  assumes acc: "accept e req j = (Done (AcceptAccepted a), j')" and env: "no_faults e'" "env_sha e' = env_sha e"
  shows "read_verified_payload_impl e' (lj_db j') (aq_event_id req) = PayloadFound (aq_payload req)"
    and "verify_payload_digest e' (lj_db j') (aq_event_id req) = Inr ()"
  using env by (auto intro: accept_insert_Accepted [OF accept_Accepted [OF acc]]
      simp: read_payload_Found verify_payload_digest_def find_event_added new_envelope_row_def new_payload_row_def
        no_faults_def)

lemma other_status_after_accept:
  assumes acc: "accept e req j = (Done (AcceptAccepted a), j')" and "eid \<noteq> aq_event_id req"
  shows "get_status_impl e' (lj_db j') eid = get_status_impl e' (lj_db j) eid"
  by (rule accept_insert_Accepted [OF accept_Accepted [OF acc]])
    (rule get_status_cong; simp add: find_event_added assms(2))

text \<open>
  C4: an accepted event is there and verified. Right after \<^verbatim>\<open>accept\<close> answers \<^verbatim>\<open>Accepted\<close>, a status read
  finds the event with exactly the sequences, revision and checksum of the answer, reading the
  payload gives back its bytes, and the status of every other event is what it was.
\<close>

theorem accept_roundtrip:
  assumes "accept e req j = (Done (AcceptAccepted a), j')" "in_i32 (aq_schema_version req)"
    and "no_faults e'" "env_sha e' = env_sha e"
  shows "(\<exists>s. get_status_impl e' (lj_db j') (aq_event_id req) = StatusFound s \<and> accepted_of_status s = a) \<and>
    read_verified_payload_impl e' (lj_db j') (aq_event_id req) = PayloadFound (aq_payload req) \<and>
    (\<forall>eid. eid \<noteq> aq_event_id req \<longrightarrow> get_status_impl e' (lj_db j') eid = get_status_impl e' (lj_db j) eid)"
  using assms by (auto elim: status_after_accept simp: payload_after_accept other_status_after_accept)

subsection \<open>A sample journal\<close>

definition sample_env :: env where
  "sample_env = \<lparr>env_sha = (\<lambda>bs. fill_checksum (of_nat (length bs))), env_fault = (\<lambda>_. None), env_reject = (\<lambda>_. ''rejected''),
     env_now_ms = 1000, env_disk_safe = True, env_overflow_checks = False\<rparr>"

definition sample_journal :: local_journal where
  "sample_journal = \<lparr>lj_db = empty_db, lj_config = default_journal_config, lj_poisoned = False, lj_shutdown = False\<rparr>"

definition sample_request :: accept_request where
  "sample_request = \<lparr>aq_installation_id = ''i'', aq_event_id = ''e1'', aq_producer_id = ''p'',
     aq_producer_instance_id = ''pi'', aq_producer_operation_sequence = 1, aq_namespace = ''n'',
     aq_logical_stream_type = ''t'', aq_stream_key = ''k'', aq_event_type = ''et'', aq_schema_version = 1,
     aq_payload = [1, 2], aq_request_fingerprint = fill_checksum 3, aq_routing_version = 1\<rparr>"

definition sample_accepted :: accepted_event where
  "sample_accepted = \<lparr>ac_event_id = ''e1'', ac_journal_sequence = 1, ac_stream_sequence = 1,
     ac_lifecycle_revision = 1, ac_envelope_checksum = accept_envelope_checksum sample_env sample_request 1 1,
     ac_delivery_status = LocalAccepted\<rparr>"

lemma no_faults_sample [simp]: "no_faults sample_env"
  by (simp add: no_faults_def sample_env_def)

lemma sample_env_simps [simp]:
  "env_disk_safe sample_env" "env_sha sample_env = (\<lambda>bs. fill_checksum (of_nat (length bs)))"
  "env_fault sample_env p = None" "env_now_ms sample_env = 1000" "\<not> env_overflow_checks sample_env"
  by (simp_all add: sample_env_def)

lemma sample_accept:
  "\<exists>j'. accept sample_env sample_request sample_journal = (Done (AcceptAccepted sample_accepted), j')"
proof -
  have "allocate_journal_sequence sample_env empty_db = Done 1"
    by (simp add: allocate_journal_sequence_def empty_db_def max_sequence_def in_i64_def i64_max_def)
  moreover have "allocate_stream_sequence sample_env empty_db (stream_key_of sample_request) = Done (Inr (1,
      empty_db\<lparr>db_stream_heads := [\<lparr>sh_stream_key = stream_key_of sample_request, sh_head_sequence = 1\<rparr>]\<rparr>))"
    by (simp add: allocate_stream_Done stream_head_def empty_db_def in_i64_def i64_max_def upsert_row_def)
  moreover have "insert_event sample_env sample_request 1 1
      (empty_db\<lparr>db_stream_heads := [\<lparr>sh_stream_key = stream_key_of sample_request, sh_head_sequence = 1\<rparr>]\<rparr>) \<noteq> Inl m" for m
    by (simp add: insert_event_def insert_envelope_def insert_payload_def insert_lifecycle_def insert_dedup_def
        upsert_producer_def insert_row_def fk_envelope_def empty_db_def)
  ultimately show ?thesis
    by (auto simp: accept_def sample_journal_def with_conn_def default_journal_config_def sample_request_def
        accept_tx_def check_dedup_def accept_new_def check_producer_sequence_def accept_insert_def sample_accepted_def
        empty_db_def split: sum.splits)
qed

theorem accept_roundtrip_witness:
  "\<exists>j' s. accept sample_env sample_request sample_journal = (Done (AcceptAccepted sample_accepted), j') \<and>
     get_status_impl sample_env (lj_db j') ''e1'' = StatusFound s \<and> accepted_of_status s = sample_accepted \<and>
     read_verified_payload_impl sample_env (lj_db j') ''e1'' = PayloadFound [1, 2]"
proof -
  obtain j' where "accept sample_env sample_request sample_journal = (Done (AcceptAccepted sample_accepted), j')"
    using sample_accept by blast
  with accept_roundtrip [OF this _ no_faults_sample] show ?thesis
    by (simp add: sample_request_def in_i32_def i32_max_def)
qed

theorem accept_atomic_witness:
  "\<exists>j'. accept (sample_env\<lparr>env_fault := (\<lambda>p. if p = SqlCommit then Some ''full'' else None)\<rparr>)
       sample_request sample_journal = (Done (AcceptError ''full''), j') \<and> same_data empty_db (lj_db j')"
proof -
  let ?e = "sample_env\<lparr>env_fault := (\<lambda>p. if p = SqlCommit then Some ''full'' else None)\<rparr>"
  have "allocate_journal_sequence ?e empty_db = Done 1"
    by (simp add: allocate_journal_sequence_def empty_db_def max_sequence_def in_i64_def i64_max_def)
  moreover have "allocate_stream_sequence ?e empty_db (stream_key_of sample_request) = Done (Inr (1,
      empty_db\<lparr>db_stream_heads := [\<lparr>sh_stream_key = stream_key_of sample_request, sh_head_sequence = 1\<rparr>]\<rparr>))"
    by (simp add: allocate_stream_Done stream_head_def empty_db_def in_i64_def i64_max_def upsert_row_def)
  moreover have "insert_event ?e sample_request 1 1
      (empty_db\<lparr>db_stream_heads := [\<lparr>sh_stream_key = stream_key_of sample_request, sh_head_sequence = 1\<rparr>]\<rparr>) \<noteq> Inl m" for m
    by (simp add: insert_event_def insert_envelope_def insert_payload_def insert_lifecycle_def insert_dedup_def
        upsert_producer_def insert_row_def fk_envelope_def empty_db_def sql_checked_def sql_def)
  ultimately have "\<exists>j'. accept ?e sample_request sample_journal = (Done (AcceptError ''full''), j')"
    by (auto simp: accept_def sample_journal_def with_conn_def default_journal_config_def sample_request_def
        accept_tx_def check_dedup_def accept_new_def check_producer_sequence_def accept_insert_def
        empty_db_def sql_def split: sum.splits)
  then obtain j' where "accept ?e sample_request sample_journal = (Done (AcceptError ''full''), j')" by blast
  with accept_atomic [OF this] show ?thesis by (simp add: sample_journal_def)
qed

text \<open>A digest that adds up the bytes, and rows altered in a text, in a number and in the payload digest.\<close>

definition sum_env :: env where
  "sum_env = sample_env\<lparr>env_sha := (\<lambda>bs. fill_checksum (sum_list bs))\<rparr>"

definition tampered_rows :: "envelope_row list" where
  "tampered_rows = (let en = new_envelope_row sum_env sample_request 1 1 in
     [en\<lparr>se_stream_key := ''kk''\<rparr>, en\<lparr>se_schema_version := 2\<rparr>, en\<lparr>se_payload_digest := replicate 32 4\<rparr>])"


subsection \<open>The invariant of the database\<close>

text \<open>The stream an envelope belongs to, as the key under which its head is stored.\<close>

definition row_stream :: "envelope_row \<Rightarrow> string" where
  "row_stream r = join_nul [se_installation_id r, se_namespace r, se_logical_stream_type r, se_stream_key r]"

definition stream_rows :: "db \<Rightarrow> string \<Rightarrow> envelope_row list" where
  "stream_rows d k = filter (\<lambda>r. row_stream r = k) (db_envelopes d)"

text \<open>The sequences $1, \ldots, n$.\<close>

definition upto_int :: "nat \<Rightarrow> i64 list" where
  "upto_int n = map int [1..<Suc n]"

definition sequences_ok :: "db \<Rightarrow> bool" where
  "sequences_ok d \<longleftrightarrow>
     map se_journal_sequence (db_envelopes d) = upto_int (length (db_envelopes d)) \<and>
     (\<forall>k. map se_stream_sequence (stream_rows d k) = upto_int (length (stream_rows d k)) \<and>
          stream_head d k = int (length (stream_rows d k)))"

definition keys_ok :: "db \<Rightarrow> bool" where
  "keys_ok d \<longleftrightarrow> distinct (map se_event_id (db_envelopes d)) \<and>
     map pb_event_id (db_payloads d) = map se_event_id (db_envelopes d) \<and>
     map ls_event_id (db_lifecycles d) = map se_event_id (db_envelopes d) \<and>
     map dd_event_id (db_dedups d) = map se_event_id (db_envelopes d) \<and>
     distinct (map dr_event_id (db_deliveries d)) \<and>
     set (map dr_event_id (db_deliveries d)) \<subseteq> set (map se_event_id (db_envelopes d)) \<and>
     set (map (da_event_id \<circ> dt_attempt) (db_delivery_attempts d)) \<subseteq> set (map se_event_id (db_envelopes d))"

definition histories_ok :: "db \<Rightarrow> bool" where
  "histories_ok d \<longleftrightarrow> distinct (map wa_id (db_write_attempts d)) \<and>
     (\<forall>r \<in> set (db_write_attempts d). wa_id r \<le> db_write_attempt_seq d) \<and>
     distinct (map dt_id (db_delivery_attempts d)) \<and>
     (\<forall>r \<in> set (db_delivery_attempts d). dt_id r \<le> db_delivery_attempt_seq d)"

text \<open>
  The rows of one producer instance: their operation sequences grow strictly, and the producer
  table holds the last of them.
\<close>

definition row_producer :: "envelope_row \<Rightarrow> string" where
  "row_producer r = join_nul [se_installation_id r, se_producer_id r, se_producer_instance_id r]"

definition producer_rows :: "db \<Rightarrow> string \<Rightarrow> envelope_row list" where
  "producer_rows d k = filter (\<lambda>r. row_producer r = k) (db_envelopes d)"

definition producer_recorded :: "envelope_row list \<Rightarrow> producer_sequence_row option \<Rightarrow> bool" where
  "producer_recorded rows head =
     (case head of
        None \<Rightarrow> rows = []
      | Some r \<Rightarrow> rows \<noteq> [] \<and> pr_highest_seq r = se_producer_op_seq (last rows) \<and>
          pr_last_event_id r = se_event_id (last rows))"

definition producers_ok :: "db \<Rightarrow> bool" where
  "producers_ok d \<longleftrightarrow>
     (\<forall>k. sorted_wrt (<) (map se_producer_op_seq (producer_rows d k)) \<and>
        producer_recorded (producer_rows d k) (select_row pr_producer_key k (db_producer_sequences d)))"

definition journal_inv :: "db \<Rightarrow> bool" where
  "journal_inv d \<longleftrightarrow> sequences_ok d \<and> keys_ok d \<and> producers_ok d \<and> histories_ok d"

lemma upto_int_simps [simp]: "upto_int 0 = []" "upto_int (Suc n) = upto_int n @ [int (Suc n)]"
  by (simp_all add: upto_int_def)

lemma upto_int_facts [simp]: "length (upto_int n) = n" "distinct (upto_int n)" "sorted (upto_int n)"
  "set (upto_int n) = {1..int n}"
proof -
  show "length (upto_int n) = n" "distinct (upto_int n)" by (simp_all add: upto_int_def distinct_map)
  show "sorted (upto_int n)" by (induction n) (auto simp: sorted_append upto_int_def)
  show "set (upto_int n) = {1..int n}"
    by (induction n) auto
qed

lemma max_sequence_upto: "max_sequence (upto_int n) = int n"
proof -
  have snoc: "max_sequence (xs @ [x]) = max (if xs = [] then x else max_sequence xs) x" for xs x
    by (cases xs) (simp_all add: max_sequence_def max.commute)
  show ?thesis
  proof (induction n)
    case 0
    then show ?case by (simp add: max_sequence_def)
  next
    case (Suc n)
    then show ?case by (auto simp: snoc simp flip: length_0_conv)
  qed
qed

lemma row_stream_new [simp]: "row_stream (new_envelope_row e req js ss) = stream_key_of req"
  by (simp add: row_stream_def new_envelope_row_def stream_key_of_def)

lemma stream_rows_added:
  "stream_rows (event_added e req js ss d) k =
     stream_rows d k @ (if k = stream_key_of req then [new_envelope_row e req js ss] else [])"
  by (auto simp: stream_rows_def event_added_def)

lemma stream_head_added:
  "stream_head (event_added e req js ss d) k = (if k = stream_key_of req then ss else stream_head d k)"
  by (auto simp: stream_head_def event_added_def select_upsert_row)

lemma stream_rows_length: "length (stream_rows d k) \<le> length (db_envelopes d)"
  by (simp add: stream_rows_def)

lemma event_added_sequences:
  assumes inv: "sequences_ok d"
    and js: "js = max_sequence (map se_journal_sequence (db_envelopes d)) + 1" "in_i64 js"
    and ss: "arith_i64 checks (stream_head d (stream_key_of req) + 1) = Done ss"
  shows "sequences_ok (event_added e req js ss d)"
    and "js = int (length (db_envelopes d)) + 1" "ss = int (length (stream_rows d (stream_key_of req))) + 1"
proof -
  from inv js(1) show js': "js = int (length (db_envelopes d)) + 1"
    by (simp add: sequences_ok_def max_sequence_upto)
  have head: "stream_head d (stream_key_of req) = int (length (stream_rows d (stream_key_of req)))"
    using inv by (simp add: sequences_ok_def)
  have "in_i64 (stream_head d (stream_key_of req) + 1)"
    using js(2) stream_rows_length [of d "stream_key_of req"] by (simp add: head js' in_i64_def)
  with ss head show ss': "ss = int (length (stream_rows d (stream_key_of req))) + 1" by simp
  show "sequences_ok (event_added e req js ss d)"
    using inv by (auto simp: sequences_ok_def stream_rows_added stream_head_added ss' js')
      (simp add: event_added_def)
qed

lemma event_added_keys:
  assumes "keys_ok d" "event_absent d (aq_event_id req)"
  shows "keys_ok (event_added e req js ss d)"
  using assms unfolding keys_ok_def event_absent_def event_added_def
  by (auto simp: select_row_None simp del: set_map)

lemma same_data_ok:
  assumes "same_data d d'"
  shows "sequences_ok d' = sequences_ok d" "keys_ok d' = keys_ok d" "producers_ok d' = producers_ok d"
  using same_data_fields [OF assms]
  by (simp_all add: sequences_ok_def keys_ok_def producers_ok_def stream_rows_def stream_head_def producer_rows_def)

lemma sorted_wrt_less_last:
  fixes x :: "'a :: linorder"
  shows "sorted_wrt (<) (xs @ [x]) \<longleftrightarrow> sorted_wrt (<) xs \<and> (xs = [] \<or> last xs < x)"
proof (cases xs rule: rev_cases)
  case (snoc ys y)
  then show ?thesis by (auto simp: sorted_wrt_append)
qed simp

lemma producer_rows_added:
  "producer_rows (event_added e req js ss d) k =
     producer_rows d k @ (if k = producer_key_of req then [new_envelope_row e req js ss] else [])"
  by (auto simp: producer_rows_def event_added_def row_producer_def new_envelope_row_def producer_key_of_def)

lemma last_producer_row_found: "producer_rows d k \<noteq> [] \<Longrightarrow> find_envelope d (se_event_id (last (producer_rows d k))) \<noteq> None"
  using last_in_set [of "producer_rows d k"] by (auto simp: producer_rows_def select_row_None)

text \<open>The producer check lets only a greater operation sequence through, since the event is new.\<close>

lemma producer_check_passed:
  assumes "producers_ok d" "event_absent d eid" "check_producer_sequence e d k sq eid = Inr None"
  shows "producer_rows d k = [] \<or> se_producer_op_seq (last (producer_rows d k)) < sq"
proof -
  from assms(1) have rec: "producer_recorded (producer_rows d k) (select_row pr_producer_key k (db_producer_sequences d))"
    by (simp add: producers_ok_def)
  show ?thesis
  proof (cases "select_row pr_producer_key k (db_producer_sequences d)")
    case None
    with rec show ?thesis by (simp add: producer_recorded_def)
  next
    case (Some r)
    with rec have r: "producer_rows d k \<noteq> []" "pr_highest_seq r = se_producer_op_seq (last (producer_rows d k))"
      "pr_last_event_id r = se_event_id (last (producer_rows d k))" by (simp_all add: producer_recorded_def)
    with last_producer_row_found [OF r(1)] assms(2) have "pr_last_event_id r \<noteq> eid" by (auto simp: event_absent_def)
    with assms(3) Some r show ?thesis
      by (auto simp: check_producer_sequence_def sql_def split: option.splits if_splits)
  qed
qed

lemma event_added_producers:
  assumes "producers_ok d" "event_absent d (aq_event_id req)"
    "check_producer_sequence e' d (producer_key_of req) (aq_producer_operation_sequence req) (aq_event_id req) = Inr None"
  shows "producers_ok (event_added e req js ss d)"
proof -
  have sel: "select_row pr_producer_key k (db_producer_sequences (event_added e req js ss d)) =
      (if k = producer_key_of req then Some (new_producer_row req)
       else select_row pr_producer_key k (db_producer_sequences d))" for k
    by (simp add: event_added_def select_upsert_row new_producer_row_def)
  have "sorted_wrt (<) (map se_producer_op_seq (producer_rows (event_added e req js ss d) k))" for k
    using assms(1) producer_check_passed [OF assms]
    by (cases "producer_rows d (producer_key_of req) = []")
      (auto simp: producer_rows_added producers_ok_def sorted_wrt_less_last last_map new_envelope_row_def)
  moreover have "producer_recorded (producer_rows (event_added e req js ss d) k)
      (select_row pr_producer_key k (db_producer_sequences (event_added e req js ss d)))" for k
    using assms(1)
    by (cases "k = producer_key_of req")
      (simp_all add: sel producer_rows_added producers_ok_def producer_recorded_def new_envelope_row_def
        new_producer_row_def)
  ultimately show ?thesis by (simp add: producers_ok_def)
qed

lemma insert_write_attempt_histories:
  assumes "histories_ok d"
  shows "histories_ok (insert_write_attempt e d eid what detail)"
proof -
  have "Suc (db_write_attempt_seq d) \<notin> wa_id ` set (db_write_attempts d)"
    using assms by (auto simp: histories_ok_def)
  with assms show ?thesis by (auto simp: histories_ok_def insert_write_attempt_def Let_def)
qed

lemma record_attempt_histories:
  assumes "histories_ok d"
  shows "histories_ok (record_attempt e d eid what detail)"
  using insert_write_attempt_histories [OF assms, of e eid what detail]
  by (auto simp: histories_ok_def record_attempt_def trim_write_attempts_def distinct_trim_rows
      dest!: set_trim_rows [THEN subsetD])

lemma event_added_histories: "histories_ok (event_added e req js ss d) = histories_ok d"
  by (simp add: histories_ok_def event_added_def)

lemma journal_inv_record_attempt: "journal_inv d \<Longrightarrow> journal_inv (record_attempt e d eid what detail)"
  by (simp add: journal_inv_def record_attempt_histories same_data_ok [OF same_data_record_attempt])

lemma journal_inv_commit: "journal_inv d \<Longrightarrow> journal_inv d' \<Longrightarrow> journal_inv (commit_ignoring e d d')"
  by (simp add: commit_ignoring_def)

lemma accept_insert_inv:
  assumes "accept_insert e req d = (r, d')" "journal_inv d"
    and "check_producer_sequence e d (producer_key_of req) (aq_producer_operation_sequence req) (aq_event_id req) = Inr None"
  shows "journal_inv d'"
proof (cases "\<exists>a. r = Done (AcceptAccepted a)")
  case True
  then obtain a where "accept_insert e req d = (Done (AcceptAccepted a), d')" using assms(1) by auto
  from accept_insert_Accepted [OF this] assms(2,3) show ?thesis
    by (metis event_added_sequences(1) event_added_keys event_added_histories event_added_producers
        journal_inv_record_attempt journal_inv_def)
next
  case False
  with assms(1,2) accept_insert_not_accepted show ?thesis by blast
qed

lemma accept_tx_inv:
  assumes "accept_tx e req d = (r, d')" "journal_inv d"
  shows "journal_inv d'"
proof -
  note keep = journal_inv_commit [OF assms(2) journal_inv_record_attempt [OF assms(2)]]
  from assms(1) consider "d' = d" | what detail where "d' = commit_ignoring e d (record_attempt e d (aq_event_id req) what detail)"
    | "accept_insert e req d = (r, d')" "check_producer_sequence e d (producer_key_of req)
        (aq_producer_operation_sequence req) (aq_event_id req) = Inr None"
    unfolding accept_tx_def accept_new_def accept_duplicate_def
    by (auto split: sum.splits dedup_check.splits option.splits status_result.splits)
  then show ?thesis by cases (use assms(2) keep accept_insert_inv in blast)+
qed

lemma accept_inv: "accept e req j = (r, j') \<Longrightarrow> journal_inv (lj_db j) \<Longrightarrow> journal_inv (lj_db j')"
  by (erule accept_cases) (auto dest: accept_tx_inv)

lemma journal_inv_empty: "journal_inv empty_db"
  by (simp add: journal_inv_def sequences_ok_def keys_ok_def histories_ok_def empty_db_def stream_rows_def stream_head_def
      producers_ok_def producer_recorded_def producer_rows_def)

subsection \<open>The bounded history\<close>

definition history_bounded :: "db \<Rightarrow> bool" where
  "history_bounded d \<longleftrightarrow> (\<forall>eid. length (filter (\<lambda>r. wa_event_id r = eid) (db_write_attempts d)) \<le> MAX_ATTEMPTS)"

lemma filter_trim_rows_other:
  assumes "distinct (map ident rows)" "\<And>r. q r \<Longrightarrow> \<not> p r"
  shows "filter q (trim_rows ident p n rows) = filter q rows"
proof -
  have "filter q rs = filter q (filter (\<lambda>r. \<not> p r) rs)" for rs :: "'a list"
    using assms(2) by (auto intro: filter_cong)
  then show ?thesis using trim_rows_other [OF assms(1)] by metis
qed

lemma record_attempt_bounded:
  assumes "env_fault e SqlTrimWriteAttempts = None" "histories_ok d"
  shows "length (filter (\<lambda>r. wa_event_id r = eid) (db_write_attempts (record_attempt e d eid' what detail))) \<le>
    (if eid = eid' then MAX_ATTEMPTS else length (filter (\<lambda>r. wa_event_id r = eid) (db_write_attempts d)))"
proof -
  let ?d = "insert_write_attempt e d eid' what detail"
  have "distinct (map wa_id (db_write_attempts ?d))"
    using insert_write_attempt_histories [OF assms(2)] by (simp add: histories_ok_def)
  note len = length_trim_rows [OF this, of "\<lambda>r. wa_event_id r = eid'" MAX_ATTEMPTS]
    and other = filter_trim_rows_other [OF this, of "\<lambda>r. wa_event_id r = eid" "\<lambda>r. wa_event_id r = eid'" MAX_ATTEMPTS]
  have trimmed: "db_write_attempts (record_attempt e d eid' what detail) =
      trim_rows wa_id (\<lambda>r. wa_event_id r = eid') MAX_ATTEMPTS (db_write_attempts ?d)"
    using assms(1) by (simp add: record_attempt_def trim_write_attempts_def)
  have "eid \<noteq> eid' \<Longrightarrow> filter (\<lambda>r. wa_event_id r = eid) (db_write_attempts ?d) =
      filter (\<lambda>r. wa_event_id r = eid) (db_write_attempts d)"
    by (simp add: insert_write_attempt_def Let_def)
  with len other show ?thesis by (cases "eid = eid'") (auto simp: trimmed)
qed

lemma record_attempt_history_bounded:
  assumes "env_fault e SqlTrimWriteAttempts = None" "histories_ok d" "history_bounded d"
  shows "history_bounded (record_attempt e d eid what detail)"
  unfolding history_bounded_def
proof
  fix eid'
  from record_attempt_bounded [OF assms(1,2), of eid' eid what detail] assms(3) show
    "length (filter (\<lambda>r. wa_event_id r = eid') (db_write_attempts (record_attempt e d eid what detail))) \<le> MAX_ATTEMPTS"
    unfolding history_bounded_def by (auto split: if_splits dest: spec [of _ eid'])
qed

lemma accept_insert_history:
  assumes "accept_insert e req d = (r, d')" "env_fault e SqlTrimWriteAttempts = None" "histories_ok d" "history_bounded d"
  shows "history_bounded d'"
proof (cases "\<exists>a. r = Done (AcceptAccepted a)")
  case True
  then obtain a where "accept_insert e req d = (Done (AcceptAccepted a), d')" using assms(1) by auto
  then obtain js ss where
    "d' = record_attempt e (event_added e req js ss d) (aq_event_id req) ''NEWLY_ACCEPTED'' None"
    by (rule accept_insert_Accepted)
  moreover have "history_bounded (event_added e req js ss d)"
    using assms(4) by (simp add: history_bounded_def event_added_def)
  ultimately show ?thesis
    using assms(2,3) by (simp add: record_attempt_history_bounded event_added_histories)
next
  case False
  with assms(1,4) accept_insert_not_accepted show ?thesis by blast
qed

lemma accept_tx_history:
  assumes "accept_tx e req d = (r, d')" "env_fault e SqlTrimWriteAttempts = None" "histories_ok d" "history_bounded d"
  shows "history_bounded d'"
proof -
  from assms(1) consider "d' = d" | what detail where "d' = commit_ignoring e d (record_attempt e d (aq_event_id req) what detail)"
    | "accept_insert e req d = (r, d')"
    unfolding accept_tx_def accept_new_def accept_duplicate_def
    by (auto split: sum.splits dedup_check.splits option.splits status_result.splits)
  then show ?thesis
  proof cases
    case 1
    with assms(4) show ?thesis by simp
  next
    case 2
    with assms record_attempt_history_bounded [OF assms(2-4)] show ?thesis by (simp add: commit_ignoring_def)
  next
    case 3
    from accept_insert_history [OF 3 assms(2-4)] show ?thesis .
  qed
qed

subsection \<open>Properties of accept on a well-formed journal\<close>

text \<open>
  Every call of \<^verbatim>\<open>accept\<close> keeps the invariant of the database: journal sequences are
  $1, \ldots, n$ without gap, each stream's sequences are $1, \ldots, m$ and its head is $m$, each
  producer instance's operation sequences grow strictly, event ids are unique and every envelope
  has exactly one payload, lifecycle and fingerprint row. This holds for every pattern of engine
  failures, on the panicking path as well.
\<close>

lemma accept_preserves_invariant:
  assumes "accept e req j = (r, j')" "journal_inv (lj_db j)"
  shows "journal_inv (lj_db j')"
  using assms by (rule accept_inv)

text \<open>
  An accepted event gets the next journal sequence and the next sequence of its stream; the unchecked
  additions cannot overflow on a well-formed journal.
\<close>

lemma accepted_sequences:
  assumes "accept e req j = (Done (AcceptAccepted a), j')" "journal_inv (lj_db j)"
  shows "ac_journal_sequence a = int (length (db_envelopes (lj_db j))) + 1"
    "ac_stream_sequence a = int (length (stream_rows (lj_db j) (stream_key_of req))) + 1"
proof -
  from accept_insert_Accepted [OF accept_Accepted [OF assms(1)]] obtain js ss where
    *: "js = max_sequence (map se_journal_sequence (db_envelopes (lj_db j))) + 1" "in_i64 js"
      "arith_i64 (env_overflow_checks e) (stream_head (lj_db j) (stream_key_of req) + 1) = Done ss"
    and "ac_journal_sequence a = js" "ac_stream_sequence a = ss" by (metis accepted_event.select_convs(2,3))
  with event_added_sequences(2,3) [OF _ *] assms(2)
  show "ac_journal_sequence a = int (length (db_envelopes (lj_db j))) + 1"
    "ac_stream_sequence a = int (length (stream_rows (lj_db j) (stream_key_of req))) + 1" by (simp_all add: journal_inv_def)
qed

text \<open>
  The write-attempt history is bounded. As long as the trimming statement does not fail, no call
  leaves more than \<^verbatim>\<open>MAX_ATTEMPTS\<close> attempts of one event behind, whatever else fails.
\<close>

theorem accept_history_bounded:
  assumes "accept e req j = (r, j')" "env_fault e SqlTrimWriteAttempts = None"
    and "journal_inv (lj_db j)" "history_bounded (lj_db j)"
  shows "history_bounded (lj_db j')"
  using assms(1)
proof (cases rule: accept_cases)
  case 1
  with assms(4) show ?thesis by simp
next
  case (2 d)
  with accept_tx_history [OF 2(1) assms(2)] assms(3,4) show ?thesis by (simp add: journal_inv_def)
qed

theorem accept_history_bounded_witness:
  "\<exists>j'. accept sample_env sample_request sample_journal = (Done (AcceptAccepted sample_accepted), j') \<and>
     history_bounded (lj_db j')"
proof -
  obtain j' where acc: "accept sample_env sample_request sample_journal = (Done (AcceptAccepted sample_accepted), j')"
    using sample_accept by blast
  have "journal_inv (lj_db sample_journal)" "history_bounded (lj_db sample_journal)"
    using journal_inv_empty by (simp_all add: sample_journal_def history_bounded_def empty_db_def)
  with acc accept_history_bounded [OF acc] show ?thesis by auto
qed

end
