(* ===== verification/Journal_Delivery.thy ===== *)
theory Journal_Delivery
  imports Journal_Integrity
begin

text \<open>
  The writing operations on lifecycle and delivery states: \<^verbatim>\<open>update_lifecycle\<close>,
  \<^verbatim>\<open>create_delivery_pending\<close>, \<^verbatim>\<open>record_delivery_attempt\<close>, \<^verbatim>\<open>confirm_replicated_delivery\<close>,
  \<^verbatim>\<open>block_delivery\<close> and \<^verbatim>\<open>update_delivery_retry\<close>. Each is a function on the database that returns
  its \<^verbatim>\<open>CasResult\<close> and the database it leaves; \<open>with_conn\<close> turns it into the method of the
  journal. The checked part of an operation is written with \<open>cas_try\<close> (an early
  \<^verbatim>\<open>return CasResult::..\<close>) and \<open>cas_arith\<close> (an addition that may panic); both leave the
  database as it was when the operation started.
\<close>

subsection \<open>Early returns\<close>

definition cas_try :: "db \<Rightarrow> cas_result + 'a \<Rightarrow> ('a \<Rightarrow> cas_result outcome \<times> db) \<Rightarrow> cas_result outcome \<times> db" where
  "cas_try d x f = (case x of Inl r \<Rightarrow> (Done r, d) | Inr a \<Rightarrow> f a)"

definition cas_arith :: "db \<Rightarrow> 'a outcome \<Rightarrow> ('a \<Rightarrow> cas_result outcome \<times> db) \<Rightarrow> cas_result outcome \<times> db" where
  "cas_arith d x f = (case x of Panicked \<Rightarrow> (Panicked, d) | Done a \<Rightarrow> f a)"

definition cas_sql :: "string + 'a \<Rightarrow> cas_result + 'a" where
  "cas_sql x = (case x of Inl m \<Rightarrow> Inl (CasError m) | Inr a \<Rightarrow> Inr a)"

definition cas_guard :: "bool \<Rightarrow> cas_result \<Rightarrow> cas_result + unit" where
  "cas_guard b r = (if b then Inl r else Inr ())"

definition delivery_or_return :: "delivery_state_result \<Rightarrow> cas_result + delivery_state_record" where
  "delivery_or_return x =
     (case x of
        DeliveryFound state \<Rightarrow> Inr state
      | DeliveryNotFound \<Rightarrow> Inl CasNotFound
      | DeliveryCorrupted event_id detail \<Rightarrow> Inl (CasCorrupted event_id detail)
      | DeliveryError m \<Rightarrow> Inl (CasError m))"

text \<open>The two conditional updates \<^verbatim>\<open>WHERE event_id = ? AND revision = ?\<close>.\<close>

definition update_lifecycle_row :: "string \<Rightarrow> i64 \<Rightarrow> (lifecycle_row \<Rightarrow> lifecycle_row) \<Rightarrow> db \<Rightarrow> db \<times> nat" where
  "update_lifecycle_row event_id rv f d =
     (let (rows, affected) = update_rows (\<lambda>r. ls_event_id r = event_id \<and> ls_revision r = rv) f (db_lifecycles d)
      in (d\<lparr>db_lifecycles := rows\<rparr>, affected))"

definition update_delivery_row :: "string \<Rightarrow> i64 \<Rightarrow> (delivery_row \<Rightarrow> delivery_row) \<Rightarrow> db \<Rightarrow> db \<times> nat" where
  "update_delivery_row event_id rv f d =
     (let (rows, affected) = update_rows (\<lambda>r. dr_event_id r = event_id \<and> dr_delivery_revision r = rv) f (db_deliveries d)
      in (d\<lparr>db_deliveries := rows\<rparr>, affected))"

text \<open>The \<^verbatim>\<open>match affected\<close> of the operations that run without a transaction.\<close>

definition cas_affected :: "string \<Rightarrow> nat \<Rightarrow> cas_result" where
  "cas_affected what affected =
     (if affected = 1 then Updated else if affected = 0 then StaleRevision
      else CasError (what @ '' affected '' @ show_nat affected @ '' rows, expected 1''))"

subsection \<open>Lifecycle\<close>

definition update_lifecycle_db ::
    "env \<Rightarrow> string \<Rightarrow> i64 \<Rightarrow> local_delivery_status \<Rightarrow> local_retention_status \<Rightarrow> db \<Rightarrow> cas_result outcome \<times> db" where
  "update_lifecycle_db e event_id expected_revision new_delivery new_retention d =
     (case get_status_impl e d event_id of
        StatusNotFound \<Rightarrow> (Done CasNotFound, d)
      | StatusCorrupted eid detail \<Rightarrow> (Done (CasCorrupted eid detail), d)
      | StatusFound status \<Rightarrow>
          cas_try d (cas_guard (ps_lifecycle_revision status \<noteq> expected_revision) StaleRevision) (\<lambda>_.
          cas_arith d (arith_i64 (env_overflow_checks e) (expected_revision + 1)) (\<lambda>new_rev.
          let ds = local_delivery_as_str new_delivery; rs = local_retention_as_str new_retention in
          cas_try d (cas_sql (sql e SqlUpdateLifecycle
            (update_lifecycle_row event_id expected_revision
              (\<lambda>r. r\<lparr>ls_revision := new_rev,
                 ls_lifecycle_checksum := bytes_of (compute_lifecycle_checksum e event_id new_rev ds rs),
                 ls_delivery_status := ds, ls_retention_status := rs, ls_updated_at_ms := env_now_ms e\<rparr>) d)))
            (\<lambda>(d', affected). (Done (cas_affected ''lifecycle update'' affected), d')))))"

definition update_lifecycle_delivery_status ::
    "env \<Rightarrow> string \<Rightarrow> persisted_status \<Rightarrow> string \<Rightarrow> db \<Rightarrow> cas_result outcome \<times> db" where
  "update_lifecycle_delivery_status e event_id current new_delivery_status d =
     cas_arith d (arith_i64 (env_overflow_checks e) (ps_lifecycle_revision current + 1)) (\<lambda>new_revision.
     cas_try d (cas_sql (sql e SqlUpdateLifecycle
       (update_lifecycle_row event_id (ps_lifecycle_revision current)
         (\<lambda>r. r\<lparr>ls_revision := new_revision,
            ls_lifecycle_checksum := bytes_of (compute_lifecycle_checksum e event_id new_revision
              new_delivery_status (ps_retention_status current)),
            ls_delivery_status := new_delivery_status, ls_updated_at_ms := env_now_ms e\<rparr>) d)))
       (\<lambda>(d', affected). (Done (cas_affected ''lifecycle delivery update'' affected), d')))"

subsection \<open>Creating a delivery state\<close>

definition pending_record ::
    "env \<Rightarrow> string \<Rightarrow> checksum \<Rightarrow> string \<Rightarrow> i32 \<Rightarrow> string \<Rightarrow> delivery_state_record" where
  "pending_record e event_id routing_fingerprint profile_id profile_version kafka_topic =
     \<lparr>ds_event_id = event_id, ds_delivery_status = ''DELIVERY_PENDING'', ds_attempt_count = 0,
      ds_next_retry_at_ms = None, ds_last_error = None, ds_blocked_reason = None,
      ds_kafka_topic = Some kafka_topic, ds_kafka_partition = None, ds_kafka_offset = None,
      ds_routing_fingerprint = Some routing_fingerprint, ds_profile_id = Some profile_id,
      ds_profile_version = Some profile_version, ds_delivery_revision = 1,
      ds_delivery_checksum = fill_checksum 0, ds_confirmed_at_ms = None,
      ds_created_at_ms = env_now_ms e, ds_updated_at_ms = env_now_ms e\<rparr>"

text \<open>The inserted row: the columns the statement does not name are \<^verbatim>\<open>NULL\<close>.\<close>

definition pending_row ::
    "env \<Rightarrow> string \<Rightarrow> checksum \<Rightarrow> string \<Rightarrow> i32 \<Rightarrow> string \<Rightarrow> delivery_row" where
  "pending_row e event_id routing_fingerprint profile_id profile_version kafka_topic =
     \<lparr>dr_event_id = event_id, dr_delivery_status = ''DELIVERY_PENDING'', dr_attempt_count = 0,
      dr_next_retry_at_ms = None, dr_last_error = None, dr_blocked_reason = None,
      dr_kafka_topic = Some kafka_topic, dr_kafka_partition = None, dr_kafka_offset = None,
      dr_routing_fingerprint = Some (bytes_of routing_fingerprint), dr_profile_id = Some profile_id,
      dr_profile_version = Some profile_version, dr_delivery_revision = 1,
      dr_delivery_checksum = bytes_of (compute_delivery_checksum e
        (pending_record e event_id routing_fingerprint profile_id profile_version kafka_topic)),
      dr_confirmed_at_ms = None, dr_created_at_ms = env_now_ms e, dr_updated_at_ms = env_now_ms e\<rparr>"

definition create_delivery_pending_db ::
    "env \<Rightarrow> string \<Rightarrow> checksum \<Rightarrow> string \<Rightarrow> i32 \<Rightarrow> string \<Rightarrow> db \<Rightarrow> cas_result outcome \<times> db" where
  "create_delivery_pending_db e event_id routing_fingerprint profile_id profile_version kafka_topic d =
     cas_try d (cas_sql (sql e SqlExistsQuery (find_envelope d event_id \<noteq> None))) (\<lambda>present.
     cas_try d (cas_guard (\<not> present) CasNotFound) (\<lambda>_.
     cas_try d (cas_sql (sql_checked e SqlInsertDelivery
       (if fk_envelope d event_id
        then map_option (\<lambda>rows. d\<lparr>db_deliveries := rows\<rparr>)
          (insert_row dr_event_id
            (pending_row e event_id routing_fingerprint profile_id profile_version kafka_topic)
            (db_deliveries d))
        else None))) (\<lambda>d'. (Done Updated, d'))))"

subsection \<open>Recording an attempt\<close>

definition insert_delivery_attempt :: "env \<Rightarrow> delivery_attempt_record \<Rightarrow> db \<Rightarrow> string + db" where
  "insert_delivery_attempt e attempt d = sql_checked e SqlInsertDeliveryAttempt
     (if fk_envelope d (da_event_id attempt)
      then let new_id = db_delivery_attempt_seq d + 1 in
        Some (d\<lparr>db_delivery_attempts := db_delivery_attempts d @ [\<lparr>dt_id = new_id, dt_attempt = attempt\<rparr>],
                db_delivery_attempt_seq := new_id\<rparr>)
      else None)"

definition trim_delivery_attempts :: "env \<Rightarrow> string \<Rightarrow> db \<Rightarrow> string + db" where
  "trim_delivery_attempts e event_id d = sql e SqlTrimDeliveryAttempts
     (d\<lparr>db_delivery_attempts := trim_rows dt_id (\<lambda>r. da_event_id (dt_attempt r) = event_id)
       MAX_DELIVERY_ATTEMPTS (db_delivery_attempts d)\<rparr>)"

definition record_delivery_attempt_db ::
    "env \<Rightarrow> delivery_attempt_record \<Rightarrow> db \<Rightarrow> cas_result outcome \<times> db" where
  "record_delivery_attempt_db e attempt d =
     (let eid = da_event_id attempt in
      cas_try d (cas_sql (sql e SqlBegin ())) (\<lambda>_.
      cas_try d (delivery_or_return (load_delivery_state e d eid)) (\<lambda>state.
      cas_try d (cas_sql (insert_delivery_attempt e attempt d)) (\<lambda>d1.
      cas_try d (cas_sql (trim_delivery_attempts e eid d1)) (\<lambda>d2.
      cas_arith d (arith_i32 (env_overflow_checks e) (ds_attempt_count state + 1)) (\<lambda>attempt_count.
      let state' = state\<lparr>ds_attempt_count := attempt_count, ds_last_error := da_error_code attempt,
                        ds_updated_at_ms := env_now_ms e\<rparr>;
          checksum = compute_delivery_checksum e state' in
      cas_try d (cas_sql (sql e SqlUpdateDelivery
        (update_delivery_row eid (ds_delivery_revision state)
          (\<lambda>r. r\<lparr>dr_attempt_count := dr_attempt_count r + 1, dr_last_error := da_error_code attempt,
             dr_delivery_checksum := bytes_of checksum, dr_updated_at_ms := env_now_ms e\<rparr>) d2)))
        (\<lambda>(d3, affected).
          if affected = 1
          then cas_try d (cas_sql (sql e SqlCommit d3)) (\<lambda>d4. (Done Updated, d4))
          else (Done (cas_affected ''delivery attempt state update'' affected), d))))))))"

subsection \<open>Delivery transitions\<close>

text \<open>The answer to a confirmation of a delivery that is already \<^verbatim>\<open>REPLICATED\<close>.\<close>

definition same_confirmation :: "delivery_state_record \<Rightarrow> replicated_delivery_confirmation \<Rightarrow> bool" where
  "same_confirmation current confirmation \<longleftrightarrow>
     ds_kafka_topic current = Some (rc_kafka_topic confirmation) \<and>
     ds_kafka_partition current = Some (rc_kafka_partition confirmation) \<and>
     ds_kafka_offset current = Some (rc_kafka_offset confirmation) \<and>
     ds_routing_fingerprint current = Some (rc_expected_routing_fingerprint confirmation) \<and>
     ds_profile_id current = Some (rc_expected_profile_id confirmation) \<and>
     ds_profile_version current = Some (rc_expected_profile_version confirmation)"

definition confirm_already_replicated ::
    "env \<Rightarrow> string \<Rightarrow> replicated_delivery_confirmation \<Rightarrow> delivery_state_record \<Rightarrow> db \<Rightarrow> cas_result outcome \<times> db" where
  "confirm_already_replicated e event_id confirmation current d =
     cas_try d (load_verified_lifecycle_for_transition e d event_id) (\<lambda>lifecycle.
     cas_try d (cas_guard (ps_delivery_status lifecycle \<noteq> ''REPLICATED'')
       (CasCorrupted event_id ''replicated delivery state without replicated lifecycle'')) (\<lambda>_.
     (Done (if same_confirmation current confirmation then AlreadyConfirmed
            else CasCorrupted event_id ''conflicting replicated confirmation metadata''), d)))"

text \<open>The guards of a confirmation, in order.\<close>

definition confirm_guards ::
    "string \<Rightarrow> i64 \<Rightarrow> replicated_delivery_confirmation \<Rightarrow> delivery_state_record \<Rightarrow> cas_result + unit" where
  "confirm_guards event_id expected_delivery_revision confirmation current = try_all
     [cas_guard (ds_delivery_revision current \<noteq> expected_delivery_revision) StaleRevision,
      cas_guard (ds_routing_fingerprint current \<noteq> Some (rc_expected_routing_fingerprint confirmation))
        (CasCorrupted event_id ''routing fingerprint mismatch''),
      cas_guard (ds_profile_id current \<noteq> Some (rc_expected_profile_id confirmation) \<or>
          ds_profile_version current \<noteq> Some (rc_expected_profile_version confirmation))
        (CasCorrupted event_id ''profile mismatch''),
      cas_guard (ds_kafka_topic current \<noteq> Some (rc_kafka_topic confirmation))
        (CasCorrupted event_id ''kafka topic mismatch'')]"

definition confirmed_record ::
    "env \<Rightarrow> replicated_delivery_confirmation \<Rightarrow> i64 \<Rightarrow> delivery_state_record \<Rightarrow> delivery_state_record" where
  "confirmed_record e confirmation new_rev current =
     current\<lparr>ds_delivery_status := ''REPLICATED'', ds_next_retry_at_ms := None, ds_last_error := None,
       ds_blocked_reason := None, ds_kafka_topic := Some (rc_kafka_topic confirmation),
       ds_kafka_partition := Some (rc_kafka_partition confirmation),
       ds_kafka_offset := Some (rc_kafka_offset confirmation), ds_delivery_revision := new_rev,
       ds_confirmed_at_ms := Some (env_now_ms e), ds_updated_at_ms := env_now_ms e\<rparr>"

text \<open>
  The end of both transactional transitions: the delivery row was updated, then the lifecycle row
  is, then the transaction is committed; \<open>d\<close> is the database to fall back to.
\<close>

definition finish_transition ::
    "env \<Rightarrow> string \<Rightarrow> persisted_status \<Rightarrow> string \<Rightarrow> db \<Rightarrow> db \<times> nat \<Rightarrow> cas_result outcome \<times> db" where
  "finish_transition e event_id lifecycle new_status d updated =
     (let (d1, affected) = updated in
      if affected \<noteq> 1 then (Done StaleRevision, d)
      else case update_lifecycle_delivery_status e event_id lifecycle new_status d1 of
        (Panicked, _) \<Rightarrow> (Panicked, d)
      | (Done Updated, d2) \<Rightarrow> cas_try d (cas_sql (sql e SqlCommit d2)) (\<lambda>d3. (Done Updated, d3))
      | (Done other, _) \<Rightarrow> (Done other, d))"

definition confirm_replicated_delivery_db ::
    "env \<Rightarrow> string \<Rightarrow> i64 \<Rightarrow> replicated_delivery_confirmation \<Rightarrow> db \<Rightarrow> cas_result outcome \<times> db" where
  "confirm_replicated_delivery_db e event_id expected_delivery_revision confirmation d =
     cas_try d (cas_sql (sql e SqlBegin ())) (\<lambda>_.
     cas_try d (delivery_or_return (load_delivery_state e d event_id)) (\<lambda>current.
     if ds_delivery_status current = ''REPLICATED''
     then confirm_already_replicated e event_id confirmation current d
     else
       cas_try d (load_verified_lifecycle_for_transition e d event_id) (\<lambda>lifecycle.
       cas_try d (confirm_guards event_id expected_delivery_revision confirmation current) (\<lambda>_.
       cas_arith d (arith_i64 (env_overflow_checks e) (expected_delivery_revision + 1)) (\<lambda>new_rev.
       let checksum = compute_delivery_checksum e (confirmed_record e confirmation new_rev current) in
       cas_try d (cas_sql (sql e SqlUpdateDelivery
         (update_delivery_row event_id expected_delivery_revision
           (\<lambda>r. r\<lparr>dr_delivery_status := ''REPLICATED'', dr_kafka_topic := Some (rc_kafka_topic confirmation),
              dr_kafka_partition := Some (rc_kafka_partition confirmation),
              dr_kafka_offset := Some (rc_kafka_offset confirmation), dr_delivery_revision := new_rev,
              dr_delivery_checksum := bytes_of checksum, dr_confirmed_at_ms := Some (env_now_ms e),
              dr_updated_at_ms := env_now_ms e, dr_next_retry_at_ms := None, dr_last_error := None,
              dr_blocked_reason := None\<rparr>) d)))
         (finish_transition e event_id lifecycle ''REPLICATED'' d))))))"

definition blocked_record :: "env \<Rightarrow> string \<Rightarrow> i64 \<Rightarrow> delivery_state_record \<Rightarrow> delivery_state_record" where
  "blocked_record e reason new_rev current =
     current\<lparr>ds_delivery_status := ''DELIVERY_BLOCKED'', ds_next_retry_at_ms := None,
       ds_blocked_reason := Some reason, ds_delivery_revision := new_rev, ds_updated_at_ms := env_now_ms e\<rparr>"

definition block_delivery_db :: "env \<Rightarrow> string \<Rightarrow> i64 \<Rightarrow> string \<Rightarrow> db \<Rightarrow> cas_result outcome \<times> db" where
  "block_delivery_db e event_id expected_delivery_revision reason d =
     cas_try d (cas_sql (sql e SqlBegin ())) (\<lambda>_.
     cas_try d (delivery_or_return (load_delivery_state e d event_id)) (\<lambda>current.
     cas_try d (load_verified_lifecycle_for_transition e d event_id) (\<lambda>lifecycle.
     cas_try d (cas_guard (ds_delivery_revision current \<noteq> expected_delivery_revision) StaleRevision) (\<lambda>_.
     cas_try d (cas_guard (ds_delivery_status current = ''REPLICATED'') InvalidTransition) (\<lambda>_.
     cas_arith d (arith_i64 (env_overflow_checks e) (expected_delivery_revision + 1)) (\<lambda>new_rev.
     let checksum = compute_delivery_checksum e (blocked_record e reason new_rev current) in
     cas_try d (cas_sql (sql e SqlUpdateDelivery
       (update_delivery_row event_id expected_delivery_revision
         (\<lambda>r. r\<lparr>dr_delivery_status := ''DELIVERY_BLOCKED'', dr_blocked_reason := Some reason,
            dr_delivery_revision := new_rev, dr_delivery_checksum := bytes_of checksum,
            dr_updated_at_ms := env_now_ms e, dr_next_retry_at_ms := None\<rparr>) d)))
       (finish_transition e event_id lifecycle ''DELIVERY_BLOCKED'' d)))))))"

definition retrying_record :: "env \<Rightarrow> i64 \<Rightarrow> i64 \<Rightarrow> delivery_state_record \<Rightarrow> delivery_state_record" where
  "retrying_record e next_retry_at_ms new_rev current =
     current\<lparr>ds_delivery_status := ''DELIVERY_RETRYING'', ds_next_retry_at_ms := Some next_retry_at_ms,
       ds_delivery_revision := new_rev, ds_updated_at_ms := env_now_ms e\<rparr>"

definition update_delivery_retry_db :: "env \<Rightarrow> string \<Rightarrow> i64 \<Rightarrow> i64 \<Rightarrow> db \<Rightarrow> cas_result outcome \<times> db" where
  "update_delivery_retry_db e event_id expected_delivery_revision next_retry_at_ms d =
     cas_try d (delivery_or_return (load_delivery_state e d event_id)) (\<lambda>current.
     cas_try d (cas_guard (ds_delivery_revision current \<noteq> expected_delivery_revision) StaleRevision) (\<lambda>_.
     cas_try d (cas_guard (ds_delivery_status current = ''REPLICATED'') InvalidTransition) (\<lambda>_.
     cas_arith d (arith_i64 (env_overflow_checks e) (expected_delivery_revision + 1)) (\<lambda>new_rev.
     let checksum = compute_delivery_checksum e (retrying_record e next_retry_at_ms new_rev current) in
     cas_try d (cas_sql (sql e SqlUpdateDelivery
       (update_delivery_row event_id expected_delivery_revision
         (\<lambda>r. r\<lparr>dr_delivery_status := ''DELIVERY_RETRYING'', dr_next_retry_at_ms := Some next_retry_at_ms,
            dr_delivery_revision := new_rev, dr_delivery_checksum := bytes_of checksum,
            dr_updated_at_ms := env_now_ms e\<rparr>) d)))
       (\<lambda>(d', affected). (Done (cas_affected ''delivery retry update'' affected), d'))))))"

subsection \<open>The methods of the journal\<close>

definition get_status :: "env \<Rightarrow> string \<Rightarrow> local_journal \<Rightarrow> status_result outcome \<times> local_journal" where
  "get_status e event_id = with_conn (\<lambda>d. (Done (get_status_impl e d event_id), d))"

definition read_verified_payload :: "env \<Rightarrow> string \<Rightarrow> local_journal \<Rightarrow> payload_read_result outcome \<times> local_journal" where
  "read_verified_payload e event_id = with_conn (\<lambda>d. (Done (read_verified_payload_impl e d event_id), d))"

definition get_delivery_state :: "env \<Rightarrow> string \<Rightarrow> local_journal \<Rightarrow> delivery_state_result outcome \<times> local_journal" where
  "get_delivery_state e event_id = with_conn (\<lambda>d. (Done (load_delivery_state e d event_id), d))"

definition get_delivery_candidate ::
    "env \<Rightarrow> string \<Rightarrow> local_journal \<Rightarrow> delivery_candidate_result outcome \<times> local_journal" where
  "get_delivery_candidate e event_id = with_conn (\<lambda>d. (Done (load_delivery_candidate e d event_id), d))"

definition update_lifecycle ::
    "env \<Rightarrow> string \<Rightarrow> i64 \<Rightarrow> local_delivery_status \<Rightarrow> local_retention_status \<Rightarrow> local_journal
       \<Rightarrow> cas_result outcome \<times> local_journal" where
  "update_lifecycle e event_id rv ds rs = with_conn (update_lifecycle_db e event_id rv ds rs)"

definition create_delivery_pending ::
    "env \<Rightarrow> string \<Rightarrow> checksum \<Rightarrow> string \<Rightarrow> i32 \<Rightarrow> string \<Rightarrow> local_journal \<Rightarrow> cas_result outcome \<times> local_journal" where
  "create_delivery_pending e event_id rf pid pv topic = with_conn (create_delivery_pending_db e event_id rf pid pv topic)"

definition record_delivery_attempt ::
    "env \<Rightarrow> delivery_attempt_record \<Rightarrow> local_journal \<Rightarrow> cas_result outcome \<times> local_journal" where
  "record_delivery_attempt e attempt = with_conn (record_delivery_attempt_db e attempt)"

definition confirm_replicated_delivery ::
    "env \<Rightarrow> string \<Rightarrow> i64 \<Rightarrow> replicated_delivery_confirmation \<Rightarrow> local_journal \<Rightarrow> cas_result outcome \<times> local_journal" where
  "confirm_replicated_delivery e event_id rv confirmation = with_conn (confirm_replicated_delivery_db e event_id rv confirmation)"

definition block_delivery ::
    "env \<Rightarrow> string \<Rightarrow> i64 \<Rightarrow> string \<Rightarrow> local_journal \<Rightarrow> cas_result outcome \<times> local_journal" where
  "block_delivery e event_id rv reason = with_conn (block_delivery_db e event_id rv reason)"

definition update_delivery_retry ::
    "env \<Rightarrow> string \<Rightarrow> i64 \<Rightarrow> i64 \<Rightarrow> local_journal \<Rightarrow> cas_result outcome \<times> local_journal" where
  "update_delivery_retry e event_id rv next_retry_at_ms = with_conn (update_delivery_retry_db e event_id rv next_retry_at_ms)"

end
