(* ===== verification/Journal_Transitions.thy ===== *)
theory Journal_Transitions
  imports Journal_Delivery
begin

text \<open>
  What the writing operations on lifecycle and delivery states do. An operation that does not
  answer \<^verbatim>\<open>Updated\<close> leaves the database unchanged; one that does replaces exactly one delivery row
  by the encoding of the next record (\<open>stored\<close>) and, for the transactional ones, the lifecycle
  row with it.
\<close>

subsection \<open>Early returns\<close>

lemma cas_try_eq:
  "cas_try d x f = (r, d') \<longleftrightarrow> (\<exists>y. x = Inl y \<and> r = Done y \<and> d' = d) \<or> (\<exists>a. x = Inr a \<and> f a = (r, d'))"
  by (cases x) (auto simp: cas_try_def)

lemma cas_arith_eq:
  "cas_arith d x f = (r, d') \<longleftrightarrow> (x = Panicked \<and> r = Panicked \<and> d' = d) \<or> (\<exists>a. x = Done a \<and> f a = (r, d'))"
  by (cases x) (auto simp: cas_arith_def)

lemma cas_sql_simps:
  "cas_sql x = Inl y \<longleftrightarrow> (\<exists>m. x = Inl m \<and> y = CasError m)" "cas_sql x = Inr a \<longleftrightarrow> x = Inr a"
  by (auto simp: cas_sql_def split: sum.splits)

lemma cas_guard_simps [simp]:
  "cas_guard b r = Inl y \<longleftrightarrow> b \<and> y = r" "cas_guard b r = Inr u \<longleftrightarrow> \<not> b"
  by (auto simp: cas_guard_def)

lemma cas_affected_Updated [simp]: "cas_affected what n = Updated \<longleftrightarrow> n = 1"
  by (simp add: cas_affected_def)

lemma delivery_or_return_Inr [simp]: "delivery_or_return x = Inr s \<longleftrightarrow> x = DeliveryFound s"
  by (auto simp: delivery_or_return_def split: delivery_state_result.splits)

lemma delivery_or_return_Inl: "delivery_or_return x = Inl y \<Longrightarrow> y \<noteq> Updated"
  by (auto simp: delivery_or_return_def split: delivery_state_result.splits)

lemma load_verified_lifecycle_Inr [simp]:
  "load_verified_lifecycle_for_transition e d eid = Inr s \<longleftrightarrow> get_status_impl e d eid = StatusFound s"
  by (auto simp: load_verified_lifecycle_for_transition_def split: status_result.splits)

lemma load_verified_lifecycle_Inl: "load_verified_lifecycle_for_transition e d eid = Inl y \<Longrightarrow> y \<noteq> Updated"
  by (auto simp: load_verified_lifecycle_for_transition_def split: status_result.splits)

lemma confirm_guards_Inr:
  "confirm_guards eid rv c s = Inr u \<longleftrightarrow>
     ds_delivery_revision s = rv \<and> ds_routing_fingerprint s = Some (rc_expected_routing_fingerprint c) \<and>
     ds_profile_id s = Some (rc_expected_profile_id c) \<and> ds_profile_version s = Some (rc_expected_profile_version c) \<and>
     ds_kafka_topic s = Some (rc_kafka_topic c)"
  by (auto simp: confirm_guards_def cas_guard_def)

lemma confirm_guards_Inl: "confirm_guards eid rv c s = Inl y \<Longrightarrow> y \<noteq> Updated"
  by (auto simp: confirm_guards_def cas_guard_def split: if_splits)

lemmas cas_simps = cas_try_eq cas_arith_eq cas_sql_simps Let_def

lemmas cas_not_updated = delivery_or_return_Inl load_verified_lifecycle_Inl confirm_guards_Inl

subsection \<open>Conditional updates\<close>

lemma update_lifecycle_row_fields [simp]:
  "db_envelopes (fst (update_lifecycle_row eid rv f d)) = db_envelopes d"
  "db_payloads (fst (update_lifecycle_row eid rv f d)) = db_payloads d"
  "db_dedups (fst (update_lifecycle_row eid rv f d)) = db_dedups d"
  "db_producer_sequences (fst (update_lifecycle_row eid rv f d)) = db_producer_sequences d"
  "db_stream_heads (fst (update_lifecycle_row eid rv f d)) = db_stream_heads d"
  "db_deliveries (fst (update_lifecycle_row eid rv f d)) = db_deliveries d"
  "db_write_attempts (fst (update_lifecycle_row eid rv f d)) = db_write_attempts d"
  "db_write_attempt_seq (fst (update_lifecycle_row eid rv f d)) = db_write_attempt_seq d"
  "db_delivery_attempts (fst (update_lifecycle_row eid rv f d)) = db_delivery_attempts d"
  "db_delivery_attempt_seq (fst (update_lifecycle_row eid rv f d)) = db_delivery_attempt_seq d"
  by (simp_all add: update_lifecycle_row_def case_prod_beta)

lemma update_delivery_row_fields [simp]:
  "db_envelopes (fst (update_delivery_row eid rv f d)) = db_envelopes d"
  "db_payloads (fst (update_delivery_row eid rv f d)) = db_payloads d"
  "db_lifecycles (fst (update_delivery_row eid rv f d)) = db_lifecycles d"
  "db_dedups (fst (update_delivery_row eid rv f d)) = db_dedups d"
  "db_producer_sequences (fst (update_delivery_row eid rv f d)) = db_producer_sequences d"
  "db_stream_heads (fst (update_delivery_row eid rv f d)) = db_stream_heads d"
  "db_write_attempts (fst (update_delivery_row eid rv f d)) = db_write_attempts d"
  "db_write_attempt_seq (fst (update_delivery_row eid rv f d)) = db_write_attempt_seq d"
  "db_delivery_attempts (fst (update_delivery_row eid rv f d)) = db_delivery_attempts d"
  "db_delivery_attempt_seq (fst (update_delivery_row eid rv f d)) = db_delivery_attempt_seq d"
  by (simp_all add: update_delivery_row_def case_prod_beta)

lemma find_update_lifecycle_row:
  assumes "\<And>r. ls_event_id (f r) = ls_event_id r"
  shows "find_lifecycle (fst (update_lifecycle_row eid rv f d)) eid' =
    map_option (\<lambda>r. if eid' = eid \<and> ls_revision r = rv then f r else r) (find_lifecycle d eid')"
  using select_update_rows [of ls_event_id f, OF assms]
  by (simp add: update_lifecycle_row_def case_prod_beta)

lemma find_update_delivery_row:
  assumes "\<And>r. dr_event_id (f r) = dr_event_id r"
  shows "find_delivery (fst (update_delivery_row eid rv f d)) eid' =
    map_option (\<lambda>r. if eid' = eid \<and> dr_delivery_revision r = rv then f r else r) (find_delivery d eid')"
  using select_update_rows [of dr_event_id f, OF assms]
  by (simp add: update_delivery_row_def case_prod_beta)

lemma update_lifecycle_row_count:
  assumes "distinct (map ls_event_id (db_lifecycles d))"
  shows "snd (update_lifecycle_row eid rv f d) =
    (case find_lifecycle d eid of None \<Rightarrow> 0 | Some r \<Rightarrow> if ls_revision r = rv then 1 else 0)"
  using update_rows_count [OF assms, of eid "\<lambda>r. ls_revision r = rv" f]
  by (simp add: update_lifecycle_row_def case_prod_beta)

lemma update_delivery_row_count:
  assumes "distinct (map dr_event_id (db_deliveries d))"
  shows "snd (update_delivery_row eid rv f d) =
    (case find_delivery d eid of None \<Rightarrow> 0 | Some r \<Rightarrow> if dr_delivery_revision r = rv then 1 else 0)"
  using update_rows_count [OF assms, of eid "\<lambda>r. dr_delivery_revision r = rv" f]
  by (simp add: update_delivery_row_def case_prod_beta)

lemma keys_update_lifecycle_row:
  "(\<And>r. ls_event_id (f r) = ls_event_id r) \<Longrightarrow>
     map ls_event_id (db_lifecycles (fst (update_lifecycle_row eid rv f d))) = map ls_event_id (db_lifecycles d)"
  using map_key_update_rows [of ls_event_id f "\<lambda>r. ls_event_id r = eid \<and> ls_revision r = rv" "db_lifecycles d"]
  by (simp add: update_lifecycle_row_def case_prod_beta)

lemma keys_update_delivery_row:
  "(\<And>r. dr_event_id (f r) = dr_event_id r) \<Longrightarrow>
     map dr_event_id (db_deliveries (fst (update_delivery_row eid rv f d))) = map dr_event_id (db_deliveries d)"
  using map_key_update_rows [of dr_event_id f "\<lambda>r. dr_event_id r = eid \<and> dr_delivery_revision r = rv" "db_deliveries d"]
  by (simp add: update_delivery_row_def case_prod_beta)

subsection \<open>Operations that do not update change nothing\<close>

lemma finish_transition_cases:
  assumes "finish_transition e eid l st d (d1, n) = (r, d')"
  obtains "r \<noteq> Done Updated" "d' = d"
  | lrev where "r = Done Updated" "n = 1"
      "arith_i64 (env_overflow_checks e) (ps_lifecycle_revision l + 1) = Done lrev"
      "update_lifecycle_row eid (ps_lifecycle_revision l)
         (\<lambda>r. r\<lparr>ls_revision := lrev,
            ls_lifecycle_checksum := bytes_of (compute_lifecycle_checksum e eid lrev st (ps_retention_status l)),
            ls_delivery_status := st, ls_updated_at_ms := env_now_ms e\<rparr>) d1 = (d', 1)"
  using assms
  by (auto simp: finish_transition_def update_lifecycle_delivery_status_def cas_arith_def cas_try_def cas_sql_def sql_def
      case_prod_beta split: if_splits outcome.splits sum.splits option.splits cas_result.splits)

lemma finish_transition_unchanged:
  "finish_transition e eid l st d u = (r, d') \<Longrightarrow> r \<noteq> Done Updated \<Longrightarrow> d' = d"
  by (cases u) (auto elim: finish_transition_cases)

lemma confirm_unchanged:
  "confirm_replicated_delivery_db e eid rv c d = (r, d') \<Longrightarrow> r \<noteq> Done Updated \<Longrightarrow> d' = d"
  unfolding confirm_replicated_delivery_db_def confirm_already_replicated_def
  by (auto simp: cas_simps sql_Inr dest: finish_transition_unchanged split: if_splits)

lemma block_unchanged: "block_delivery_db e eid rv c d = (r, d') \<Longrightarrow> r \<noteq> Done Updated \<Longrightarrow> d' = d"
  unfolding block_delivery_db_def
  by (auto simp: cas_simps sql_Inr dest: finish_transition_unchanged split: if_splits)

lemma create_unchanged:
  "create_delivery_pending_db e eid rf pid pv topic d = (r, d') \<Longrightarrow> r \<noteq> Done Updated \<Longrightarrow> d' = d"
  unfolding create_delivery_pending_db_def by (auto simp: cas_simps)

lemma record_delivery_unchanged:
  "record_delivery_attempt_db e a d = (r, d') \<Longrightarrow> r \<noteq> Done Updated \<Longrightarrow> d' = d"
  unfolding record_delivery_attempt_db_def by (auto simp: cas_simps split: if_splits)

text \<open>
  The two operations without a transaction rely on the primary key: the update touches at most one
  row, so a count other than one means that none was touched.
\<close>

lemma update_rows_none: "snd (update_rows p f rows) = 0 \<Longrightarrow> fst (update_rows p f rows) = rows"
  by (auto simp: update_rows_def filter_empty_conv intro: map_idI)

lemma update_delivery_row_none: "snd (update_delivery_row eid rv f d) = 0 \<Longrightarrow> fst (update_delivery_row eid rv f d) = d"
  by (simp add: update_delivery_row_def case_prod_beta update_rows_none)

lemma update_lifecycle_row_none: "snd (update_lifecycle_row eid rv f d) = 0 \<Longrightarrow> fst (update_lifecycle_row eid rv f d) = d"
  by (simp add: update_lifecycle_row_def case_prod_beta update_rows_none)

lemma retry_unchanged:
  assumes "update_delivery_retry_db e eid rv t d = (r, d')" "r \<noteq> Done Updated"
    and "distinct (map dr_event_id (db_deliveries d))"
  shows "d' = d"
proof -
  have "snd (update_delivery_row eid rv f d) = Suc 0 \<or> fst (update_delivery_row eid rv f d) = d" for f
    using update_delivery_row_count [OF assms(3), of eid rv f] update_delivery_row_none [of eid rv f d]
    by (auto split: option.splits if_splits)
  with assms(1,2) show ?thesis
    unfolding update_delivery_retry_db_def by (auto simp: cas_simps sql_Inr case_prod_beta) blast
qed

lemma update_lifecycle_unchanged:
  assumes "update_lifecycle_db e eid rv ds rs d = (r, d')" "r \<noteq> Done Updated"
    and "distinct (map ls_event_id (db_lifecycles d))"
  shows "d' = d"
proof -
  have "snd (update_lifecycle_row eid rv f d) = Suc 0 \<or> fst (update_lifecycle_row eid rv f d) = d" for f
    using update_lifecycle_row_count [OF assms(3), of eid rv f] update_lifecycle_row_none [of eid rv f d]
    by (auto split: option.splits if_splits)
  with assms(1,2) show ?thesis
    unfolding update_lifecycle_db_def
    by (auto simp: cas_simps sql_Inr case_prod_beta split: status_result.splits) blast
qed

subsection \<open>Successful operations\<close>

definition stored :: "env \<Rightarrow> delivery_state_record \<Rightarrow> delivery_state_record" where
  "stored e s = s\<lparr>ds_delivery_checksum := compute_delivery_checksum e s\<rparr>"

lemma compute_delivery_checksum_ignores [simp]:
  "compute_delivery_checksum e (s\<lparr>ds_delivery_checksum := c\<rparr>) = compute_delivery_checksum e s"
  "compute_delivery_checksum e (s\<lparr>ds_updated_at_ms := t\<rparr>) = compute_delivery_checksum e s"
  by (simp_all add: compute_delivery_checksum_def delivery_encoding_def)

text \<open>The lifecycle row after a transition.\<close>

definition lifecycle_after :: "env \<Rightarrow> i64 \<Rightarrow> string \<Rightarrow> lifecycle_row \<Rightarrow> lifecycle_row" where
  "lifecycle_after e lrev st l = l\<lparr>ls_revision := lrev,
     ls_lifecycle_checksum := bytes_of (compute_lifecycle_checksum e (ls_event_id l) lrev st (ls_retention_status l)),
     ls_delivery_status := st, ls_updated_at_ms := env_now_ms e\<rparr>"

text \<open>
  A transactional transition of event \<open>eid\<close>: the delivery row becomes \<open>s'\<close>, the lifecycle row takes
  the status \<open>st\<close>, every other row of both tables keeps its value.
\<close>

definition transitioned :: "env \<Rightarrow> string \<Rightarrow> delivery_state_record \<Rightarrow> string \<Rightarrow> db \<Rightarrow> db \<Rightarrow> bool" where
  "transitioned e eid s' st d d' \<longleftrightarrow>
     find_delivery d' eid = Some (delivery_row_of (stored e s')) \<and>
     (\<exists>l lrev. find_lifecycle d eid = Some l \<and> lifecycle_ok e l \<and>
        arith_i64 (env_overflow_checks e) (ls_revision l + 1) = Done lrev \<and>
        find_lifecycle d' eid = Some (lifecycle_after e lrev st l)) \<and>
     (\<forall>k. k \<noteq> eid \<longrightarrow> find_delivery d' k = find_delivery d k \<and> find_lifecycle d' k = find_lifecycle d k) \<and>
     map ls_event_id (db_lifecycles d') = map ls_event_id (db_lifecycles d) \<and>
     map dr_event_id (db_deliveries d') = map dr_event_id (db_deliveries d) \<and>
     d' = d\<lparr>db_deliveries := db_deliveries d', db_lifecycles := db_lifecycles d'\<rparr>"

lemma finish_transition_transitioned:
  assumes fin: "finish_transition e eid l st d (update_delivery_row eid rv f d) = (Done Updated, d')"
    and st: "get_status_impl e d eid = StatusFound l"
    and cur: "find_delivery d eid = Some (delivery_row_of s)" "ds_delivery_revision s = rv"
    and f: "\<And>r. dr_event_id (f r) = dr_event_id r" "f (delivery_row_of s) = delivery_row_of (stored e s')"
  shows "transitioned e eid s' st d d'"
proof -
  obtain d1 n where d1: "update_delivery_row eid rv f d = (d1, n)" by fastforce
  let ?g = "\<lambda>lrev r. r\<lparr>ls_revision := lrev,
    ls_lifecycle_checksum := bytes_of (compute_lifecycle_checksum e eid lrev st (ps_retention_status l)),
    ls_delivery_status := st, ls_updated_at_ms := env_now_ms e\<rparr>"
  from fin obtain lrev where ar: "arith_i64 (env_overflow_checks e) (ps_lifecycle_revision l + 1) = Done lrev"
    and d': "update_lifecycle_row eid (ps_lifecycle_revision l) (?g lrev) d1 = (d', 1)"
    unfolding d1 by (auto elim: finish_transition_cases)
  from st obtain row where row: "find_lifecycle d eid = Some row" "lifecycle_ok e row"
    "ps_lifecycle_revision l = ls_revision row" "ps_retention_status l = ls_retention_status row" "ls_event_id row = eid"
    by (auto simp: get_status_Found describes_def dest: select_row_Some_in)
  note d1' = update_delivery_row_fields [of eid rv f d, unfolded d1 fst_conv]
    find_update_delivery_row [OF f(1), where eid = eid and rv = rv and d = d, unfolded d1 fst_conv]
    keys_update_delivery_row [OF f(1), where eid = eid and rv = rv and d = d, unfolded d1 fst_conv]
  note d'' = update_lifecycle_row_fields [of eid "ps_lifecycle_revision l" "?g lrev" d1, unfolded d' fst_conv]
    find_update_lifecycle_row [where f = "?g lrev" and eid = eid and rv = "ps_lifecycle_revision l" and d = d1,
      unfolded d' fst_conv, simplified]
    keys_update_lifecycle_row [where f = "?g lrev" and eid = eid and rv = "ps_lifecycle_revision l" and d = d1,
      unfolded d' fst_conv, simplified]
  have "find_lifecycle d' eid = Some (lifecycle_after e lrev st row)"
    by (simp add: d'' d1' row lifecycle_after_def)
  moreover have "find_delivery d' eid = Some (delivery_row_of (stored e s'))"
    using cur by (simp add: d'' d1' f(2)) (simp add: delivery_row_of_def)
  moreover have "d' = d\<lparr>db_deliveries := db_deliveries d', db_lifecycles := db_lifecycles d'\<rparr>"
    by (simp add: d'' d1')
  ultimately show ?thesis using row ar by (auto simp: transitioned_def d'' d1' option.map_ident)
qed

lemma confirm_Updated:
  assumes "confirm_replicated_delivery_db e eid rv c d = (Done Updated, d')"
  obtains s new_rev where "load_delivery_state e d eid = DeliveryFound s" "ds_delivery_status s \<noteq> ''REPLICATED''"
    "confirm_guards eid rv c s = Inr ()" "arith_i64 (env_overflow_checks e) (rv + 1) = Done new_rev"
    "transitioned e eid (confirmed_record e c new_rev s) ''REPLICATED'' d d'"
proof -
  from assms obtain s l new_rev where s: "load_delivery_state e d eid = DeliveryFound s"
    and st: "ds_delivery_status s \<noteq> ''REPLICATED''" and g: "confirm_guards eid rv c s = Inr ()"
    and l: "get_status_impl e d eid = StatusFound l"
    and ar: "arith_i64 (env_overflow_checks e) (rv + 1) = Done new_rev"
    and fin: "finish_transition e eid l ''REPLICATED'' d (update_delivery_row eid rv
           (\<lambda>r. r\<lparr>dr_delivery_status := ''REPLICATED'', dr_kafka_topic := Some (rc_kafka_topic c),
              dr_kafka_partition := Some (rc_kafka_partition c),
              dr_kafka_offset := Some (rc_kafka_offset c), dr_delivery_revision := new_rev,
              dr_delivery_checksum := bytes_of (compute_delivery_checksum e (confirmed_record e c new_rev s)),
              dr_confirmed_at_ms := Some (env_now_ms e),
              dr_updated_at_ms := env_now_ms e, dr_next_retry_at_ms := None, dr_last_error := None,
              dr_blocked_reason := None\<rparr>) d) = (Done Updated, d')"
    unfolding confirm_replicated_delivery_db_def confirm_already_replicated_def
    by (auto simp: cas_simps sql_Inr dest: cas_not_updated split: if_splits)
  have "transitioned e eid (confirmed_record e c new_rev s) ''REPLICATED'' d d'"
    by (rule finish_transition_transitioned [OF fin l])
      (use s g in \<open>auto simp: load_delivery_Found confirm_guards_Inr delivery_row_of_def stored_def confirmed_record_def\<close>)
  with s st g ar show ?thesis by (rule that)
qed

lemma block_Updated:
  assumes "block_delivery_db e eid rv reason d = (Done Updated, d')"
  obtains s new_rev where "load_delivery_state e d eid = DeliveryFound s" "ds_delivery_status s \<noteq> ''REPLICATED''"
    "ds_delivery_revision s = rv" "arith_i64 (env_overflow_checks e) (rv + 1) = Done new_rev"
    "transitioned e eid (blocked_record e reason new_rev s) ''DELIVERY_BLOCKED'' d d'"
proof -
  from assms obtain s l new_rev where s: "load_delivery_state e d eid = DeliveryFound s"
    and st: "ds_delivery_status s \<noteq> ''REPLICATED''" "ds_delivery_revision s = rv"
    and l: "get_status_impl e d eid = StatusFound l"
    and ar: "arith_i64 (env_overflow_checks e) (rv + 1) = Done new_rev"
    and fin: "finish_transition e eid l ''DELIVERY_BLOCKED'' d (update_delivery_row eid rv
         (\<lambda>r. r\<lparr>dr_delivery_status := ''DELIVERY_BLOCKED'', dr_blocked_reason := Some reason,
            dr_delivery_revision := new_rev,
            dr_delivery_checksum := bytes_of (compute_delivery_checksum e (blocked_record e reason new_rev s)),
            dr_updated_at_ms := env_now_ms e, dr_next_retry_at_ms := None\<rparr>) d) = (Done Updated, d')"
    unfolding block_delivery_db_def by (auto simp: cas_simps sql_Inr dest: cas_not_updated)
  have "transitioned e eid (blocked_record e reason new_rev s) ''DELIVERY_BLOCKED'' d d'"
    by (rule finish_transition_transitioned [OF fin l])
      (use s st in \<open>auto simp: load_delivery_Found delivery_row_of_def stored_def blocked_record_def\<close>)
  with s st ar show ?thesis by (intro that)
qed

text \<open>An update of the delivery row alone.\<close>

definition delivery_replaced :: "env \<Rightarrow> string \<Rightarrow> delivery_state_record \<Rightarrow> db \<Rightarrow> db \<Rightarrow> bool" where
  "delivery_replaced e eid s' d d' \<longleftrightarrow>
     find_delivery d' eid = Some (delivery_row_of s') \<and> (\<forall>k. k \<noteq> eid \<longrightarrow> find_delivery d' k = find_delivery d k) \<and>
     map dr_event_id (db_deliveries d') = map dr_event_id (db_deliveries d) \<and>
     d' = d\<lparr>db_deliveries := db_deliveries d', db_delivery_attempts := db_delivery_attempts d',
       db_delivery_attempt_seq := db_delivery_attempt_seq d'\<rparr>"

lemma update_delivery_row_replaced:
  assumes "find_delivery d eid = Some (delivery_row_of s)" "ds_delivery_revision s = rv"
    and "\<And>r. dr_event_id (f r) = dr_event_id r" "f (delivery_row_of s) = delivery_row_of s'"
  shows "delivery_replaced e eid s' d (fst (update_delivery_row eid rv f d))"
proof -
  have "dr_delivery_revision (delivery_row_of s) = rv" using assms(2) by (simp add: delivery_row_of_def)
  moreover have "fst (update_delivery_row eid rv f d) =
      d\<lparr>db_deliveries := db_deliveries (fst (update_delivery_row eid rv f d))\<rparr>"
    by (simp add: update_delivery_row_def case_prod_beta)
  ultimately show ?thesis
    using assms by (simp add: delivery_replaced_def find_update_delivery_row keys_update_delivery_row option.map_ident)
qed

lemma retry_Updated:
  assumes "update_delivery_retry_db e eid rv t d = (Done Updated, d')"
  obtains s new_rev where "load_delivery_state e d eid = DeliveryFound s" "ds_delivery_status s \<noteq> ''REPLICATED''"
    "ds_delivery_revision s = rv" "arith_i64 (env_overflow_checks e) (rv + 1) = Done new_rev"
    "delivery_replaced e eid (stored e (retrying_record e t new_rev s)) d d'"
    "db_delivery_attempts d' = db_delivery_attempts d" "db_delivery_attempt_seq d' = db_delivery_attempt_seq d"
proof -
  from assms obtain s new_rev where s: "load_delivery_state e d eid = DeliveryFound s"
    and st: "ds_delivery_status s \<noteq> ''REPLICATED''" "ds_delivery_revision s = rv"
    and ar: "arith_i64 (env_overflow_checks e) (rv + 1) = Done new_rev"
    and d': "d' = fst (update_delivery_row eid rv
         (\<lambda>r. r\<lparr>dr_delivery_status := ''DELIVERY_RETRYING'', dr_next_retry_at_ms := Some t,
            dr_delivery_revision := new_rev,
            dr_delivery_checksum := bytes_of (compute_delivery_checksum e (retrying_record e t new_rev s)),
            dr_updated_at_ms := env_now_ms e\<rparr>) d)"
    unfolding update_delivery_retry_db_def by (auto simp: cas_simps sql_Inr case_prod_beta dest: cas_not_updated)
  have "delivery_replaced e eid (stored e (retrying_record e t new_rev s)) d d'"
    unfolding d' by (rule update_delivery_row_replaced [where s = s])
      (use s st in \<open>auto simp: load_delivery_Found delivery_row_of_def stored_def retrying_record_def\<close>)
  with s st ar show ?thesis by (intro that) (simp_all add: d')
qed

lemma create_Updated:
  assumes "create_delivery_pending_db e eid rf pid pv topic d = (Done Updated, d')"
  shows "find_envelope d eid \<noteq> None" "find_delivery d eid = None"
    "d' = d\<lparr>db_deliveries := db_deliveries d @ [delivery_row_of (stored e (pending_record e eid rf pid pv topic))]\<rparr>"
proof -
  have "pending_row e eid rf pid pv topic = delivery_row_of (stored e (pending_record e eid rf pid pv topic))"
    by (simp add: pending_row_def delivery_row_of_def stored_def pending_record_def)
  with assms show "find_envelope d eid \<noteq> None" "find_delivery d eid = None"
    "d' = d\<lparr>db_deliveries := db_deliveries d @ [delivery_row_of (stored e (pending_record e eid rf pid pv topic))]\<rparr>"
    unfolding create_delivery_pending_db_def
    by (auto simp: cas_simps sql_Inr sql_checked_Inr insert_row_Some split: if_splits) (simp_all add: delivery_row_of_def stored_def pending_record_def)
qed

definition attempted_record :: "env \<Rightarrow> delivery_attempt_record \<Rightarrow> i32 \<Rightarrow> delivery_state_record \<Rightarrow> delivery_state_record" where
  "attempted_record e attempt n s =
     s\<lparr>ds_attempt_count := n, ds_last_error := da_error_code attempt, ds_updated_at_ms := env_now_ms e\<rparr>"

text \<open>The attempt history after recording: the new row is added, then all but the last 16 of its event are dropped.\<close>

definition attempts_after :: "delivery_attempt_record \<Rightarrow> db \<Rightarrow> delivery_attempt_row list" where
  "attempts_after attempt d = trim_rows dt_id (\<lambda>r. da_event_id (dt_attempt r) = da_event_id attempt) MAX_DELIVERY_ATTEMPTS
     (db_delivery_attempts d @ [\<lparr>dt_id = db_delivery_attempt_seq d + 1, dt_attempt = attempt\<rparr>])"

lemma attempt_history_Inr:
  "insert_delivery_attempt e attempt d = Inr d1 \<Longrightarrow> trim_delivery_attempts e (da_event_id attempt) d1 = Inr d2 \<Longrightarrow>
     find_envelope d (da_event_id attempt) \<noteq> None \<and>
     d2 = d\<lparr>db_delivery_attempts := attempts_after attempt d, db_delivery_attempt_seq := db_delivery_attempt_seq d + 1\<rparr>"
  by (auto simp: insert_delivery_attempt_def trim_delivery_attempts_def sql_Inr sql_checked_Inr fk_envelope_def
      attempts_after_def Let_def split: if_splits)

lemma record_delivery_steps:
  assumes "record_delivery_attempt_db e attempt d = (Done Updated, d')"
  obtains s n d1 d2 where "load_delivery_state e d (da_event_id attempt) = DeliveryFound s"
    "insert_delivery_attempt e attempt d = Inr d1" "trim_delivery_attempts e (da_event_id attempt) d1 = Inr d2"
    "arith_i32 (env_overflow_checks e) (ds_attempt_count s + 1) = Done n"
    "d' = fst (update_delivery_row (da_event_id attempt) (ds_delivery_revision s)
          (\<lambda>r. r\<lparr>dr_attempt_count := dr_attempt_count r + 1, dr_last_error := da_error_code attempt,
             dr_delivery_checksum := bytes_of (compute_delivery_checksum e (attempted_record e attempt n s)),
             dr_updated_at_ms := env_now_ms e\<rparr>) d2)"
  using assms unfolding record_delivery_attempt_db_def Let_def attempted_record_def [symmetric]
  by (auto simp: cas_try_eq cas_arith_eq cas_sql_simps sql_Inr case_prod_beta dest: cas_not_updated split: if_splits)

lemma record_delivery_Updated:
  assumes "record_delivery_attempt_db e attempt d = (Done Updated, d')"
  obtains s n where "load_delivery_state e d (da_event_id attempt) = DeliveryFound s"
    "find_envelope d (da_event_id attempt) \<noteq> None"
    "arith_i32 (env_overflow_checks e) (ds_attempt_count s + 1) = Done n"
    "delivery_replaced e (da_event_id attempt) (stored e (attempted_record e attempt n s)\<lparr>ds_attempt_count := ds_attempt_count s + 1\<rparr>) d d'"
    "db_delivery_attempts d' = attempts_after attempt d" "db_delivery_attempt_seq d' = db_delivery_attempt_seq d + 1"
proof -
  let ?eid = "da_event_id attempt"
  from assms obtain s n d1 d2 where s: "load_delivery_state e d ?eid = DeliveryFound s"
      "arith_i32 (env_overflow_checks e) (ds_attempt_count s + 1) = Done n"
    and hist: "insert_delivery_attempt e attempt d = Inr d1" "trim_delivery_attempts e ?eid d1 = Inr d2"
    and d': "d' = fst (update_delivery_row ?eid (ds_delivery_revision s)
          (\<lambda>r. r\<lparr>dr_attempt_count := dr_attempt_count r + 1, dr_last_error := da_error_code attempt,
             dr_delivery_checksum := bytes_of (compute_delivery_checksum e (attempted_record e attempt n s)),
             dr_updated_at_ms := env_now_ms e\<rparr>) d2)"
    by (rule record_delivery_steps)
  note d2 = attempt_history_Inr [OF hist]
  have "delivery_replaced e ?eid (stored e (attempted_record e attempt n s)\<lparr>ds_attempt_count := ds_attempt_count s + 1\<rparr>) d2 d'"
    unfolding d' by (rule update_delivery_row_replaced [where s = s])
      (use s d2 in \<open>auto simp: load_delivery_Found delivery_row_of_def stored_def attempted_record_def\<close>)
  then have "delivery_replaced e ?eid (stored e (attempted_record e attempt n s)\<lparr>ds_attempt_count := ds_attempt_count s + 1\<rparr>) d d'"
    using d2 by (simp add: delivery_replaced_def)
  with s d2 show ?thesis by (intro that) (simp_all add: d')
qed

lemma update_lifecycle_Updated:
  assumes "update_lifecycle_db e eid rv ds rs d = (Done Updated, d')"
  obtains l lrev where "find_lifecycle d eid = Some l" "ls_revision l = rv"
    "arith_i64 (env_overflow_checks e) (rv + 1) = Done lrev"
    "find_lifecycle d' eid = Some (lifecycle_after e lrev (local_delivery_as_str ds)
       (l\<lparr>ls_retention_status := local_retention_as_str rs\<rparr>))"
    "\<And>k. k \<noteq> eid \<Longrightarrow> find_lifecycle d' k = find_lifecycle d k"
    "map ls_event_id (db_lifecycles d') = map ls_event_id (db_lifecycles d)"
    "d' = d\<lparr>db_lifecycles := db_lifecycles d'\<rparr>"
proof -
  let ?f = "\<lambda>lrev r. r\<lparr>ls_revision := lrev, ls_lifecycle_checksum := bytes_of (compute_lifecycle_checksum e eid lrev
      (local_delivery_as_str ds) (local_retention_as_str rs)),
    ls_delivery_status := local_delivery_as_str ds, ls_retention_status := local_retention_as_str rs,
    ls_updated_at_ms := env_now_ms e\<rparr>"
  from assms obtain st lrev where st: "get_status_impl e d eid = StatusFound st" "ps_lifecycle_revision st = rv"
    and ar: "arith_i64 (env_overflow_checks e) (rv + 1) = Done lrev"
    and d': "d' = fst (update_lifecycle_row eid rv (?f lrev) d)"
    unfolding update_lifecycle_db_def by (auto simp: cas_simps sql_Inr case_prod_beta split: status_result.splits)
  from st obtain l where l: "find_lifecycle d eid = Some l" "ls_revision l = rv" "ls_event_id l = eid"
    by (auto simp: get_status_Found describes_def) (metis select_row_Some_in)
  have "find_lifecycle d' eid = Some (lifecycle_after e lrev (local_delivery_as_str ds)
      (l\<lparr>ls_retention_status := local_retention_as_str rs\<rparr>))"
    by (simp add: d' find_update_lifecycle_row l lifecycle_after_def)
  moreover have "d' = d\<lparr>db_lifecycles := db_lifecycles d'\<rparr>"
    by (simp add: d' update_lifecycle_row_def case_prod_beta)
  ultimately show ?thesis
    using l ar by (intro that [of l lrev])
      (simp_all add: d' find_update_lifecycle_row keys_update_lifecycle_row option.map_ident)
qed

end
