(* ===== verification/Journal_System.thy ===== *)
theory Journal_System
  imports Journal_Transitions
begin

text \<open>
  The journal as a state machine: one step is one call of a method, with an environment of its own
  (clock, disk guard, engine failures) and one digest function throughout. The premise on the
  schema version is its Rust type, \<^verbatim>\<open>i32\<close>. The properties hold in
  every state the methods can reach, in any order and with any failures: the database invariant,
  immutability of accepted events, finality of replicated deliveries.
\<close>

definition shutdown :: "local_journal \<Rightarrow> local_journal" where
  "shutdown j = j\<lparr>lj_shutdown := True\<rparr>"

inductive journal_step :: "(bytes \<Rightarrow> checksum) \<Rightarrow> local_journal \<Rightarrow> local_journal \<Rightarrow> bool" for sha where
  step_accept: "env_sha e = sha \<Longrightarrow> in_i32 (aq_schema_version req) \<Longrightarrow> accept e req j = (r, j') \<Longrightarrow> journal_step sha j j'"
| step_lifecycle: "env_sha e = sha \<Longrightarrow> update_lifecycle e eid rv ds rs j = (r, j') \<Longrightarrow> journal_step sha j j'"
| step_create: "env_sha e = sha \<Longrightarrow> create_delivery_pending e eid rf pid pv topic j = (r, j') \<Longrightarrow> journal_step sha j j'"
| step_attempt: "env_sha e = sha \<Longrightarrow> record_delivery_attempt e attempt j = (r, j') \<Longrightarrow> journal_step sha j j'"
| step_confirm: "env_sha e = sha \<Longrightarrow> confirm_replicated_delivery e eid rv c j = (r, j') \<Longrightarrow> journal_step sha j j'"
| step_block: "env_sha e = sha \<Longrightarrow> block_delivery e eid rv reason j = (r, j') \<Longrightarrow> journal_step sha j j'"
| step_retry: "env_sha e = sha \<Longrightarrow> update_delivery_retry e eid rv t j = (r, j') \<Longrightarrow> journal_step sha j j'"
| step_shutdown: "journal_step sha j (shutdown j)"

inductive journal_reach :: "(bytes \<Rightarrow> checksum) \<Rightarrow> local_journal \<Rightarrow> bool" for sha where
  fresh: "lj_db j = empty_db \<Longrightarrow> journal_reach sha j"
| again: "journal_reach sha j \<Longrightarrow> journal_step sha j j' \<Longrightarrow> journal_reach sha j'"

text \<open>What a step does to the database, as a relation on databases.\<close>

inductive db_step :: "(bytes \<Rightarrow> checksum) \<Rightarrow> db \<Rightarrow> db \<Rightarrow> bool" for sha where
  db_same: "db_step sha d d"
| db_history: "same_data d d' \<Longrightarrow> histories_ok d' \<Longrightarrow> db_step sha d d'"
| db_accept: "env_sha e = sha \<Longrightarrow> in_i32 (aq_schema_version req) \<Longrightarrow> accept_tx e req d = (Done (AcceptAccepted a), d') \<Longrightarrow> db_step sha d d'"
| db_lifecycle: "env_sha e = sha \<Longrightarrow> update_lifecycle_db e eid rv ds rs d = (Done Updated, d') \<Longrightarrow> db_step sha d d'"
| db_create: "env_sha e = sha \<Longrightarrow> create_delivery_pending_db e eid rf pid pv topic d = (Done Updated, d') \<Longrightarrow> db_step sha d d'"
| db_attempt: "env_sha e = sha \<Longrightarrow> record_delivery_attempt_db e attempt d = (Done Updated, d') \<Longrightarrow> db_step sha d d'"
| db_confirm: "env_sha e = sha \<Longrightarrow> confirm_replicated_delivery_db e eid rv c d = (Done Updated, d') \<Longrightarrow> db_step sha d d'"
| db_block: "env_sha e = sha \<Longrightarrow> block_delivery_db e eid rv reason d = (Done Updated, d') \<Longrightarrow> db_step sha d d'"
| db_retry: "env_sha e = sha \<Longrightarrow> update_delivery_retry_db e eid rv t d = (Done Updated, d') \<Longrightarrow> db_step sha d d'"

lemma with_conn_db:
  assumes "with_conn f j = (r, j')"
  obtains "lj_db j' = lj_db j" | r' where "f (lj_db j) = (r', lj_db j')"
  using assms by (cases rule: with_conn_cases) auto

text \<open>Every method call is one of these steps (on a journal whose keys are distinct).\<close>

lemma journal_step_db:
  assumes "journal_step sha j j'" "journal_inv (lj_db j)"
  shows "db_step sha (lj_db j) (lj_db j')"
  using assms(1)
proof cases
  case (step_accept e req r)
  from step_accept(3) show ?thesis
  proof (cases rule: accept_cases)
    case 1
    then show ?thesis by (simp add: db_same)
  next
    case (2 d)
    with accept_tx_inv [OF 2(1) assms(2)] accept_tx_not_accepted [OF 2(1)] step_accept(1,2) show ?thesis
      by (cases "\<exists>a. r = Done (AcceptAccepted a)") (auto intro: db_accept db_history simp: journal_inv_def)
  qed
next
  case (step_lifecycle e eid rv ds rs r)
  from step_lifecycle(2) [unfolded update_lifecycle_def] show ?thesis
  proof (cases rule: with_conn_db)
    case (2 r')
    have "distinct (map ls_event_id (db_lifecycles (lj_db j)))" using assms(2) by (simp add: journal_inv_def keys_ok_def)
    with 2 update_lifecycle_unchanged [OF 2] step_lifecycle(1) show ?thesis
      by (cases "r' = Done Updated") (auto intro: db_lifecycle simp: db_same)
  qed (simp add: db_same)
next
  case (step_create e eid rf pid pv topic r)
  from step_create(2) [unfolded create_delivery_pending_def] show ?thesis
    by (cases rule: with_conn_db) (use step_create(1) create_unchanged db_create db_same in metis)+
next
  case (step_attempt e attempt r)
  from step_attempt(2) [unfolded record_delivery_attempt_def] show ?thesis
    by (cases rule: with_conn_db) (use step_attempt(1) record_delivery_unchanged db_attempt db_same in metis)+
next
  case (step_confirm e eid rv c r)
  from step_confirm(2) [unfolded confirm_replicated_delivery_def] show ?thesis
    by (cases rule: with_conn_db) (use step_confirm(1) confirm_unchanged db_confirm db_same in metis)+
next
  case (step_block e eid rv reason r)
  from step_block(2) [unfolded block_delivery_def] show ?thesis
    by (cases rule: with_conn_db) (use step_block(1) block_unchanged db_block db_same in metis)+
next
  case (step_retry e eid rv t r)
  from step_retry(2) [unfolded update_delivery_retry_def] show ?thesis
  proof (cases rule: with_conn_db)
    case (2 r')
    have "distinct (map dr_event_id (db_deliveries (lj_db j)))" using assms(2) by (simp add: journal_inv_def keys_ok_def)
    with 2 retry_unchanged [OF 2] step_retry(1) show ?thesis
      by (cases "r' = Done Updated") (auto intro: db_retry simp: db_same)
  qed (simp add: db_same)
next
  case step_shutdown
  then show ?thesis by (simp add: shutdown_def db_same)
qed

subsection \<open>The invariant\<close>

lemma transitioned_inv: "journal_inv d \<Longrightarrow> transitioned e eid s' st d d' \<Longrightarrow> journal_inv d'"
  by (cases d; cases d')
    (simp add: transitioned_def journal_inv_def sequences_ok_def keys_ok_def producers_ok_def histories_ok_def
      stream_rows_def stream_head_def producer_rows_def)

lemma delivery_replaced_inv:
  assumes "journal_inv d" "delivery_replaced e eid s' d d'"
    and "distinct (map dt_id (db_delivery_attempts d'))" "\<forall>r \<in> set (db_delivery_attempts d'). dt_id r \<le> db_delivery_attempt_seq d'"
    and "set (map (da_event_id \<circ> dt_attempt) (db_delivery_attempts d')) \<subseteq> set (map se_event_id (db_envelopes d))"
  shows "journal_inv d'"
  using assms by (cases d; cases d')
    (simp add: delivery_replaced_def journal_inv_def sequences_ok_def keys_ok_def producers_ok_def histories_ok_def
      stream_rows_def stream_head_def producer_rows_def)

lemma attempts_after_ok:
  assumes "histories_ok d"
  shows "distinct (map dt_id (attempts_after a d))" "r \<in> set (attempts_after a d) \<Longrightarrow> dt_id r \<le> Suc (db_delivery_attempt_seq d)"
    "r \<in> set (attempts_after a d) \<Longrightarrow> dt_attempt r = a \<or> r \<in> set (db_delivery_attempts d)"
proof -
  have "Suc (db_delivery_attempt_seq d) \<notin> dt_id ` set (db_delivery_attempts d)"
    using assms by (auto simp: histories_ok_def)
  with assms show "distinct (map dt_id (attempts_after a d))"
    unfolding attempts_after_def by (intro distinct_trim_rows) (simp add: histories_ok_def)
  show "r \<in> set (attempts_after a d) \<Longrightarrow> dt_id r \<le> Suc (db_delivery_attempt_seq d)"
    "r \<in> set (attempts_after a d) \<Longrightarrow> dt_attempt r = a \<or> r \<in> set (db_delivery_attempts d)"
    using assms by (auto simp: attempts_after_def histories_ok_def intro: le_SucI dest!: set_trim_rows [THEN subsetD])
qed

lemma create_delivery_inv:
  assumes "create_delivery_pending_db e eid rf pid pv topic d = (Done Updated, d')" "journal_inv d"
  shows "journal_inv d'"
proof -
  note c = create_Updated [OF assms(1)]
  have "dr_event_id (delivery_row_of (stored e (pending_record e eid rf pid pv topic))) = eid"
    by (simp add: delivery_row_of_def stored_def pending_record_def)
  with assms(2) c(1,2) show ?thesis
    unfolding c(3) journal_inv_def sequences_ok_def keys_ok_def producers_ok_def histories_ok_def
      stream_rows_def stream_head_def producer_rows_def
    by (auto simp: select_row_None simp del: set_map)
qed

lemma record_delivery_inv:
  assumes "record_delivery_attempt_db e attempt d = (Done Updated, d')" "journal_inv d"
  shows "journal_inv d'"
proof -
  from assms(1) obtain s n where
    env: "find_envelope d (da_event_id attempt) \<noteq> None" and
    rep: "delivery_replaced e (da_event_id attempt)
      (stored e (attempted_record e attempt n s)\<lparr>ds_attempt_count := ds_attempt_count s + 1\<rparr>) d d'" and
    hist: "db_delivery_attempts d' = attempts_after attempt d" "db_delivery_attempt_seq d' = db_delivery_attempt_seq d + 1"
    by (rule record_delivery_Updated)
  have ok: "histories_ok d" using assms(2) by (simp add: journal_inv_def)
  have "da_event_id (dt_attempt r) \<in> set (map se_event_id (db_envelopes d))" if "r \<in> set (db_delivery_attempts d')" for r
  proof -
    have "da_event_id attempt \<in> set (map se_event_id (db_envelopes d))" using env by (simp add: select_row_None)
    moreover have "da_event_id (dt_attempt r) \<in> set (map se_event_id (db_envelopes d))" if "r \<in> set (db_delivery_attempts d)"
      using assms(2) that by (auto simp: journal_inv_def keys_ok_def)
    ultimately show ?thesis using attempts_after_ok(3) [OF ok, of r attempt] that by (auto simp: hist)
  qed
  then have "set (map (da_event_id \<circ> dt_attempt) (db_delivery_attempts d')) \<subseteq> set (map se_event_id (db_envelopes d))"
    by auto
  with attempts_after_ok(1,2) [OF ok] show ?thesis
    by (intro delivery_replaced_inv [OF assms(2) rep]) (auto simp: hist)
qed

lemma db_step_inv:
  assumes "db_step sha d d'" "journal_inv d"
  shows "journal_inv d'"
  using assms(1)
proof cases
  case db_same
  with assms(2) show ?thesis by simp
next
  case db_history
  with assms(2) show ?thesis by (simp add: journal_inv_def same_data_ok)
next
  case (db_accept e req a)
  from accept_tx_inv [OF db_accept(3) assms(2)] show ?thesis .
next
  case (db_lifecycle e eid rv ds rs)
  from db_lifecycle(2) have "map ls_event_id (db_lifecycles d') = map ls_event_id (db_lifecycles d) \<and>
    d' = d\<lparr>db_lifecycles := db_lifecycles d'\<rparr>" by (rule update_lifecycle_Updated) blast
  with assms(2) show ?thesis
    by (cases d; cases d')
      (simp add: journal_inv_def sequences_ok_def keys_ok_def producers_ok_def histories_ok_def
        stream_rows_def stream_head_def producer_rows_def)
next
  case db_create
  with create_delivery_inv assms(2) show ?thesis by blast
next
  case db_attempt
  with record_delivery_inv assms(2) show ?thesis by blast
next
  case (db_confirm e eid rv c)
  then show ?thesis by (auto elim: confirm_Updated intro: transitioned_inv [OF assms(2)])
next
  case (db_block e eid rv reason)
  then show ?thesis by (auto elim: block_Updated intro: transitioned_inv [OF assms(2)])
next
  case (db_retry e eid rv t)
  from db_retry(2) obtain s new_rev where
    "delivery_replaced e eid (stored e (retrying_record e t new_rev s)) d d'"
    "db_delivery_attempts d' = db_delivery_attempts d" "db_delivery_attempt_seq d' = db_delivery_attempt_seq d"
    by (rule retry_Updated)
  then show ?thesis
    using assms(2) by (intro delivery_replaced_inv [OF assms(2)]) (auto simp: journal_inv_def histories_ok_def keys_ok_def)
qed

lemma journal_step_inv: "journal_step sha j j' \<Longrightarrow> journal_inv (lj_db j) \<Longrightarrow> journal_inv (lj_db j')"
  using journal_step_db db_step_inv by blast

lemma journal_reach_inv: "journal_reach sha j \<Longrightarrow> journal_inv (lj_db j)"
  by (induction rule: journal_reach.induct) (auto simp: journal_inv_empty intro: journal_step_inv)

lemma journal_steps_inv: "(journal_step sha)\<^sup>*\<^sup>* j j' \<Longrightarrow> journal_inv (lj_db j) \<Longrightarrow> journal_inv (lj_db j')"
  by (induction rule: rtranclp_induct) (auto intro: journal_step_inv)

subsection \<open>Events are immutable and always verify\<close>

lemma accept_tx_added:
  assumes "accept_tx e req d = (Done (AcceptAccepted a), d')"
  obtains js ss where "event_absent d (aq_event_id req)"
    "d' = record_attempt e (event_added e req js ss d) (aq_event_id req) ''NEWLY_ACCEPTED'' None"
  by (rule accept_insert_Accepted [OF accept_tx_Accepted [OF assms]]) (rule that)

text \<open>Every step but accept keeps the envelope, payload and dedup tables.\<close>

lemma db_step_events:
  assumes "db_step sha d d'"
  shows "(db_envelopes d' = db_envelopes d \<and> db_payloads d' = db_payloads d \<and> db_dedups d' = db_dedups d) \<or>
    (\<exists>e req a. env_sha e = sha \<and> in_i32 (aq_schema_version req) \<and> accept_tx e req d = (Done (AcceptAccepted a), d'))"
proof -
  have tr: "db_envelopes d' = db_envelopes d \<and> db_payloads d' = db_payloads d \<and> db_dedups d' = db_dedups d" if "transitioned e eid s' st d d'" for e eid s' st
    using that by (cases d; cases d') (simp add: transitioned_def)
  have rep: "db_envelopes d' = db_envelopes d \<and> db_payloads d' = db_payloads d \<and> db_dedups d' = db_dedups d" if "delivery_replaced e eid s' d d'" for e eid s'
    using that by (cases d; cases d') (simp add: delivery_replaced_def)
  show ?thesis using assms
  proof cases
    case db_lifecycle
    then have "d' = d\<lparr>db_lifecycles := db_lifecycles d'\<rparr>" by (auto elim: update_lifecycle_Updated)
    then show ?thesis by (cases d; cases d') simp
  next
    case db_create
    from create_Updated(3) [OF db_create(2)] show ?thesis by simp
  next
    case db_attempt
    then show ?thesis using rep by (elim record_delivery_Updated) blast
  next
    case db_confirm
    then show ?thesis using tr by (elim confirm_Updated) blast
  next
    case db_block
    then show ?thesis using tr by (elim block_Updated) blast
  next
    case db_retry
    then show ?thesis using rep by (elim retry_Updated) blast
  qed (auto dest: same_data_fields)
qed

lemma db_step_immutable:
  assumes "db_step sha d d'"
  shows "find_envelope d eid = Some en \<Longrightarrow> find_envelope d' eid = Some en"
    and "find_payload d eid = Some b \<Longrightarrow> find_payload d' eid = Some b"
    and "find_dedup d eid = Some x \<Longrightarrow> find_dedup d' eid = Some x"
  using db_step_events [OF assms]
  by (auto elim!: accept_tx_added simp: find_event_added) (auto simp: event_absent_def)

text \<open>The rows of every event verify against their checksums.\<close>

definition events_ok :: "(bytes \<Rightarrow> checksum) \<Rightarrow> db \<Rightarrow> bool" where
  "events_ok sha d \<longleftrightarrow>
     (\<forall>e eid. env_sha e = sha \<longrightarrow>
        (\<forall>en. find_envelope d eid = Some en \<longrightarrow> envelope_ok e en) \<and>
        (\<forall>l. find_lifecycle d eid = Some l \<longrightarrow> lifecycle_ok e l))"

lemma ok_env_cong:
  "env_sha e' = env_sha e \<Longrightarrow> envelope_ok e' = envelope_ok e"
  "env_sha e' = env_sha e \<Longrightarrow> lifecycle_ok e' = lifecycle_ok e"
  by (rule ext, simp add: envelope_ok_iff, rule ext, simp add: lifecycle_ok_def compute_lifecycle_checksum_def)

lemma lifecycle_after_ok:
  "env_sha e' = env_sha e \<Longrightarrow> is_allowed_delivery_status st \<Longrightarrow> is_allowed_retention_status (ls_retention_status l) \<Longrightarrow>
     lifecycle_ok e' (lifecycle_after e lrev st l)"
  by (simp add: lifecycle_ok_def lifecycle_after_def compute_lifecycle_checksum_def)

lemma local_status_allowed: "is_allowed_delivery_status (local_delivery_as_str ds)" "is_allowed_retention_status (local_retention_as_str rs)"
  by (cases ds; simp add: is_allowed_delivery_status_def) (cases rs; simp add: is_allowed_retention_status_def)

lemma lifecycle_ok_retention: "lifecycle_ok e l \<Longrightarrow> is_allowed_retention_status (ls_retention_status l)"
  by (simp add: lifecycle_ok_def)

lemma db_step_lifecycle:
  assumes "db_step sha d d'" "env_sha e = sha" "find_lifecycle d' eid = Some l"
  shows "find_lifecycle d eid = Some l \<or> lifecycle_ok e l"
proof -
  have tr: ?thesis if "transitioned e' eid' s' st d d'" "env_sha e' = sha" "is_allowed_delivery_status st" for e' eid' s' st
    using that assms(2,3)
    by (cases "eid = eid'") (auto simp: transitioned_def dest: lifecycle_ok_retention intro!: lifecycle_after_ok)
  have allowed: "is_allowed_delivery_status ''REPLICATED''" "is_allowed_delivery_status ''DELIVERY_BLOCKED''"
    by (simp_all add: is_allowed_delivery_status_def)
  show ?thesis using assms(1)
  proof cases
    case (db_accept e' req a)
    with assms(2,3) show ?thesis by (auto elim!: accept_tx_added simp: find_event_added new_rows_ok split: if_splits)
  next
    case (db_lifecycle e' eid' rv ds rs)
    with assms(2,3) local_status_allowed show ?thesis
      by (cases "eid = eid'") (auto elim!: update_lifecycle_Updated intro!: lifecycle_after_ok)
  next
    case (db_create e' eid' rf pid pv topic)
    with create_Updated(3) [OF db_create(2)] assms(3) show ?thesis by simp
  next
    case (db_attempt e' attempt)
    then have "db_lifecycles d' = db_lifecycles d"
      by (elim record_delivery_Updated) (cases d; cases d'; simp add: delivery_replaced_def)
    with assms(3) show ?thesis by simp
  next
    case (db_retry e' eid' rv t)
    then have "db_lifecycles d' = db_lifecycles d"
      by (elim retry_Updated) (cases d; cases d'; simp add: delivery_replaced_def)
    with assms(3) show ?thesis by simp
  qed (use assms(2,3) tr allowed in \<open>auto dest: same_data_fields elim!: confirm_Updated block_Updated\<close>)
qed

lemma db_step_events_ok:
  assumes "db_step sha d d'" "events_ok sha d"
  shows "events_ok sha d'"
  unfolding events_ok_def
proof (intro allI impI conjI)
  fix e :: env and eid en
  assume e: "env_sha e = sha" and en: "find_envelope d' eid = Some en"
  from db_step_events [OF assms(1)] consider "find_envelope d eid = Some en"
    | e' req js ss where "env_sha e' = sha" "in_i32 (aq_schema_version req)" "en = new_envelope_row e' req js ss"
    using en by (auto elim!: accept_tx_added simp: find_event_added split: if_splits)
  then show "envelope_ok e en"
    by cases (use assms(2) e new_rows_ok(1) in \<open>auto simp: events_ok_def\<close>)
next
  fix e :: env and eid l
  assume "env_sha e = sha" "find_lifecycle d' eid = Some l"
  with db_step_lifecycle [OF assms(1)] assms(2) show "lifecycle_ok e l" by (metis events_ok_def)
qed

lemma journal_steps_facts:
  assumes "(journal_step sha)\<^sup>*\<^sup>* j j'" "journal_inv (lj_db j)" "events_ok sha (lj_db j)"
  shows "events_ok sha (lj_db j') \<and>
    (\<forall>eid en. find_envelope (lj_db j) eid = Some en \<longrightarrow> find_envelope (lj_db j') eid = Some en) \<and>
    (\<forall>eid b. find_payload (lj_db j) eid = Some b \<longrightarrow> find_payload (lj_db j') eid = Some b)"
  using assms(1)
proof (induction rule: rtranclp_induct)
  case base
  with assms(3) show ?case by simp
next
  case (step y z)
  have "db_step sha (lj_db y) (lj_db z)"
    using step.hyps journal_steps_inv [OF _ assms(2)] journal_step_db by blast
  with step.IH db_step_events_ok db_step_immutable show ?case by metis
qed

lemma journal_steps_dedup:
  assumes "(journal_step sha)\<^sup>*\<^sup>* j j'" "journal_inv (lj_db j)" "find_dedup (lj_db j) eid = Some x"
  shows "find_dedup (lj_db j') eid = Some x"
  using assms(1)
proof (induction rule: rtranclp_induct)
  case (step y z)
  have "db_step sha (lj_db y) (lj_db z)"
    using step.hyps journal_steps_inv [OF _ assms(2)] journal_step_db by blast
  with step.IH db_step_immutable(3) show ?case by blast
qed (rule assms(3))

lemma events_ok_empty: "events_ok sha empty_db"
  by (simp add: events_ok_def empty_db_def)

lemma journal_reach_events_ok: "journal_reach sha j \<Longrightarrow> events_ok sha (lj_db j)"
proof (induction rule: journal_reach.induct)
  case (again j j')
  with journal_step_db journal_reach_inv db_step_events_ok show ?case by blast
qed (simp add: events_ok_empty)

text \<open>The number of accepted events, so every sequence, is in range.\<close>

lemma journal_reach_length: "journal_reach sha j \<Longrightarrow> in_i64 (int (length (db_envelopes (lj_db j))))"
proof (induction rule: journal_reach.induct)
  case (fresh j)
  then show ?case by (simp add: empty_db_def in_i64_def i64_max_def)
next
  case (again j j')
  have inv: "journal_inv (lj_db j)" "journal_inv (lj_db j')" using again.hyps journal_reach.again journal_reach_inv by blast+
  from db_step_events [OF journal_step_db [OF again.hyps(2) inv(1)]] show ?case
  proof
    assume "\<exists>e req a. env_sha e = sha \<and> in_i32 (aq_schema_version req) \<and> accept_tx e req (lj_db j) = (Done (AcceptAccepted a), lj_db j')"
    then obtain e req a where "accept_tx e req (lj_db j) = (Done (AcceptAccepted a), lj_db j')" by blast
    from accept_tx_Accepted [OF this] obtain js ss where "in_i64 js"
      "lj_db j' = record_attempt e (event_added e req js ss (lj_db j)) (aq_event_id req) ''NEWLY_ACCEPTED'' None"
      by (rule accept_insert_Accepted)
    then have "db_envelopes (lj_db j') = db_envelopes (lj_db j) @ [new_envelope_row e req js ss]" "in_i64 js"
      by (simp_all add: event_added_def)
    moreover have "map se_journal_sequence (db_envelopes (lj_db j')) = upto_int (length (db_envelopes (lj_db j')))"
      using inv(2) by (simp add: journal_inv_def sequences_ok_def)
    ultimately show ?thesis by (simp add: new_envelope_row_def)
  qed (use again.IH in simp)
qed

lemma status_found:
  assumes "journal_inv d" "events_ok sha d" "no_faults e" "env_sha e = sha" "find_envelope d eid = Some en"
  obtains s l where "get_status_impl e d eid = StatusFound s" "find_lifecycle d eid = Some l" "describes s en l"
proof -
  have "eid \<in> set (map ls_event_id (db_lifecycles d))"
    using assms(1,5) by (force simp: journal_inv_def keys_ok_def dest: select_row_Some_in)
  then obtain l where l: "find_lifecycle d eid = Some l"
    using select_row_None [of ls_event_id eid "db_lifecycles d"] by fastforce
  with assms obtain s where "describes s en l" "envelope_ok e en" "lifecycle_ok e l"
    by (metis events_ok_def envelope_and_lifecycle_described)
  with assms(3,5) l show ?thesis by (intro that) (auto simp: get_status_Found no_faults_def)
qed

text \<open>
  C11: in every state reachable by calls of the journal's methods, in any order and with any engine
  failures, the invariant of the database holds, and a status read that is not hit by a failure
  never reports corruption: it finds each stored event and no other.
\<close>

theorem reachable_journal_is_sound:
  assumes "journal_reach sha j"
  shows "journal_inv (lj_db j) \<and>
    (\<forall>e eid. no_faults e \<longrightarrow> env_sha e = sha \<longrightarrow>
       (if fk_envelope (lj_db j) eid then \<exists>s. get_status_impl e (lj_db j) eid = StatusFound s
        else get_status_impl e (lj_db j) eid = StatusNotFound))"
proof -
  note inv = journal_reach_inv [OF assms] and ok = journal_reach_events_ok [OF assms]
  have "\<exists>s. get_status_impl e (lj_db j) eid = StatusFound s"
    if "no_faults e" "env_sha e = sha" "fk_envelope (lj_db j) eid" for e eid
    using that(3) status_found [OF inv ok that(1,2)] by (auto simp: fk_envelope_def) metis
  moreover have "get_status_impl e (lj_db j) eid = StatusNotFound"
    if "no_faults e" "\<not> fk_envelope (lj_db j) eid" for e eid
    using that by (simp add: get_status_impl_def fk_envelope_def)
  ultimately show ?thesis using inv by simp
qed

theorem reachable_journal_is_sound_witness:
  "\<exists>j. accept sample_env sample_request sample_journal = (Done (AcceptAccepted sample_accepted), j) \<and>
     journal_inv (lj_db j) \<and> get_status_impl sample_env (lj_db j) ''e2'' = StatusNotFound"
proof -
  obtain j where acc: "accept sample_env sample_request sample_journal = (Done (AcceptAccepted sample_accepted), j)"
    using sample_accept by blast
  have "journal_reach (env_sha sample_env) sample_journal" by (rule fresh) (simp add: sample_journal_def)
  moreover have "journal_step (env_sha sample_env) sample_journal j"
    by (rule step_accept [OF refl _ acc]) (simp add: sample_request_def in_i32_def i32_max_def)
  ultimately have "journal_reach (env_sha sample_env) j" by (rule again)
  note r = reachable_journal_is_sound [OF this]
  have "get_status_impl sample_env (lj_db j) ''e2'' = get_status_impl sample_env (lj_db sample_journal) ''e2''"
    using acc by (rule other_status_after_accept) (simp add: sample_request_def)
  also have "\<dots> = StatusNotFound" by (simp add: sample_journal_def empty_db_def get_status_impl_def)
  finally show ?thesis using acc r by blast
qed

text \<open>
  C1: an accepted event is durable and immutable. After any further calls of the journal's methods,
  with any failures, reading the payload still returns the accepted bytes, and a status read finds
  the event with the journal sequence, stream sequence and envelope checksum of the answer.
\<close>

theorem accepted_event_is_durable:
  assumes acc: "accept e req j = (Done (AcceptAccepted a), j1)" and "journal_reach (env_sha e) j"
    and rng: "in_i32 (aq_schema_version req)" and steps: "(journal_step (env_sha e))\<^sup>*\<^sup>* j1 j2"
    and e': "no_faults e'" "env_sha e' = env_sha e"
  shows "read_verified_payload_impl e' (lj_db j2) (aq_event_id req) = PayloadFound (aq_payload req) \<and>
    (\<exists>s. get_status_impl e' (lj_db j2) (aq_event_id req) = StatusFound s \<and>
       ps_journal_sequence s = ac_journal_sequence a \<and> ps_stream_sequence s = ac_stream_sequence a \<and>
       ps_envelope_checksum s = ac_envelope_checksum a)"
proof -
  have j1: "journal_reach (env_sha e) j1" by (rule again [OF assms(2) step_accept [OF refl rng acc]])
  note inv = journal_reach_inv [OF j1] journal_reach_events_ok [OF j1]
  note later = journal_steps_facts [OF steps inv] and inv2 = journal_steps_inv [OF steps inv(1)]
  from acc rng e' obtain s where s: "get_status_impl e' (lj_db j1) (aq_event_id req) = StatusFound s" "accepted_of_status s = a"
    by (rule status_after_accept)
  then obtain en l where en: "find_envelope (lj_db j1) (aq_event_id req) = Some en" and d1: "describes s en l"
    by (auto simp: get_status_Found)
  with later have en2: "find_envelope (lj_db j2) (aq_event_id req) = Some en" by blast
  obtain s' l' where s': "get_status_impl e' (lj_db j2) (aq_event_id req) = StatusFound s'" and d2: "describes s' en l'"
    by (rule status_found [OF inv2 conjunct1 [OF later] e' en2])
  have "read_verified_payload_impl e' (lj_db j2) (aq_event_id req) = PayloadFound (aq_payload req)"
  proof -
    from payload_after_accept(1) [OF acc e'] obtain en' b where
      "find_envelope (lj_db j1) (aq_event_id req) = Some en'" "find_payload (lj_db j1) (aq_event_id req) = Some b"
      "pb_payload b = aq_payload req" "se_payload_digest en' = bytes_of (env_sha e' (aq_payload req))"
      "pb_payload_digest b = bytes_of (env_sha e' (aq_payload req))" by (auto simp: read_payload_Found)
    with later e'(1) show ?thesis by (simp add: read_payload_Found no_faults_def)
  qed
  moreover have "ps_journal_sequence s' = ac_journal_sequence a \<and> ps_stream_sequence s' = ac_stream_sequence a \<and>
      ps_envelope_checksum s' = ac_envelope_checksum a"
    using d1 d2 s(2) by (auto simp: describes_def accepted_of_status_def simp flip: bytes_of_inject)
  ultimately show ?thesis using s' by blast
qed

theorem accepted_event_is_durable_witness:
  "\<exists>j. accept sample_env sample_request sample_journal = (Done (AcceptAccepted sample_accepted), j) \<and>
     read_verified_payload_impl sample_env (lj_db (shutdown j)) ''e1'' = PayloadFound [1, 2]"
proof -
  obtain j where acc: "accept sample_env sample_request sample_journal = (Done (AcceptAccepted sample_accepted), j)"
    using sample_accept by blast
  have r: "journal_reach (env_sha sample_env) sample_journal" by (rule fresh) (simp add: sample_journal_def)
  have "(journal_step (env_sha sample_env))\<^sup>*\<^sup>* j (shutdown j)" by (rule r_into_rtranclp) (rule step_shutdown)
  from accepted_event_is_durable [OF acc r _ this no_faults_sample refl] acc show ?thesis
    by (simp add: sample_request_def in_i32_def i32_max_def)
qed

text \<open>The rows of an accepted event, after any later calls.\<close>

lemma accepted_rows_later:
  assumes acc: "accept e req j = (Done (AcceptAccepted a), j1)" and "journal_reach (env_sha e) j"
    and rng: "in_i32 (aq_schema_version req)" and steps: "(journal_step (env_sha e))\<^sup>*\<^sup>* j1 j2"
  obtains js ss where "find_envelope (lj_db j2) (aq_event_id req) = Some (new_envelope_row e req js ss)"
    "find_payload (lj_db j2) (aq_event_id req) = Some (new_payload_row e req)"
    "find_dedup (lj_db j2) (aq_event_id req) = Some (new_dedup_row req)"
    "ac_event_id a = aq_event_id req" "ac_journal_sequence a = js" "ac_stream_sequence a = ss"
    "ac_envelope_checksum a = accept_envelope_checksum e req js ss" "journal_reach (env_sha e) j2"
proof -
  have j1: "journal_reach (env_sha e) j1" by (rule again [OF assms(2) step_accept [OF refl rng acc]])
  note inv = journal_reach_inv [OF j1] journal_reach_events_ok [OF j1]
  have j2: "journal_reach (env_sha e) j2" using steps j1 by (induction rule: rtranclp_induct) (auto intro: again)
  obtain js ss where abs: "event_absent (lj_db j) (aq_event_id req)"
    and db: "lj_db j1 = record_attempt e (event_added e req js ss (lj_db j)) (aq_event_id req) ''NEWLY_ACCEPTED'' None"
    and a: "a = \<lparr>ac_event_id = aq_event_id req, ac_journal_sequence = js, ac_stream_sequence = ss,
      ac_lifecycle_revision = 1, ac_envelope_checksum = accept_envelope_checksum e req js ss,
      ac_delivery_status = LocalAccepted\<rparr>"
    by (rule accept_insert_Accepted [OF accept_Accepted [OF acc]])
  note now = find_event_added [OF abs]
  show ?thesis
  proof (rule that [of js ss])
    show "find_envelope (lj_db j2) (aq_event_id req) = Some (new_envelope_row e req js ss)"
      "find_payload (lj_db j2) (aq_event_id req) = Some (new_payload_row e req)"
      using journal_steps_facts [OF steps inv] by (simp_all add: db now)
    show "find_dedup (lj_db j2) (aq_event_id req) = Some (new_dedup_row req)"
      by (rule journal_steps_dedup [OF steps inv(1)]) (simp add: db now)
  qed (simp_all add: a j2)
qed



subsection \<open>Which events are accepted\<close>

text \<open>The operation sequence of the request is ahead of all events stored for its producer instance.\<close>

definition producer_ahead :: "db \<Rightarrow> accept_request \<Rightarrow> bool" where
  "producer_ahead d req \<longleftrightarrow>
     (\<forall>en \<in> set (producer_rows d (producer_key_of req)). se_producer_op_seq en < aq_producer_operation_sequence req)"

lemma producer_check_iff:
  assumes "producers_ok d" "event_absent d (aq_event_id req)" "no_faults e"
  shows "check_producer_sequence e d (producer_key_of req) (aq_producer_operation_sequence req) (aq_event_id req) = Inr None \<longleftrightarrow>
    producer_ahead d req"
proof
  let ?rows = "producer_rows d (producer_key_of req)"
  assume "check_producer_sequence e d (producer_key_of req) (aq_producer_operation_sequence req) (aq_event_id req) = Inr None"
  from producer_check_passed [OF assms(1,2) this]
  have "?rows = [] \<or> se_producer_op_seq (last ?rows) < aq_producer_operation_sequence req" .
  moreover have "sorted_wrt (<) (map se_producer_op_seq ?rows)" using assms(1) by (simp add: producers_ok_def)
  ultimately show "producer_ahead d req" unfolding producer_ahead_def
    by (cases ?rows rule: rev_cases) (auto simp: sorted_wrt_append)
next
  let ?rows = "producer_rows d (producer_key_of req)"
  let ?head = "select_row pr_producer_key (producer_key_of req) (db_producer_sequences d)"
  assume ahead: "producer_ahead d req"
  have rec: "producer_recorded ?rows ?head" using assms(1) by (simp add: producers_ok_def)
  have "pr_highest_seq r < aq_producer_operation_sequence req" if "?head = Some r" for r
    using that rec ahead last_in_set [of ?rows] by (auto simp: producer_recorded_def producer_ahead_def)
  then show "check_producer_sequence e d (producer_key_of req) (aq_producer_operation_sequence req) (aq_event_id req) = Inr None"
    using assms(3) by (auto simp: check_producer_sequence_def split: option.splits)
qed

lemma absent_iff: "keys_ok d \<Longrightarrow> event_absent d eid \<longleftrightarrow> find_envelope d eid = None"
  by (auto simp: event_absent_def select_row_None keys_ok_def simp del: set_map)

lemma accept_insert_succeeds:
  assumes "journal_inv d" "no_faults e" "event_absent d (aq_event_id req)" "in_i64 (int (length (db_envelopes d)) + 1)"
  shows "\<exists>a d'. accept_insert e req d = (Done (AcceptAccepted a), d')"
proof -
  let ?js = "int (length (db_envelopes d)) + 1" and ?k = "stream_key_of req"
  have seqs: "map se_journal_sequence (db_envelopes d) = upto_int (length (db_envelopes d))"
    "stream_head d ?k = int (length (stream_rows d ?k))" using assms(1) by (simp_all add: journal_inv_def sequences_ok_def)
  have js: "allocate_journal_sequence e d = Done ?js"
    using assms(2,4) by (simp add: allocate_journal_sequence_def seqs max_sequence_upto no_faults_def)
  let ?ss = "int (length (stream_rows d ?k)) + 1"
  have "in_i64 ?ss" using assms(4) stream_rows_length [of d ?k] by (simp add: in_i64_def)
  then obtain d1 where al: "allocate_stream_sequence e d ?k = Done (Inr (?ss, d1))"
    using assms(2) by (simp add: allocate_stream_Done seqs no_faults_def)
  then have d1: "d1 = d\<lparr>db_stream_heads := upsert_row sh_stream_key \<lparr>sh_stream_key = ?k, sh_head_sequence = ?ss\<rparr> (db_stream_heads d)\<rparr>"
    by (simp add: allocate_stream_Done)
  have "?js \<notin> set (map se_journal_sequence (db_envelopes d))" unfolding seqs by simp
  then obtain d2 where "insert_event e req ?js ?ss d1 = Inr d2"
    using assms(2,3) by (simp add: insert_event_Inr d1 event_absent_def no_faults_def)
  with js al assms(2) show ?thesis by (simp add: accept_insert_def)
qed

lemma accept_fresh:
  assumes "journal_inv (lj_db j)" "no_faults e" "\<not> lj_poisoned j" "\<not> lj_shutdown j" "env_disk_safe e"
    and "length (aq_payload req) \<le> jc_max_payload_bytes (lj_config j)" "aq_event_id req \<noteq> []" "aq_installation_id req \<noteq> []"
    and "find_envelope (lj_db j) (aq_event_id req) = None" "producer_ahead (lj_db j) req"
    and "in_i64 (int (length (db_envelopes (lj_db j))) + 1)"
  shows "\<exists>a j'. accept e req j = (Done (AcceptAccepted a), j')"
proof -
  let ?d = "lj_db j"
  have abs: "event_absent ?d (aq_event_id req)" using assms(1,9) by (simp add: absent_iff journal_inv_def)
  have "producers_ok ?d" using assms(1) by (simp add: journal_inv_def)
  from producer_check_iff [OF this abs assms(2)] assms(10)
  have "check_producer_sequence e ?d (producer_key_of req) (aq_producer_operation_sequence req) (aq_event_id req) = Inr None" by simp
  moreover obtain a d' where "accept_insert e req ?d = (Done (AcceptAccepted a), d')"
    using accept_insert_succeeds [OF assms(1,2) abs assms(11)] by blast
  ultimately have "accept_tx e req ?d = (Done (AcceptAccepted a), d')"
    using abs assms(2) by (simp add: accept_tx_def accept_new_def check_dedup_def event_absent_def)
  with assms(3-8) show ?thesis by (simp add: accept_def with_conn_def)
qed

lemma accept_checked:
  assumes "accept_tx e req d = (Done (AcceptAccepted a), d')"
  shows "check_producer_sequence e d (producer_key_of req) (aq_producer_operation_sequence req) (aq_event_id req) = Inr None"
  using assms by (auto simp: accept_tx_def accept_new_def accept_duplicate_def
      split: sum.splits dedup_check.splits option.splits status_result.splits)

text \<open>
  C35: exactly the new events are accepted, and with the next sequences. In a reachable journal that is not poisoned, and
  without engine failures, a request is answered \<^verbatim>\<open>Accepted\<close> if and only if the journal is not shut down, the disk guard
  agrees, the payload is within the configured size, event and installation id are not empty, no event with this id is
  stored, the operation sequence is ahead of all events of its producer instance, and the next journal sequence is an
  \<^verbatim>\<open>i64\<close>; the answer then carries the next sequence of the journal and the next sequence of the stream.
\<close>

theorem event_is_accepted_iff:
  assumes "journal_reach sha j" "no_faults e" "\<not> lj_poisoned j" "accept e req j = (r, j')"
  shows "((\<exists>a. r = Done (AcceptAccepted a)) \<longleftrightarrow>
      \<not> lj_shutdown j \<and> env_disk_safe e \<and> length (aq_payload req) \<le> jc_max_payload_bytes (lj_config j) \<and>
      aq_event_id req \<noteq> [] \<and> aq_installation_id req \<noteq> [] \<and> find_envelope (lj_db j) (aq_event_id req) = None \<and>
      producer_ahead (lj_db j) req \<and> in_i64 (int (length (db_envelopes (lj_db j))) + 1)) \<and>
    (\<forall>a. r = Done (AcceptAccepted a) \<longrightarrow> ac_journal_sequence a = int (length (db_envelopes (lj_db j))) + 1 \<and>
      ac_stream_sequence a = int (length (stream_rows (lj_db j) (stream_key_of req))) + 1)"
proof -
  let ?d = "lj_db j"
  have inv: "journal_inv ?d" by (rule journal_reach_inv [OF assms(1)])
  have "\<not> lj_shutdown j \<and> env_disk_safe e \<and> length (aq_payload req) \<le> jc_max_payload_bytes (lj_config j) \<and>
      aq_event_id req \<noteq> [] \<and> aq_installation_id req \<noteq> [] \<and> find_envelope ?d (aq_event_id req) = None \<and>
      producer_ahead ?d req \<and> in_i64 (int (length (db_envelopes ?d)) + 1)" if a: "r = Done (AcceptAccepted a)" for a
  proof -
    have acc: "accept e req j = (Done (AcceptAccepted a), j')" using assms(4) a by simp
    then have guards: "\<not> lj_shutdown j" "env_disk_safe e" "length (aq_payload req) \<le> jc_max_payload_bytes (lj_config j)"
      "aq_event_id req \<noteq> []" "aq_installation_id req \<noteq> []" and tx: "accept_tx e req ?d = (Done (AcceptAccepted a), lj_db j')"
      by (auto simp: accept_def elim: with_conn_cases split: if_splits)
    obtain js ss where "js = max_sequence (map se_journal_sequence (db_envelopes ?d)) + 1" "in_i64 js"
      and abs: "event_absent ?d (aq_event_id req)" by (rule accept_insert_Accepted [OF accept_tx_Accepted [OF tx]])
    then have "in_i64 (int (length (db_envelopes ?d)) + 1)"
      using inv by (simp add: journal_inv_def sequences_ok_def max_sequence_upto)
    moreover have "producer_ahead ?d req"
      using producer_check_iff [OF _ abs assms(2)] accept_checked [OF tx] inv by (simp add: journal_inv_def)
    ultimately show ?thesis using guards abs by (simp add: event_absent_def)
  qed
  moreover note accept_fresh [OF inv assms(2,3), of req] accepted_sequences [of e req j _ j', OF _ inv]
  ultimately show ?thesis using assms(4) by auto
qed

theorem event_is_accepted_iff_witness:
  "\<exists>r j'. accept sample_env sample_request sample_journal = (r, j') \<and> (\<exists>a. r = Done (AcceptAccepted a) \<and> ac_stream_sequence a = 1) \<and>
     (\<exists>r' j''. accept sample_env sample_request j' = (r', j'') \<and> (\<forall>a. r' \<noteq> Done (AcceptAccepted a)))"
proof -
  obtain j' where acc: "accept sample_env sample_request sample_journal = (Done (AcceptAccepted sample_accepted), j')"
    using sample_accept by blast
  obtain r' j'' where re: "accept sample_env sample_request j' = (r', j'')" by fastforce
  have reach: "journal_reach (env_sha sample_env) sample_journal" by (rule fresh) (simp add: sample_journal_def)
  have rng: "in_i32 (aq_schema_version sample_request)" by (simp add: sample_request_def in_i32_def i32_max_def)
  have reach': "journal_reach (env_sha sample_env) j'" by (rule again [OF reach step_accept [OF refl rng acc]])
  have up: "\<not> lj_poisoned sample_journal" "\<not> lj_poisoned j'"
    using accept_Accepted_state [OF acc] by (auto simp: sample_journal_def)
  have "lj_db sample_journal = empty_db" by (simp add: sample_journal_def)
  with event_is_accepted_iff [OF reach no_faults_sample up(1) acc]
  have "ac_stream_sequence sample_accepted = 1" by (simp add: empty_db_def stream_rows_def)
  moreover have "find_envelope (lj_db j') (aq_event_id sample_request) \<noteq> None"
    by (rule accepted_rows_later [OF acc reach rng rtranclp.rtrancl_refl]) simp
  then have "\<nexists>a. r' = Done (AcceptAccepted a)" using event_is_accepted_iff [OF reach' no_faults_sample up(2) re] by simp
  ultimately show ?thesis using acc re by blast
qed

end
