(* ===== verification/Journal_Log.thy ===== *)
theory Journal_Log
  imports Journal_System "HOL-Library.Sublist"
begin

text \<open>
  The abstract view of the journal: an append-only log of events. An event is appended once; its
  journal sequence is its position and its stream sequence its position among the events of its
  stream; offering it again is answered from the log. \<open>journal_log\<close> is the abstraction of the database;
  \<^verbatim>\<open>accept\<close> implements \<open>log_accept\<close>, and every method of the journal at most appends.
\<close>

subsection \<open>The abstract log\<close>

record log_entry =
  le_event_id :: string
  le_fingerprint :: bytes
  le_stream :: string
  le_payload :: bytes

text \<open>Answers carry the positions in the log and in the stream.\<close>

datatype log_answer = LogAppended int int | LogDuplicate int int | LogConflict

definition log_position :: "string \<Rightarrow> log_entry list \<Rightarrow> nat" where
  "log_position eid log = length (takeWhile (\<lambda>y. y \<noteq> eid) (map le_event_id log))"

definition stream_count :: "string \<Rightarrow> log_entry list \<Rightarrow> int" where
  "stream_count k log = int (length (filter (\<lambda>y. y = k) (map le_stream log)))"

definition log_accept :: "log_entry \<Rightarrow> log_entry list \<Rightarrow> log_answer \<times> log_entry list" where
  "log_accept x log =
     (let i = log_position (le_event_id x) log in
      if i < length log then
        (if le_fingerprint (log ! i) = le_fingerprint x
         then LogDuplicate (int i + 1) (stream_count (le_stream (log ! i)) (take (Suc i) log)) else LogConflict, log)
      else (LogAppended (int (length log) + 1) (stream_count (le_stream x) log + 1), log @ [x]))"

subsection \<open>Abstraction\<close>

definition log_entry_of :: "envelope_row \<Rightarrow> payload_row \<Rightarrow> log_entry" where
  "log_entry_of en b = \<lparr>le_event_id = se_event_id en, le_fingerprint = se_request_fingerprint en,
     le_stream = row_stream en, le_payload = pb_payload b\<rparr>"

definition journal_log :: "db \<Rightarrow> log_entry list" where
  "journal_log d = map2 log_entry_of (db_envelopes d) (db_payloads d)"

definition entry_of_request :: "accept_request \<Rightarrow> log_entry" where
  "entry_of_request req = \<lparr>le_event_id = aq_event_id req, le_fingerprint = bytes_of (aq_request_fingerprint req),
     le_stream = stream_key_of req, le_payload = aq_payload req\<rparr>"

text \<open>The dedup table holds the fingerprints of the envelopes.\<close>

definition dedups_ok :: "db \<Rightarrow> bool" where
  "dedups_ok d \<longleftrightarrow> map dd_request_fingerprint (db_dedups d) = map se_request_fingerprint (db_envelopes d)"

lemma db_step_dedups_ok:
  assumes "db_step sha d d'" "dedups_ok d"
  shows "dedups_ok d'"
  using db_step_events [OF assms(1)] assms(2)
  by (auto elim!: accept_tx_added simp: dedups_ok_def event_added_def new_dedup_row_def new_envelope_row_def)

lemma journal_reach_dedups_ok: "journal_reach sha j \<Longrightarrow> dedups_ok (lj_db j)"
proof (induction rule: journal_reach.induct)
  case (again j j')
  with journal_step_db journal_reach_inv db_step_dedups_ok show ?case by blast
qed (simp add: dedups_ok_def empty_db_def)

lemma payloads_length: "keys_ok d \<Longrightarrow> length (db_payloads d) = length (db_envelopes d)"
  by (metis keys_ok_def length_map)

lemma map_map2_left: "length xs = length ys \<Longrightarrow> (\<And>x y. g (f x y) = h x) \<Longrightarrow> map g (map2 f xs ys) = map h xs"
  by (induction xs ys rule: list_induct2) simp_all

lemma map_journal_log:
  assumes "keys_ok d"
  shows "length (journal_log d) = length (db_envelopes d)"
    "map le_event_id (journal_log d) = map se_event_id (db_envelopes d)"
    "map le_fingerprint (journal_log d) = map se_request_fingerprint (db_envelopes d)"
    "map le_stream (journal_log d) = map row_stream (db_envelopes d)"
proof -
  show "length (journal_log d) = length (db_envelopes d)" using payloads_length [OF assms] by (simp add: journal_log_def)
qed (unfold journal_log_def, (rule map_map2_left; simp add: payloads_length [OF assms] log_entry_of_def)+)

lemma journal_log_added:
  "keys_ok d \<Longrightarrow> journal_log (event_added e req js ss d) = journal_log d @ [entry_of_request req]"
  using payloads_length [of d]
  by (simp add: journal_log_def event_added_def log_entry_of_def entry_of_request_def new_envelope_row_def
      new_payload_row_def row_stream_def stream_key_of_def)

subsection \<open>Lookups\<close>

lemma select_row_position:
  "select_row key k rows = Some r \<Longrightarrow>
     length (takeWhile (\<lambda>y. y \<noteq> k) (map key rows)) < length rows \<and> rows ! length (takeWhile (\<lambda>y. y \<noteq> k) (map key rows)) = r"
  by (induction rows) (auto simp: select_row_def split: if_splits)

lemma select_row_absent: "select_row key k rows = None \<Longrightarrow> length (takeWhile (\<lambda>y. y \<noteq> k) (map key rows)) = length rows"
  by (induction rows) (auto simp: select_row_def split: if_splits)

lemma upto_int_nth: "i < n \<Longrightarrow> upto_int n ! i = int i + 1"
  by (auto simp: upto_int_def nth_append)

lemma filtered_sequence:
  assumes "map f (filter P xs) = upto_int (length (filter P xs))" "i < length xs" "P (xs ! i)"
  shows "f (xs ! i) = int (length (filter P (take (Suc i) xs)))"
proof -
  have split: "filter P xs = filter P (take i xs) @ xs ! i # filter P (drop (Suc i) xs)"
    using id_take_nth_drop [OF assms(2)] assms(3) by (metis filter.simps(2) filter_append)
  let ?m = "length (filter P (take i xs))"
  have "f (xs ! i) = map f (filter P xs) ! ?m" by (simp add: split nth_append)
  also have "\<dots> = int ?m + 1" unfolding assms(1) by (rule upto_int_nth) (simp add: split)
  also have "\<dots> = int (length (filter P (take (Suc i) xs)))" using assms(2,3) by (simp add: take_Suc_conv_app_nth)
  finally show ?thesis .
qed

lemma stream_count_rows:
  assumes "keys_ok d"
  shows "stream_count k (take n (journal_log d)) = int (length (filter (\<lambda>r. row_stream r = k) (take n (db_envelopes d))))"
  using map_journal_log(4) [OF assms] by (simp add: stream_count_def take_map [symmetric] filter_map comp_def) (simp add: take_map filter_map comp_def)

lemma log_position_row:
  assumes "journal_inv d" "find_envelope d eid = Some en"
  defines "i \<equiv> log_position eid (journal_log d)"
  shows "i < length (journal_log d)" "db_envelopes d ! i = en" "journal_log d ! i = log_entry_of en (db_payloads d ! i)"
    "se_journal_sequence en = int i + 1" "se_stream_sequence en = stream_count (row_stream en) (take (Suc i) (journal_log d))"
proof -
  have k: "keys_ok d" and sq: "sequences_ok d" using assms(1) by (simp_all add: journal_inv_def)
  note log = map_journal_log [OF k]
  have i: "i < length (db_envelopes d)" "db_envelopes d ! i = en"
    using select_row_position [OF assms(2)] by (simp_all add: i_def log_position_def log(2))
  then show "i < length (journal_log d)" "db_envelopes d ! i = en" by (simp_all add: log(1))
  show "journal_log d ! i = log_entry_of en (db_payloads d ! i)"
    using i payloads_length [OF k] by (simp add: journal_log_def)
  have "se_journal_sequence en = map se_journal_sequence (db_envelopes d) ! i" using i by simp
  with sq i(1) show "se_journal_sequence en = int i + 1" by (simp add: sequences_ok_def upto_int_nth)
  have "map se_stream_sequence (filter (\<lambda>r. row_stream r = row_stream en) (db_envelopes d)) =
      upto_int (length (filter (\<lambda>r. row_stream r = row_stream en) (db_envelopes d)))"
    using sq by (simp add: sequences_ok_def stream_rows_def)
  from filtered_sequence [OF this i(1)] i(2)
  show "se_stream_sequence en = stream_count (row_stream en) (take (Suc i) (journal_log d))" by (simp add: stream_count_rows [OF k])
qed

subsection \<open>Refinement\<close>

lemma accept_insert_answers:
  "accept_insert e req d = (Done r, d') \<Longrightarrow> (\<exists>a. r = AcceptAccepted a) \<or> (\<exists>m. r = AcceptError m)"
  by (auto simp: accept_insert_def split: outcome.splits sum.splits)

lemma accept_answered_by_tx:
  "accept e req j = (Done (ExistingDuplicate a), j') \<Longrightarrow> \<exists>d. accept_tx e req (lj_db j) = (Done (ExistingDuplicate a), d)"
  "accept e req j = (Done (FingerprintConflict x), j') \<Longrightarrow> \<exists>d. accept_tx e req (lj_db j) = (Done (FingerprintConflict x), d)"
  by (auto simp: accept_def with_conn_def split: if_splits prod.splits outcome.splits)

lemma accept_tx_Duplicate:
  assumes "accept_tx e req d = (Done (ExistingDuplicate a), d')"
  obtains r s where "find_dedup d (aq_event_id req) = Some r" "dd_request_fingerprint r = bytes_of (aq_request_fingerprint req)"
    "get_status_impl e d (aq_event_id req) = StatusFound s" "a = accepted_of_status s"
  using assms accept_insert_answers [of e req d "ExistingDuplicate a" d']
  by (auto simp: accept_tx_def check_dedup_def accept_duplicate_def accept_new_def sql_Inr
      split: sum.splits option.splits if_splits status_result.splits)

lemma accept_tx_Conflict:
  assumes "accept_tx e req d = (Done (FingerprintConflict x), d')"
  obtains r where "find_dedup d (aq_event_id req) = Some r" "dd_request_fingerprint r \<noteq> bytes_of (aq_request_fingerprint req)"
  using assms accept_insert_answers [of e req d "FingerprintConflict x" d']
  by (auto simp: accept_tx_def check_dedup_def accept_duplicate_def accept_new_def sql_Inr
      split: sum.splits option.splits if_splits status_result.splits)

lemma dedup_row_found:
  assumes "journal_inv d" "dedups_ok d" "find_dedup d eid = Some r"
  obtains en where "find_envelope d eid = Some en" "se_request_fingerprint en = dd_request_fingerprint r"
proof -
  have k: "map dd_event_id (db_dedups d) = map se_event_id (db_envelopes d)" using assms(1) by (simp add: journal_inv_def keys_ok_def)
  have len: "length (db_dedups d) = length (db_envelopes d)" using k by (metis length_map)
  let ?i = "length (takeWhile (\<lambda>y. y \<noteq> eid) (map dd_event_id (db_dedups d)))"
  have i: "?i < length (db_dedups d)" "db_dedups d ! ?i = r" using select_row_position [OF assms(3)] by simp_all
  have "find_envelope d eid \<noteq> None" using select_row_absent [of se_event_id eid "db_envelopes d"] i(1) len k by auto
  then obtain en where en: "find_envelope d eid = Some en" by blast
  have "db_envelopes d ! ?i = en" using select_row_position [OF en] k by simp
  moreover have "map dd_request_fingerprint (db_dedups d) ! ?i = map se_request_fingerprint (db_envelopes d) ! ?i"
    using assms(2) by (simp add: dedups_ok_def)
  ultimately show ?thesis using that [OF en] i len by simp
qed

lemma stored_event_in_log:
  assumes "journal_inv d" "dedups_ok d" "find_dedup d eid = Some r"
  obtains en where "find_envelope d eid = Some en" "log_position eid (journal_log d) < length (journal_log d)"
    "le_fingerprint (journal_log d ! log_position eid (journal_log d)) = dd_request_fingerprint r"
    "se_journal_sequence en = int (log_position eid (journal_log d)) + 1"
    "se_stream_sequence en = stream_count (le_stream (journal_log d ! log_position eid (journal_log d)))
       (take (Suc (log_position eid (journal_log d))) (journal_log d))"
proof -
  obtain en where en: "find_envelope d eid = Some en" "se_request_fingerprint en = dd_request_fingerprint r"
    by (rule dedup_row_found [OF assms])
  note row = log_position_row [OF assms(1) en(1)]
  show ?thesis by (rule that [OF en(1) row(1)]) (simp_all add: row(3) log_entry_of_def en(2) row(4,5) [symmetric])
qed

lemma same_data_log: "same_data d d' \<Longrightarrow> journal_log d' = journal_log d"
  by (simp add: journal_log_def same_data_fields)

lemma accepted_is_append:
  assumes "journal_inv (lj_db j)" "accept e req j = (Done (AcceptAccepted a), j')"
  shows "log_accept (entry_of_request req) (journal_log (lj_db j)) =
    (LogAppended (ac_journal_sequence a) (ac_stream_sequence a), journal_log (lj_db j'))"
proof -
  let ?d = "lj_db j" and ?log = "journal_log (lj_db j)"
  have k: "keys_ok ?d" using assms(1) by (simp add: journal_inv_def)
  from accept_insert_Accepted [OF accept_Accepted [OF assms(2)]] obtain js ss where
    abs: "event_absent ?d (aq_event_id req)" and
    d': "lj_db j' = record_attempt e (event_added e req js ss ?d) (aq_event_id req) ''NEWLY_ACCEPTED'' None" by metis
  have "log_position (aq_event_id req) ?log = length ?log"
    using abs map_journal_log(1,2) [OF k] select_row_absent [of se_event_id "aq_event_id req" "db_envelopes ?d"]
    by (simp add: log_position_def event_absent_def)
  moreover have "journal_log (lj_db j') = ?log @ [entry_of_request req]"
    using journal_log_added [OF k, of e req js ss] by (simp add: d' journal_log_def)
  moreover have "ac_journal_sequence a = int (length ?log) + 1" "ac_stream_sequence a = stream_count (stream_key_of req) ?log + 1"
    using accepted_sequences [OF assms(2,1)] map_journal_log(1) [OF k]
      stream_count_rows [OF k, of "stream_key_of req" "length ?log"] by (simp_all add: stream_rows_def)
  ultimately show ?thesis by (simp add: log_accept_def entry_of_request_def Let_def)
qed

lemma duplicate_is_answered:
  assumes "journal_inv (lj_db j)" "dedups_ok (lj_db j)" "accept e req j = (Done (ExistingDuplicate a), j')"
  shows "log_accept (entry_of_request req) (journal_log (lj_db j)) =
    (LogDuplicate (ac_journal_sequence a) (ac_stream_sequence a), journal_log (lj_db j))"
proof -
  obtain d where "accept_tx e req (lj_db j) = (Done (ExistingDuplicate a), d)" using accept_answered_by_tx(1) [OF assms(3)] by blast
  then obtain w s where w: "find_dedup (lj_db j) (aq_event_id req) = Some w"
    "dd_request_fingerprint w = bytes_of (aq_request_fingerprint req)"
    "get_status_impl e (lj_db j) (aq_event_id req) = StatusFound s" "a = accepted_of_status s" by (rule accept_tx_Duplicate)
  show ?thesis
    by (rule stored_event_in_log [OF assms(1,2) w(1)])
      (use w in \<open>auto simp: log_accept_def entry_of_request_def Let_def get_status_Found describes_def accepted_of_status_def\<close>)
qed

lemma conflict_is_answered:
  assumes "journal_inv (lj_db j)" "dedups_ok (lj_db j)" "accept e req j = (Done (FingerprintConflict x), j')"
  shows "log_accept (entry_of_request req) (journal_log (lj_db j)) = (LogConflict, journal_log (lj_db j))"
proof -
  obtain d where "accept_tx e req (lj_db j) = (Done (FingerprintConflict x), d)" using accept_answered_by_tx(2) [OF assms(3)] by blast
  then obtain w where w: "find_dedup (lj_db j) (aq_event_id req) = Some w"
    "dd_request_fingerprint w \<noteq> bytes_of (aq_request_fingerprint req)" by (rule accept_tx_Conflict)
  show ?thesis
    by (rule stored_event_in_log [OF assms(1,2) w(1)]) (use w in \<open>auto simp: log_accept_def entry_of_request_def Let_def\<close>)
qed

text \<open>
  C2: accepting refines an append-only log. In every reachable journal and whatever statements fail,
  an answer \<^verbatim>\<open>Accepted\<close> is the abstract append (the event was not in the log, and its sequences are its
  position in the log and in its stream), an answer \<^verbatim>\<open>ExistingDuplicate\<close> or \<^verbatim>\<open>FingerprintConflict\<close> is
  the abstract answer for an event that is in the log, with the positions it was given first, and
  any other answer, a panic included, leaves the log as it is.
\<close>

theorem accept_refines_event_log:
  assumes "journal_reach sha j" "accept e req j = (r, j')"
  defines "log \<equiv> journal_log (lj_db j)" and "log' \<equiv> journal_log (lj_db j')"
  shows "case r of
      Done (AcceptAccepted a) \<Rightarrow>
        log_accept (entry_of_request req) log = (LogAppended (ac_journal_sequence a) (ac_stream_sequence a), log')
    | Done (ExistingDuplicate a) \<Rightarrow>
        log_accept (entry_of_request req) log = (LogDuplicate (ac_journal_sequence a) (ac_stream_sequence a), log')
    | Done (FingerprintConflict eid) \<Rightarrow> log_accept (entry_of_request req) log = (LogConflict, log')
    | _ \<Rightarrow> log' = log"
proof -
  have inv: "journal_inv (lj_db j)" and dd: "dedups_ok (lj_db j)" using assms(1) journal_reach_inv journal_reach_dedups_ok by blast+
  have same: "log' = log" if "\<And>a. r \<noteq> Done (AcceptAccepted a)"
    using accept_unchanged [OF assms(2) that] by (simp add: log_def log'_def same_data_log)
  have "log_accept (entry_of_request req) log = (LogAppended (ac_journal_sequence a) (ac_stream_sequence a), log')"
    if "r = Done (AcceptAccepted a)" for a using accepted_is_append [OF inv] assms(2) that by (simp add: log_def log'_def)
  moreover have "log_accept (entry_of_request req) log = (LogDuplicate (ac_journal_sequence a) (ac_stream_sequence a), log')"
    if "r = Done (ExistingDuplicate a)" for a using duplicate_is_answered [OF inv dd] assms(2) that same by (simp add: log_def)
  moreover have "log_accept (entry_of_request req) log = (LogConflict, log')" if "r = Done (FingerprintConflict x)" for x
    using conflict_is_answered [OF inv dd] assms(2) that same by (simp add: log_def)
  ultimately show ?thesis using same by (auto split: outcome.split accept_result.split)
qed

theorem accept_refines_event_log_witness:
  "\<exists>j'. accept sample_env sample_request sample_journal = (Done (AcceptAccepted sample_accepted), j') \<and>
     log_accept (entry_of_request sample_request) [] = (LogAppended 1 1, journal_log (lj_db j')) \<and>
     log_accept (entry_of_request sample_request) (journal_log (lj_db j')) = (LogDuplicate 1 1, journal_log (lj_db j'))"
proof -
  obtain j' where acc: "accept sample_env sample_request sample_journal = (Done (AcceptAccepted sample_accepted), j')"
    using sample_accept by blast
  have "journal_reach (env_sha sample_env) sample_journal" by (rule journal_reach.fresh) (simp add: sample_journal_def)
  from accept_refines_event_log [OF this acc]
  have "log_accept (entry_of_request sample_request) [] = (LogAppended 1 1, journal_log (lj_db j'))"
    by (simp add: sample_journal_def journal_log_def empty_db_def sample_accepted_def)
  moreover from this have "journal_log (lj_db j') = [entry_of_request sample_request]"
    by (simp add: log_accept_def log_position_def Let_def)
  ultimately show ?thesis using acc by (auto simp: log_accept_def log_position_def stream_count_def Let_def)
qed

text \<open>The log only grows, by whatever method is called.\<close>

lemma event_log_only_grows:
  assumes "(journal_step sha)\<^sup>*\<^sup>* j j'" "journal_reach sha j"
  shows "prefix (journal_log (lj_db j)) (journal_log (lj_db j'))"
  using assms(1)
proof (induction rule: rtranclp_induct)
  case (step y z)
  have inv: "journal_inv (lj_db y)" using journal_steps_inv [OF step(1)] journal_reach_inv [OF assms(2)] .
  have "prefix (journal_log (lj_db y)) (journal_log (lj_db z))"
    using db_step_events [OF journal_step_db [OF step(2) inv]]
  proof
    assume "\<exists>e req a. env_sha e = sha \<and> in_i32 (aq_schema_version req) \<and> accept_tx e req (lj_db y) = (Done (AcceptAccepted a), lj_db z)"
    then show ?thesis using inv journal_log_added
      by (auto elim!: accept_tx_added simp: journal_inv_def) (simp add: journal_log_def)
  qed (simp add: journal_log_def)
  with step.IH show ?case by (rule prefix_order.trans)
qed simp

end
