(* ===== verification/Journal_Typing.thy ===== *)
theory Journal_Typing
  imports Journal_System
begin

text \<open>
  The types of the stored cells. SQLite's columns hold any 64-bit integer, text or blob; the code reads
  them back as \<^verbatim>\<open>i64\<close>, \<^verbatim>\<open>i32\<close>, \<^verbatim>\<open>[u8; 32]\<close> or a status name and fails when a cell does not fit. The sequences,
  revisions, digests and status names fit in every reachable state; the attempt count, which an \<^verbatim>\<open>UPDATE\<close> adds one to,
  exceeds the \<^verbatim>\<open>i32\<close> it is read with by at most one.
\<close>

definition digest_cell :: "bytes \<Rightarrow> bool" where
  "digest_cell b \<longleftrightarrow> length b = 32"

definition envelope_typed :: "envelope_row \<Rightarrow> bool" where
  "envelope_typed r \<longleftrightarrow> in_i64 (se_journal_sequence r) \<and> 1 \<le> se_journal_sequence r \<and>
     in_i64 (se_stream_sequence r) \<and> 1 \<le> se_stream_sequence r \<and> in_i32 (se_schema_version r) \<and>
     digest_cell (se_payload_digest r) \<and> digest_cell (se_request_fingerprint r) \<and> digest_cell (se_envelope_checksum r)"

definition payload_typed :: "payload_row \<Rightarrow> bool" where
  "payload_typed r \<longleftrightarrow> digest_cell (pb_payload_digest r)"

definition dedup_typed :: "dedup_row \<Rightarrow> bool" where
  "dedup_typed r \<longleftrightarrow> digest_cell (dd_request_fingerprint r)"

definition stream_head_typed :: "stream_head_row \<Rightarrow> bool" where
  "stream_head_typed r \<longleftrightarrow> in_i64 (sh_head_sequence r)"

definition lifecycle_typed :: "lifecycle_row \<Rightarrow> bool" where
  "lifecycle_typed r \<longleftrightarrow> in_i64 (ls_revision r) \<and> digest_cell (ls_lifecycle_checksum r) \<and>
     is_allowed_delivery_status (ls_delivery_status r) \<and> is_allowed_retention_status (ls_retention_status r)"

definition delivery_typed :: "delivery_row \<Rightarrow> bool" where
  "delivery_typed r \<longleftrightarrow> in_i64 (dr_delivery_revision r) \<and> digest_cell (dr_delivery_checksum r) \<and>
     (case dr_routing_fingerprint r of None \<Rightarrow> True | Some f \<Rightarrow> digest_cell f) \<and>
     dr_delivery_status r \<in> set supported_delivery_statuses \<and>
     0 \<le> dr_attempt_count r \<and> dr_attempt_count r \<le> i32_max + 1"

definition db_typed :: "db \<Rightarrow> bool" where
  "db_typed d \<longleftrightarrow>
     list_all envelope_typed (db_envelopes d) \<and> list_all payload_typed (db_payloads d) \<and>
     list_all dedup_typed (db_dedups d) \<and> list_all stream_head_typed (db_stream_heads d) \<and>
     list_all lifecycle_typed (db_lifecycles d) \<and> list_all delivery_typed (db_deliveries d)"

subsection \<open>Tables and lookups\<close>

text \<open>Under a primary key a property of all rows is one of all lookups.\<close>

lemma list_all_select:
  "distinct (map key rows) \<Longrightarrow> list_all P rows \<longleftrightarrow> (\<forall>k r. select_row key k rows = Some r \<longrightarrow> P r)"
  unfolding list_all_iff using select_row_distinct [of key rows] select_row_Some_in [of key _ rows] by blast

lemma list_all_upsert: "list_all P rows \<Longrightarrow> P r \<Longrightarrow> list_all P (upsert_row key r rows)"
  by (auto simp: upsert_row_def list_all_iff)

text \<open>A replaced row keeps a table typed.\<close>

lemma list_all_replaced:
  assumes "list_all P rows" "distinct (map key rows)" "map key rows' = map key rows"
    and "select_row key eid rows' = Some r" "P r" "\<forall>k. k \<noteq> eid \<longrightarrow> select_row key k rows' = select_row key k rows"
  shows "list_all P rows'"
proof -
  have "distinct (map key rows')" using assms(2,3) by simp
  moreover have "P r'" if "select_row key k rows' = Some r'" for k r'
    using assms that list_all_select [OF assms(2), of P] by (cases "k = eid") auto
  ultimately show ?thesis by (simp add: list_all_select)
qed

subsection \<open>The rows an operation writes\<close>

lemma new_rows_typed:
  "payload_typed (new_payload_row e req)" "dedup_typed (new_dedup_row req)" "lifecycle_typed (new_lifecycle_row e req)"
  by (simp_all add: payload_typed_def dedup_typed_def lifecycle_typed_def digest_cell_def new_payload_row_def
      new_dedup_row_def new_lifecycle_row_def in_i64_def i64_max_def is_allowed_delivery_status_def is_allowed_retention_status_def)

lemma lifecycle_after_typed:
  assumes "arith_i64 c x = Done lrev" "is_allowed_delivery_status st" "is_allowed_retention_status (ls_retention_status l)"
  shows "lifecycle_typed (lifecycle_after e lrev st l)"
  using assms arith_i64_range [OF assms(1)] by (simp add: lifecycle_typed_def lifecycle_after_def digest_cell_def)

lemma delivery_row_of_typed:
  "in_i64 (ds_delivery_revision s) \<Longrightarrow> ds_delivery_status s \<in> set supported_delivery_statuses \<Longrightarrow>
     0 \<le> ds_attempt_count s \<Longrightarrow> ds_attempt_count s \<le> i32_max + 1 \<Longrightarrow> delivery_typed (delivery_row_of s)"
  by (auto simp: delivery_typed_def delivery_row_of_def digest_cell_def split: option.splits)

definition steps_typed :: "db \<Rightarrow> bool" where
  "steps_typed d \<longleftrightarrow> list_all payload_typed (db_payloads d) \<and> list_all dedup_typed (db_dedups d) \<and>
     list_all stream_head_typed (db_stream_heads d) \<and> list_all lifecycle_typed (db_lifecycles d) \<and>
     list_all delivery_typed (db_deliveries d)"

lemma transitioned_typed:
  assumes "transitioned e eid s' st d d'" "keys_ok d" "steps_typed d"
    and "in_i64 (ds_delivery_revision s')" "ds_delivery_status s' \<in> set supported_delivery_statuses" "is_allowed_delivery_status st"
    and count: "0 \<le> ds_attempt_count s'" "ds_attempt_count s' \<le> i32_max + 1"
  shows "steps_typed d'"
proof -
  from assms(1) obtain l lrev where l: "lifecycle_ok e l" "arith_i64 (env_overflow_checks e) (ls_revision l + 1) = Done lrev"
    "find_lifecycle d' eid = Some (lifecycle_after e lrev st l)"
    unfolding transitioned_def by blast
  from assms(1) have row: "find_delivery d' eid = Some (delivery_row_of (stored e s'))"
    and other: "\<forall>k. k \<noteq> eid \<longrightarrow> find_delivery d' k = find_delivery d k" "\<forall>k. k \<noteq> eid \<longrightarrow> find_lifecycle d' k = find_lifecycle d k"
    and keys: "map ls_event_id (db_lifecycles d') = map ls_event_id (db_lifecycles d)"
      "map dr_event_id (db_deliveries d') = map dr_event_id (db_deliveries d)"
    and d': "d' = d\<lparr>db_deliveries := db_deliveries d', db_lifecycles := db_lifecycles d'\<rparr>"
    unfolding transitioned_def by blast+
  have ok: "distinct (map ls_event_id (db_lifecycles d))" "distinct (map dr_event_id (db_deliveries d))"
    "list_all lifecycle_typed (db_lifecycles d)" "list_all delivery_typed (db_deliveries d)"
    using assms(2,3) by (simp_all add: keys_ok_def steps_typed_def)
  note lc = lifecycle_after_typed [OF l(2) assms(6) lifecycle_ok_retention [OF l(1)]]
  have dl: "delivery_typed (delivery_row_of (stored e s'))"
    using assms(4,5) count by (intro delivery_row_of_typed) (simp_all add: stored_def)
  have "list_all lifecycle_typed (db_lifecycles d')" by (rule list_all_replaced [OF ok(3,1) keys(1) l(3) lc other(2)])
  moreover have "list_all delivery_typed (db_deliveries d')" by (rule list_all_replaced [OF ok(4,2) keys(2) row dl other(1)])
  ultimately show ?thesis using d' assms(3) by (cases d; cases d') (simp add: steps_typed_def)
qed

lemma delivery_replaced_typed:
  assumes "delivery_replaced e eid s' d d'" "keys_ok d" "steps_typed d"
    and "in_i64 (ds_delivery_revision s')" "ds_delivery_status s' \<in> set supported_delivery_statuses"
    and count: "0 \<le> ds_attempt_count s'" "ds_attempt_count s' \<le> i32_max + 1"
  shows "steps_typed d'"
proof -
  from assms(1) have row: "find_delivery d' eid = Some (delivery_row_of s')"
    and other: "\<forall>k. k \<noteq> eid \<longrightarrow> find_delivery d' k = find_delivery d k"
    and keys: "map dr_event_id (db_deliveries d') = map dr_event_id (db_deliveries d)"
    unfolding delivery_replaced_def by blast+
  have ok: "list_all delivery_typed (db_deliveries d)" "distinct (map dr_event_id (db_deliveries d))"
    using assms(2,3) by (simp_all add: keys_ok_def steps_typed_def)
  have "list_all delivery_typed (db_deliveries d')"
    by (rule list_all_replaced [OF ok keys row delivery_row_of_typed [OF assms(4,5) count] other])
  moreover have "d' = d\<lparr>db_deliveries := db_deliveries d', db_delivery_attempts := db_delivery_attempts d',
      db_delivery_attempt_seq := db_delivery_attempt_seq d'\<rparr>"
    using assms(1) unfolding delivery_replaced_def by blast
  ultimately show ?thesis using assms(3) by (cases d; cases d') (simp add: steps_typed_def)
qed

text \<open>A delivery that was read is stored as it was read.\<close>

lemma loaded_delivery_typed:
  assumes "load_delivery_state e d eid = DeliveryFound s" "steps_typed d"
  shows "in_i64 (ds_delivery_revision s)" "ds_delivery_status s \<in> set supported_delivery_statuses"
    "0 \<le> ds_attempt_count s" "ds_attempt_count s \<le> i32_max"
proof -
  have "delivery_row_of s \<in> set (db_deliveries d)" using assms(1) by (auto simp: load_delivery_Found dest: select_row_Some_in)
  then have "delivery_typed (delivery_row_of s)" using assms(2) by (auto simp: steps_typed_def list_all_iff)
  then show "in_i64 (ds_delivery_revision s)" "ds_delivery_status s \<in> set supported_delivery_statuses" "0 \<le> ds_attempt_count s"
    by (simp_all add: delivery_typed_def delivery_row_of_def)
  show "ds_attempt_count s \<le> i32_max"
    using assms(1) by (simp add: load_delivery_Found delivery_ok_def delivery_row_readable_def delivery_row_of_def in_i32_def)
qed

lemmas supported_eval = supported_delivery_statuses_def is_allowed_delivery_status_def confirmed_record_def blocked_record_def
  retrying_record_def attempted_record_def pending_record_def stored_def

lemma db_step_typed:
  assumes "db_step sha d d'" "journal_inv d" "steps_typed d"
  shows "steps_typed d'"
proof -
  have keys: "keys_ok d" using assms(2) by (simp add: journal_inv_def)
  show ?thesis using assms(1)
  proof cases
    case db_same
    with assms(3) show ?thesis by simp
  next
    case db_history
    then show ?thesis using assms(3) by (auto simp: steps_typed_def dest!: same_data_fields)
  next
    case (db_accept e req a)
    from accept_tx_Accepted [OF db_accept(3)] obtain js ss where
      ar: "arith_i64 (env_overflow_checks e) (stream_head d (stream_key_of req) + 1) = Done ss"
      and d': "d' = record_attempt e (event_added e req js ss d) (aq_event_id req) ''NEWLY_ACCEPTED'' None"
      by (rule accept_insert_Accepted)
    have "stream_head_typed \<lparr>sh_stream_key = stream_key_of req, sh_head_sequence = ss\<rparr>"
      using arith_i64_range [OF ar] by (simp add: stream_head_typed_def)
    with assms(3) show ?thesis by (simp add: d' event_added_def steps_typed_def new_rows_typed list_all_upsert)
  next
    case (db_lifecycle e eid rv ds rs)
    from db_lifecycle(2) obtain l lrev where l: "arith_i64 (env_overflow_checks e) (rv + 1) = Done lrev"
      "find_lifecycle d' eid = Some (lifecycle_after e lrev (local_delivery_as_str ds) (l\<lparr>ls_retention_status := local_retention_as_str rs\<rparr>))"
      "\<forall>k. k \<noteq> eid \<longrightarrow> find_lifecycle d' k = find_lifecycle d k" "map ls_event_id (db_lifecycles d') = map ls_event_id (db_lifecycles d)"
      "d' = d\<lparr>db_lifecycles := db_lifecycles d'\<rparr>" by (rule update_lifecycle_Updated) blast
    have lc: "lifecycle_typed (lifecycle_after e lrev (local_delivery_as_str ds) (l\<lparr>ls_retention_status := local_retention_as_str rs\<rparr>))"
      using l(1) local_status_allowed by (intro lifecycle_after_typed) simp_all
    have ok: "list_all lifecycle_typed (db_lifecycles d)" "distinct (map ls_event_id (db_lifecycles d))"
      using assms(2,3) by (simp_all add: journal_inv_def keys_ok_def steps_typed_def)
    have "list_all lifecycle_typed (db_lifecycles d')" by (rule list_all_replaced [OF ok l(4,2) lc l(3)])
    with l(5) assms(3) show ?thesis by (cases d; cases d') (simp add: steps_typed_def)
  next
    case (db_create e eid rf pid pv topic)
    have "delivery_typed (delivery_row_of (stored e (pending_record e eid rf pid pv topic)))"
      by (rule delivery_row_of_typed) (simp_all add: supported_eval in_i64_def i64_max_def i32_max_def)
    with create_Updated(3) [OF db_create(2)] assms(3) show ?thesis by (simp add: steps_typed_def)
  next
    case (db_attempt e attempt)
    from db_attempt(2) obtain s n where ld: "load_delivery_state e d (da_event_id attempt) = DeliveryFound s"
      and rep: "delivery_replaced e (da_event_id attempt) (stored e (attempted_record e attempt n s)\<lparr>ds_attempt_count := ds_attempt_count s + 1\<rparr>) d d'"
      by (rule record_delivery_Updated)
    show ?thesis using loaded_delivery_typed [OF ld assms(3)]
      by (intro delivery_replaced_typed [OF rep keys assms(3)]) (simp_all add: stored_def attempted_record_def)
  next
    case (db_confirm e eid rv c)
    from db_confirm(2) obtain s new_rev where ld: "load_delivery_state e d eid = DeliveryFound s"
      and rev: "arith_i64 (env_overflow_checks e) (rv + 1) = Done new_rev"
      and tr: "transitioned e eid (confirmed_record e c new_rev s) ''REPLICATED'' d d'" by (rule confirm_Updated)
    show ?thesis using arith_i64_range [OF rev] loaded_delivery_typed [OF ld assms(3)] by (intro transitioned_typed [OF tr keys assms(3)]) (simp_all add: supported_eval)
  next
    case (db_block e eid rv reason)
    from db_block(2) obtain s new_rev where ld: "load_delivery_state e d eid = DeliveryFound s"
      and rev: "arith_i64 (env_overflow_checks e) (rv + 1) = Done new_rev"
      and tr: "transitioned e eid (blocked_record e reason new_rev s) ''DELIVERY_BLOCKED'' d d'" by (rule block_Updated)
    show ?thesis using arith_i64_range [OF rev] loaded_delivery_typed [OF ld assms(3)] by (intro transitioned_typed [OF tr keys assms(3)]) (simp_all add: supported_eval)
  next
    case (db_retry e eid rv t)
    from db_retry(2) obtain s new_rev where ld: "load_delivery_state e d eid = DeliveryFound s"
      and rev: "arith_i64 (env_overflow_checks e) (rv + 1) = Done new_rev"
      and rep: "delivery_replaced e eid (stored e (retrying_record e t new_rev s)) d d'" by (rule retry_Updated)
    show ?thesis using arith_i64_range [OF rev] loaded_delivery_typed [OF ld assms(3)] by (intro delivery_replaced_typed [OF rep keys assms(3)]) (simp_all add: supported_eval)
  qed
qed

lemma journal_reach_steps_typed: "journal_reach sha j \<Longrightarrow> steps_typed (lj_db j)"
proof (induction rule: journal_reach.induct)
  case (again j j')
  with journal_step_db journal_reach_inv db_step_typed show ?case by blast
qed (simp add: steps_typed_def empty_db_def)

text \<open>The envelope cells follow from the sequence and checksum invariants.\<close>

lemma journal_reach_envelope_typed:
  assumes "journal_reach sha j" "en \<in> set (db_envelopes (lj_db j))"
  shows "envelope_typed en"
proof -
  let ?d = "lj_db j" and ?k = "row_stream en"
  have inv: "journal_inv ?d" by (rule journal_reach_inv [OF assms(1)])
  have len: "in_i64 (int (length (db_envelopes ?d)))" by (rule journal_reach_length [OF assms(1)])
  have "set (map se_journal_sequence (db_envelopes ?d)) = {1..int (length (db_envelopes ?d))}"
    "set (map se_stream_sequence (stream_rows ?d ?k)) = {1..int (length (stream_rows ?d ?k))}"
    using inv by (simp_all add: journal_inv_def sequences_ok_def del: set_map)
  moreover have "se_journal_sequence en \<in> set (map se_journal_sequence (db_envelopes ?d))"
    "se_stream_sequence en \<in> set (map se_stream_sequence (stream_rows ?d ?k))"
    using assms(2) by (simp_all add: stream_rows_def)
  ultimately have "se_journal_sequence en \<in> {1..int (length (db_envelopes ?d))}" "se_stream_sequence en \<in> {1..int (length (stream_rows ?d ?k))}"
    by blast+
  with len stream_rows_length [of ?d ?k] have seq: "in_i64 (se_journal_sequence en) \<and> 1 \<le> se_journal_sequence en"
    "in_i64 (se_stream_sequence en) \<and> 1 \<le> se_stream_sequence en" by (auto simp: in_i64_def i64_max_def)
  have "find_envelope ?d (se_event_id en) = Some en"
    using inv assms(2) by (intro select_row_distinct) (simp_all add: journal_inv_def keys_ok_def)
  then have "envelope_ok (sample_env\<lparr>env_sha := sha\<rparr>) en"
    using journal_reach_events_ok [OF assms(1)] unfolding events_ok_def by simp
  with seq show ?thesis by (auto simp: envelope_ok_iff envelope_typed_def digest_cell_def)
qed

text \<open>
  C20: stored cells keep their types. In every state reachable by method calls, with any engine failures
  and in either build, every sequence, revision and stream head is an \<^verbatim>\<open>i64\<close> (sequences positive), every
  schema version an \<^verbatim>\<open>i32\<close>, every digest, fingerprint and checksum has 32 bytes, every status is one of
  the names the reads accept, and every attempt count is between $0$ and $2^{31}$ (the last value, reached by the
  unchecked build only, no longer reads as an \<^verbatim>\<open>i32\<close>; then no further attempt is recorded).
\<close>

theorem reachable_journal_is_well_typed:
  assumes "journal_reach sha j"
  shows "db_typed (lj_db j)"
  using journal_reach_steps_typed [OF assms] journal_reach_envelope_typed [OF assms]
  by (simp add: db_typed_def steps_typed_def list_all_iff)

theorem reachable_journal_is_well_typed_witness:
  "\<exists>j en. accept sample_env sample_request sample_journal = (Done (AcceptAccepted sample_accepted), j) \<and>
     db_envelopes (lj_db j) = [en] \<and> envelope_typed en"
proof -
  obtain j where acc: "accept sample_env sample_request sample_journal = (Done (AcceptAccepted sample_accepted), j)"
    using sample_accept by blast
  have "journal_reach (env_sha sample_env) sample_journal" by (rule fresh) (simp add: sample_journal_def)
  moreover have "journal_step (env_sha sample_env) sample_journal j"
    by (rule step_accept [OF refl _ acc]) (simp add: sample_request_def in_i32_def i32_max_def)
  ultimately have "journal_reach (env_sha sample_env) j" by (rule again)
  note r = reachable_journal_is_well_typed [OF this]
  obtain js ss where
    "lj_db j = record_attempt sample_env (event_added sample_env sample_request js ss (lj_db sample_journal))
       (aq_event_id sample_request) ''NEWLY_ACCEPTED'' None"
    by (rule accept_insert_Accepted [OF accept_Accepted [OF acc]])
  then have "db_envelopes (lj_db j) = [new_envelope_row sample_env sample_request js ss]"
    by (simp add: event_added_def sample_journal_def empty_db_def)
  with acc r show ?thesis by (auto simp: db_typed_def)
qed

end
