(* ===== verification/Kafka_Gate.thy ===== *)
theory Kafka_Gate
  imports Journal_Integrity
begin

text \<open>
  The ordering gate of \<^verbatim>\<open>craftrelay-kafka-delivery\<close> (\<^verbatim>\<open>gate.rs\<close>). The locale \<open>stream_gate\<close> states
  what the delivery service relies on: per stream there is one next sequence and at most one send in
  flight, and only the next sequence of a stream that is not busy may start. In the locale every
  disciplined use completes the sequences of each stream in order, without gap or repetition; the
  gate of the code is an instance of it.
\<close>

subsection \<open>The gate of the code\<close>

datatype gate_decision = GateAllowed | GateBlocked i64

record recovered_stream_state =
  rs_stream_key :: string
  rs_stream_sequence :: i64
  rs_replicated :: bool
  rs_blocking :: bool
  rs_in_flight :: bool

record stream_gate_state =
  sg_highest_completed :: i64
  sg_in_flight :: "i64 option"
  sg_blocking :: "i64 option"

text \<open>The \<^verbatim>\<open>BTreeMap\<close> of the gate.\<close>

type_synonym ordering_gate = "string \<rightharpoonup> stream_gate_state"

definition new_gate :: ordering_gate where
  "new_gate = Map.empty"

text \<open>The value inserted by \<^verbatim>\<open>or_insert\<close>, and the entry of a stream.\<close>

definition fresh_stream :: stream_gate_state where
  "fresh_stream = \<lparr>sg_highest_completed = 0, sg_in_flight = None, sg_blocking = None\<rparr>"

definition gate_entry :: "ordering_gate \<Rightarrow> string \<Rightarrow> stream_gate_state" where
  "gate_entry g stream_key = (case g stream_key of None \<Rightarrow> fresh_stream | Some st \<Rightarrow> st)"

definition gate_check :: "bool \<Rightarrow> ordering_gate \<Rightarrow> string \<Rightarrow> i64 \<Rightarrow> gate_decision outcome" where
  "gate_check checks g stream_key stream_sequence =
     (case g stream_key of
        None \<Rightarrow> Done (if stream_sequence = 1 then GateAllowed else GateBlocked 1)
      | Some state \<Rightarrow>
          bind_outcome (arith_i64 checks (sg_highest_completed state + 1)) (\<lambda>next.
            case sg_in_flight state of
              Some in_flight \<Rightarrow> Done (GateBlocked in_flight)
            | None \<Rightarrow>
                (case sg_blocking state of
                   Some blocking \<Rightarrow>
                     Done (if stream_sequence = blocking then GateAllowed else GateBlocked blocking)
                 | None \<Rightarrow> Done (if stream_sequence = next then GateAllowed else GateBlocked next))))"

definition mark_in_flight :: "string \<Rightarrow> i64 \<Rightarrow> ordering_gate \<Rightarrow> ordering_gate" where
  "mark_in_flight stream_key stream_sequence g =
     g(stream_key \<mapsto> (gate_entry g stream_key)\<lparr>sg_in_flight := Some stream_sequence, sg_blocking := None\<rparr>)"

definition mark_blocking :: "string \<Rightarrow> i64 \<Rightarrow> ordering_gate \<Rightarrow> ordering_gate" where
  "mark_blocking stream_key stream_sequence g =
     (let state = gate_entry g stream_key;
          in_flight = (if sg_in_flight state = Some stream_sequence then None else sg_in_flight state) in
      g(stream_key \<mapsto> state\<lparr>sg_in_flight := in_flight, sg_blocking := Some stream_sequence\<rparr>))"

definition mark_completed :: "string \<Rightarrow> i64 \<Rightarrow> ordering_gate \<Rightarrow> ordering_gate" where
  "mark_completed stream_key stream_sequence g =
     (let state = gate_entry g stream_key;
          in_flight = (if sg_in_flight state = Some stream_sequence then None else sg_in_flight state);
          blocking = (if sg_blocking state = Some stream_sequence then None else sg_blocking state) in
      g(stream_key \<mapsto> \<lparr>sg_highest_completed = stream_sequence, sg_in_flight = in_flight, sg_blocking = blocking\<rparr>))"

text \<open>One iteration of the loop of \<^verbatim>\<open>recover_from_scan\<close>.\<close>

definition recover_one :: "recovered_stream_state \<Rightarrow> ordering_gate \<Rightarrow> ordering_gate" where
  "recover_one recovered g =
     (let entry = gate_entry g (rs_stream_key recovered);
          sequence = rs_stream_sequence recovered;
          highest = (if rs_replicated recovered \<and> sequence > sg_highest_completed entry then sequence
                     else sg_highest_completed entry);
          blocking = (if rs_blocking recovered
                      then (case sg_blocking entry of Some existing \<Rightarrow> Some (min existing sequence) | None \<Rightarrow> Some sequence)
                      else sg_blocking entry);
          in_flight = (if rs_in_flight recovered then Some sequence else sg_in_flight entry) in
      g(rs_stream_key recovered \<mapsto> \<lparr>sg_highest_completed = highest, sg_in_flight = in_flight, sg_blocking = blocking\<rparr>))"

definition recover_from_scan :: "recovered_stream_state list \<Rightarrow> ordering_gate \<Rightarrow> ordering_gate" where
  "recover_from_scan states g = fold recover_one states new_gate"

definition stream_count :: "ordering_gate \<Rightarrow> nat" where
  "stream_count g = card (dom g)"

subsection \<open>The contract\<close>

datatype gate_event = Start string i64 | Hold string i64 | Complete string i64

text \<open>The sequences completed for a stream, in order.\<close>

fun completions :: "string \<Rightarrow> gate_event list \<Rightarrow> i64 list" where
  "completions k [] = []"
| "completions k (Complete k' s # es) = (if k' = k then s # completions k es else completions k es)"
| "completions k (e # es) = completions k es"

text \<open>
  A disciplined use of a gate: a send starts only where the gate allows it, and only a send in
  flight is completed or put on hold. \<open>gate_run\<close> is the gate after the events, or \<open>None\<close> when one
  of them breaks the discipline.
\<close>

fun gate_run ::
    "('g \<Rightarrow> string \<Rightarrow> i64 \<Rightarrow> bool) \<Rightarrow> ('g \<Rightarrow> string \<Rightarrow> i64 \<Rightarrow> bool) \<Rightarrow> (string \<Rightarrow> i64 \<Rightarrow> 'g \<Rightarrow> 'g) \<Rightarrow> (string \<Rightarrow> i64 \<Rightarrow> 'g \<Rightarrow> 'g)
       \<Rightarrow> (string \<Rightarrow> i64 \<Rightarrow> 'g \<Rightarrow> 'g) \<Rightarrow> gate_event list \<Rightarrow> 'g \<Rightarrow> 'g option" where
  "gate_run allowed flying start hold complete [] g = Some g"
| "gate_run allowed flying start hold complete (Start k s # es) g =
     (if allowed g k s then gate_run allowed flying start hold complete es (start k s g) else None)"
| "gate_run allowed flying start hold complete (Hold k s # es) g =
     (if flying g k s then gate_run allowed flying start hold complete es (hold k s g) else None)"
| "gate_run allowed flying start hold complete (Complete k s # es) g =
     (if flying g k s then gate_run allowed flying start hold complete es (complete k s g) else None)"

text \<open>The sequences the journal hands out: positive, in the range of \<^verbatim>\<open>i64\<close>.\<close>

definition seq_ok :: "i64 \<Rightarrow> bool" where
  "seq_ok s \<longleftrightarrow> 1 \<le> s \<and> in_i64 s"

fun event_ok :: "gate_event \<Rightarrow> bool" where
  "event_ok (Start k s) = seq_ok s"
| "event_ok (Hold k s) = seq_ok s"
| "event_ok (Complete k s) = seq_ok s"

locale stream_gate =
  fixes ok :: "'g \<Rightarrow> bool"
    and nxt :: "'g \<Rightarrow> string \<Rightarrow> i64"
    and room :: "'g \<Rightarrow> string \<Rightarrow> bool"
    and busy :: "'g \<Rightarrow> string \<Rightarrow> bool"
    and allowed :: "'g \<Rightarrow> string \<Rightarrow> i64 \<Rightarrow> bool"
    and flying :: "'g \<Rightarrow> string \<Rightarrow> i64 \<Rightarrow> bool"
    and start :: "string \<Rightarrow> i64 \<Rightarrow> 'g \<Rightarrow> 'g"
    and hold :: "string \<Rightarrow> i64 \<Rightarrow> 'g \<Rightarrow> 'g"
    and complete :: "string \<Rightarrow> i64 \<Rightarrow> 'g \<Rightarrow> 'g"
  assumes allowed_only: "ok g \<Longrightarrow> seq_ok s \<Longrightarrow> allowed g k s \<Longrightarrow> s = nxt g k \<and> \<not> busy g k"
    and allowed_next: "ok g \<Longrightarrow> room g k \<Longrightarrow> seq_ok (nxt g k) \<Longrightarrow> \<not> busy g k \<Longrightarrow> allowed g k (nxt g k)"
    and flying_only: "ok g \<Longrightarrow> flying g k s \<Longrightarrow> s = nxt g k \<and> busy g k"
    and start_spec: "ok g \<Longrightarrow> seq_ok s \<Longrightarrow> s = nxt g k \<Longrightarrow>
      ok (start k s g) \<and> nxt (start k s g) = nxt g \<and> busy (start k s g) = (busy g)(k := True)"
    and hold_spec: "ok g \<Longrightarrow> seq_ok s \<Longrightarrow> s = nxt g k \<Longrightarrow>
      ok (hold k s g) \<and> nxt (hold k s g) = nxt g \<and> busy (hold k s g) = (busy g)(k := False)"
    and complete_spec: "ok g \<Longrightarrow> seq_ok s \<Longrightarrow> s = nxt g k \<Longrightarrow>
      ok (complete k s g) \<and> nxt (complete k s g) = (nxt g)(k := s + 1) \<and> busy (complete k s g) = (busy g)(k := False)"
begin

lemma run_completes_in_order:
  assumes "ok g" "list_all event_ok es" "gate_run allowed flying start hold complete es g = Some g'"
  shows "ok g' \<and> nxt g' k = nxt g k + int (length (completions k es)) \<and>
    completions k es = map (\<lambda>i. nxt g k + int i) [0..<length (completions k es)]"
  using assms
proof (induction es arbitrary: g)
  case (Cons e es)
  show ?case
  proof (cases e)
    case (Start k' s)
    with Cons.prems have s: "s = nxt g k'" and run: "gate_run allowed flying start hold complete es (start k' s g) = Some g'"
      using allowed_only by (auto split: if_splits)
    have "seq_ok s" using Cons.prems(2) by (simp add: Start)
    note sp = start_spec [OF Cons.prems(1) this s]
    from Cons.IH [OF _ _ run] Cons.prems(2) sp show ?thesis by (simp add: Start)
  next
    case (Hold k' s)
    with Cons.prems have s: "s = nxt g k'" and run: "gate_run allowed flying start hold complete es (hold k' s g) = Some g'"
      using flying_only by (auto split: if_splits)
    have "seq_ok s" using Cons.prems(2) by (simp add: Hold)
    note sp = hold_spec [OF Cons.prems(1) this s]
    from Cons.IH [OF _ _ run] Cons.prems(2) sp show ?thesis by (simp add: Hold)
  next
    case (Complete k' s)
    with Cons.prems have s: "s = nxt g k'" and run: "gate_run allowed flying start hold complete es (complete k' s g) = Some g'"
      using flying_only by (auto split: if_splits)
    have "seq_ok s" using Cons.prems(2) by (simp add: Complete)
    note sp = complete_spec [OF Cons.prems(1) this s]
    have "list_all event_ok es" using Cons.prems(2) by simp
    note IH = Cons.IH [OF conjunct1 [OF sp] this run]
    show ?thesis
    proof (cases "k' = k")
      case False
      with IH sp show ?thesis by (simp add: Complete)
    next
      case True
      let ?n = "length (completions k es)"
      from IH sp s True have "completions k es = map (\<lambda>i. nxt g k + 1 + int i) [0..<?n]" "nxt g' k = nxt g k + 1 + int ?n" by auto
      moreover have "map (\<lambda>i. nxt g k + int i) [0..<Suc ?n] = nxt g k # map (\<lambda>i. nxt g k + 1 + int i) [0..<?n]"
        by (simp only: upt_rec [of 0 "Suc ?n"] map_Suc_upt [symmetric]) (simp add: ac_simps)
      ultimately show ?thesis using IH s True by (simp add: Complete)
    qed
  qed
qed simp

end

subsection \<open>The gate of the code meets the contract\<close>

text \<open>
  Recovery may find a delivery on hold below the highest replicated one, so the sequence on hold and
  the highest completed one are not tied to each other.
\<close>

definition stream_ok :: "stream_gate_state \<Rightarrow> bool" where
  "stream_ok st \<longleftrightarrow> 0 \<le> sg_highest_completed st \<and> in_i64 (sg_highest_completed st) \<and>
     pred_option seq_ok (sg_in_flight st) \<and> pred_option seq_ok (sg_blocking st) \<and>
     (sg_in_flight st = None \<or> sg_blocking st = None)"

definition gate_ok :: "ordering_gate \<Rightarrow> bool" where
  "gate_ok g \<longleftrightarrow> (\<forall>k. stream_ok (gate_entry g k))"

text \<open>The sequence a stream is at: the one in flight, else the one on hold, else the one after the highest completed.\<close>

definition stream_next :: "stream_gate_state \<Rightarrow> i64" where
  "stream_next st =
     (case sg_in_flight st of Some s \<Rightarrow> s
      | None \<Rightarrow> (case sg_blocking st of Some s \<Rightarrow> s | None \<Rightarrow> sg_highest_completed st + 1))"

definition gate_next :: "ordering_gate \<Rightarrow> string \<Rightarrow> i64" where
  "gate_next g k = stream_next (gate_entry g k)"

text \<open>\<^verbatim>\<open>check\<close> computes the sequence after the highest completed one whether it needs it or not.\<close>

definition gate_room :: "ordering_gate \<Rightarrow> string \<Rightarrow> bool" where
  "gate_room g k \<longleftrightarrow> in_i64 (sg_highest_completed (gate_entry g k) + 1)"

definition gate_busy :: "ordering_gate \<Rightarrow> string \<Rightarrow> bool" where
  "gate_busy g k \<longleftrightarrow> sg_in_flight (gate_entry g k) \<noteq> None"

definition gate_flying :: "ordering_gate \<Rightarrow> string \<Rightarrow> i64 \<Rightarrow> bool" where
  "gate_flying g k s \<longleftrightarrow> sg_in_flight (gate_entry g k) = Some s"

lemma stream_ok_fresh [simp]: "stream_ok fresh_stream"
  by (simp add: stream_ok_def fresh_stream_def in_i64_def i64_max_def)

lemma gate_ok_new [simp]: "gate_ok new_gate"
  by (simp add: gate_ok_def gate_entry_def new_gate_def)

lemma gate_entry_update [simp]: "gate_entry (g(k \<mapsto> st)) k' = (if k' = k then st else gate_entry g k')"
  by (simp add: gate_entry_def)

lemma gate_ok_update: "gate_ok g \<Longrightarrow> stream_ok st \<Longrightarrow> gate_ok (g(k \<mapsto> st))"
  by (simp add: gate_ok_def)

text \<open>The answer of \<open>gate_check\<close> in terms of the entry of the stream.\<close>

lemma gate_check_entry:
  "gate_check c g k s =
     (case g k of None \<Rightarrow> Done (if s = 1 then GateAllowed else GateBlocked 1)
      | Some _ \<Rightarrow> bind_outcome (arith_i64 c (sg_highest_completed (gate_entry g k) + 1)) (\<lambda>n.
          case sg_in_flight (gate_entry g k) of Some f \<Rightarrow> Done (GateBlocked f)
          | None \<Rightarrow> (case sg_blocking (gate_entry g k) of Some b \<Rightarrow> Done (if s = b then GateAllowed else GateBlocked b)
             | None \<Rightarrow> Done (if s = n then GateAllowed else GateBlocked n))))"
proof (cases "g k")
  case (Some st)
  then have entry: "gate_entry g k = st" by (simp add: gate_entry_def)
  show ?thesis unfolding gate_check_def entry Some by simp
qed (simp add: gate_check_def)

lemma gate_check_allowed:
  assumes "gate_ok g" "seq_ok s" "gate_check c g k s = Done GateAllowed"
  shows "s = gate_next g k \<and> \<not> gate_busy g k"
proof (cases "g k")
  case None
  with assms(3) show ?thesis
    by (auto simp: gate_check_def gate_next_def stream_next_def gate_busy_def gate_entry_def fresh_stream_def split: if_splits)
next
  case (Some st)
  then have st: "gate_entry g k = st" by (simp add: gate_entry_def)
  with assms(1) have ok: "stream_ok st" by (metis gate_ok_def)
  let ?n = "sg_highest_completed st + 1"
  from assms(3) Some obtain n where n: "arith_i64 c ?n = Done n"
    and ans: "sg_in_flight st = None" "sg_blocking st = Some s \<or> sg_blocking st = None \<and> s = n"
    by (auto simp: gate_check_entry st bind_outcome_eq_Done split: option.splits if_splits)
  have "s = gate_next g k"
  proof (cases "in_i64 ?n")
    case True
    with n ans show ?thesis by (auto simp: gate_next_def stream_next_def st)
  next
    case False
    with ok have "?n = 9223372036854775808" by (auto simp: stream_ok_def in_i64_def i64_max_def)
    with n False have "n = - 9223372036854775808" by (auto simp: arith_i64_def wrap_i64_def split: if_splits)
    with ans assms(2) show ?thesis by (auto simp: gate_next_def stream_next_def st seq_ok_def)
  qed
  with ans(1) show ?thesis by (simp add: gate_busy_def st)
qed

lemma gate_check_next:
  assumes "gate_room g k" "\<not> gate_busy g k"
  shows "gate_check c g k (gate_next g k) = Done GateAllowed"
proof (cases "g k")
  case None
  then show ?thesis by (simp add: gate_check_def gate_next_def stream_next_def gate_entry_def fresh_stream_def)
next
  case (Some st)
  with assms show ?thesis
    by (auto simp: gate_check_entry gate_room_def gate_busy_def gate_next_def stream_next_def split: option.splits)
qed

interpretation code_gate: stream_gate gate_ok gate_next gate_room gate_busy "\<lambda>g k s. gate_check c g k s = Done GateAllowed"
  gate_flying mark_in_flight mark_blocking mark_completed for c
proof
  fix g k s
  assume g: "gate_ok g"
  then have st: "stream_ok (gate_entry g k)" by (simp add: gate_ok_def)
  show "seq_ok s \<Longrightarrow> gate_check c g k s = Done GateAllowed \<Longrightarrow> s = gate_next g k \<and> \<not> gate_busy g k"
    using gate_check_allowed [OF g] by blast
  show "gate_room g k \<Longrightarrow> seq_ok (gate_next g k) \<Longrightarrow> \<not> gate_busy g k \<Longrightarrow> gate_check c g k (gate_next g k) = Done GateAllowed"
    using gate_check_next by blast
  show "gate_flying g k s \<Longrightarrow> s = gate_next g k \<and> gate_busy g k"
    by (auto simp: gate_flying_def gate_next_def stream_next_def gate_busy_def)
  assume s: "seq_ok s" "s = gate_next g k"
  show "gate_ok (mark_in_flight k s g) \<and> gate_next (mark_in_flight k s g) = gate_next g \<and>
      gate_busy (mark_in_flight k s g) = (gate_busy g)(k := True)"
    using g st s by (auto simp: mark_in_flight_def gate_next_def gate_busy_def fun_eq_iff stream_ok_def intro!: gate_ok_update)
      (simp_all add: stream_next_def)
  show "gate_ok (mark_blocking k s g) \<and> gate_next (mark_blocking k s g) = gate_next g \<and>
      gate_busy (mark_blocking k s g) = (gate_busy g)(k := False)"
    using g st s by (auto simp: mark_blocking_def gate_next_def stream_next_def gate_busy_def fun_eq_iff stream_ok_def Let_def
        intro!: gate_ok_update split: option.splits)
  show "gate_ok (mark_completed k s g) \<and> gate_next (mark_completed k s g) = (gate_next g)(k := s + 1) \<and>
      gate_busy (mark_completed k s g) = (gate_busy g)(k := False)"
    using g st s by (auto simp: mark_completed_def gate_next_def stream_next_def gate_busy_def fun_eq_iff stream_ok_def seq_ok_def Let_def
        intro!: gate_ok_update split: option.splits)
qed

text \<open>
  C10: deliveries are in order. Whatever the interleaving of streams, retries and completions, as long
  as sends start only where \<^verbatim>\<open>check\<close> allows it and only a send in flight is completed or held, the
  sequences completed for each stream are exactly $1, 2, \ldots, n$ in this order, each once.
\<close>

theorem gate_completes_each_stream_in_order:
  assumes "gate_run (\<lambda>g k s. gate_check c g k s = Done GateAllowed) gate_flying mark_in_flight mark_blocking mark_completed es
      new_gate = Some g" "list_all event_ok es"
  shows "completions k es = upto_int (length (completions k es)) \<and> gate_next g k = int (length (completions k es)) + 1"
proof -
  have next_new: "gate_next new_gate k = 1" by (simp add: gate_next_def stream_next_def gate_entry_def new_gate_def fresh_stream_def)
  have upto: "map (\<lambda>i. 1 + int i) [0..<n] = upto_int n" for n
    by (induction n) simp_all
  from code_gate.run_completes_in_order [OF gate_ok_new assms(2,1), of k] show ?thesis by (simp add: next_new upto)
qed

theorem gate_completes_each_stream_in_order_witness:
  "\<exists>g. gate_run (\<lambda>g k s. gate_check True g k s = Done GateAllowed) gate_flying mark_in_flight mark_blocking mark_completed
      [Start ''k'' 1, Hold ''k'' 1, Start ''k'' 1, Complete ''k'' 1, Start ''j'' 1, Start ''k'' 2, Complete ''k'' 2] new_gate = Some g \<and>
    gate_next g ''k'' = 3"
proof -
  let ?es = "[Start ''k'' 1, Hold ''k'' 1, Start ''k'' 1, Complete ''k'' 1, Start ''j'' 1, Start ''k'' 2, Complete ''k'' 2]"
  have "\<exists>g. gate_run (\<lambda>g k s. gate_check True g k s = Done GateAllowed) gate_flying mark_in_flight mark_blocking mark_completed
      ?es new_gate = Some g"
    by (simp add: gate_check_def new_gate_def gate_flying_def mark_in_flight_def mark_blocking_def mark_completed_def
        gate_entry_def fresh_stream_def in_i64_def i64_max_def Let_def)
  then obtain g where g: "gate_run (\<lambda>g k s. gate_check True g k s = Done GateAllowed) gate_flying mark_in_flight mark_blocking
      mark_completed ?es new_gate = Some g" ..
  have "list_all event_ok ?es" by (simp add: seq_ok_def in_i64_def i64_max_def)
  from gate_completes_each_stream_in_order [OF g this, of "''k''"] have "gate_next g ''k'' = 3" by simp
  with g show ?thesis by blast
qed

subsection \<open>Recovery\<close>

definition replicated_seqs :: "recovered_stream_state list \<Rightarrow> string \<Rightarrow> i64 list" where
  "replicated_seqs states k = map rs_stream_sequence (filter (\<lambda>r. rs_stream_key r = k \<and> rs_replicated r) states)"

definition blocking_seqs :: "recovered_stream_state list \<Rightarrow> string \<Rightarrow> i64 list" where
  "blocking_seqs states k = map rs_stream_sequence (filter (\<lambda>r. rs_stream_key r = k \<and> rs_blocking r) states)"

lemma recover_one_entry:
  "gate_entry (recover_one r g) k =
     (if k = rs_stream_key r then
        \<lparr>sg_highest_completed = (if rs_replicated r then max (rs_stream_sequence r) (sg_highest_completed (gate_entry g k))
           else sg_highest_completed (gate_entry g k)),
         sg_in_flight = (if rs_in_flight r then Some (rs_stream_sequence r) else sg_in_flight (gate_entry g k)),
         sg_blocking = (if rs_blocking r then Some (case sg_blocking (gate_entry g k) of None \<Rightarrow> rs_stream_sequence r
           | Some b \<Rightarrow> min b (rs_stream_sequence r)) else sg_blocking (gate_entry g k))\<rparr>
      else gate_entry g k)"
  unfolding recover_one_def Let_def gate_entry_update
  by (auto simp: max_def split: option.splits)

lemma recover_entry:
  "sg_highest_completed (gate_entry (recover_from_scan states g) k) = Max (insert 0 (set (replicated_seqs states k))) \<and>
   sg_blocking (gate_entry (recover_from_scan states g) k) =
     (if blocking_seqs states k = [] then None else Some (Min (set (blocking_seqs states k))))"
proof (induction states rule: rev_induct)
  case Nil
  then show ?case
    by (simp add: recover_from_scan_def new_gate_def gate_entry_def fresh_stream_def replicated_seqs_def blocking_seqs_def)
next
  case (snoc r states)
  let ?g = "recover_from_scan states g"
  have step: "recover_from_scan (states @ [r]) g = recover_one r ?g" by (simp add: recover_from_scan_def)
  have rep: "set (replicated_seqs (states @ [r]) k) =
      (if rs_stream_key r = k \<and> rs_replicated r then insert (rs_stream_sequence r) (set (replicated_seqs states k))
       else set (replicated_seqs states k))" by (auto simp: replicated_seqs_def)
  have blk: "blocking_seqs (states @ [r]) k = blocking_seqs states k @ (if rs_stream_key r = k \<and> rs_blocking r then [rs_stream_sequence r] else [])"
    by (simp add: blocking_seqs_def)
  have max: "Max (insert 0 (insert x (set xs))) = max x (Max (insert 0 (set xs)))" for x and xs :: "int list"
    by (subst insert_commute) (simp add: Max_insert)
  show ?case
  proof (cases "rs_stream_key r = k")
    case False
    with snoc.IH rep blk show ?thesis by (simp add: step recover_one_entry)
  next
    case True
    with snoc.IH rep blk show ?thesis by (auto simp: step recover_one_entry max min.commute Min_insert)
  qed
qed

lemma recover_in_flight:
  "list_all (\<lambda>r. \<not> rs_in_flight r) states \<Longrightarrow> sg_in_flight (gate_entry (recover_from_scan states g) k) = None"
proof (induction states rule: rev_induct)
  case Nil
  then show ?case by (simp add: recover_from_scan_def new_gate_def gate_entry_def fresh_stream_def)
next
  case (snoc r states)
  then have "sg_in_flight (gate_entry (recover_one r (recover_from_scan states g)) k) = None"
    by (auto simp: recover_one_entry)
  then show ?case by (simp add: recover_from_scan_def)
qed

lemma recover_absent: "recover_from_scan states g k = None \<Longrightarrow> k \<notin> rs_stream_key ` set states"
proof (induction states rule: rev_induct)
  case (snoc r states)
  have "recover_from_scan (states @ [r]) g = recover_one r (recover_from_scan states g)" by (simp add: recover_from_scan_def)
  with snoc show ?case by (auto simp: recover_one_def Let_def split: if_splits)
qed simp

text \<open>Recovery gives a gate that meets the contract, whatever it finds, and the sequence each stream is at.\<close>

lemma recover_gate_ok:
  assumes "list_all (\<lambda>r. \<not> rs_in_flight r \<and> seq_ok (rs_stream_sequence r)) states"
  shows "gate_ok (recover_from_scan states g)"
  unfolding gate_ok_def
proof
  fix k
  let ?st = "gate_entry (recover_from_scan states g) k" and ?R = "set (replicated_seqs states k)" and ?B = "set (blocking_seqs states k)"
  have seqs: "seq_ok s" if "s \<in> ?R \<union> ?B" for s
    using assms that by (auto simp: replicated_seqs_def blocking_seqs_def list_all_iff)
  have "Max (insert 0 ?R) \<in> insert 0 ?R" by (rule Max_in) simp_all
  then have high: "0 \<le> Max (insert 0 ?R)" "in_i64 (Max (insert 0 ?R))" using seqs by (auto simp: seq_ok_def in_i64_def i64_max_def)
  have "seq_ok (Min ?B)" if "blocking_seqs states k \<noteq> []" using that seqs Min_in [of ?B] by simp
  moreover have "sg_in_flight ?st = None" using assms by (intro recover_in_flight) (simp add: list_all_iff)
  ultimately show "stream_ok ?st" using recover_entry [of states g k] high by (simp add: stream_ok_def)
qed

lemma recover_next:
  assumes "list_all (\<lambda>r. \<not> rs_in_flight r) states"
  shows "gate_next (recover_from_scan states g) k =
    (if blocking_seqs states k = [] then Max (insert 0 (set (replicated_seqs states k))) + 1
     else Min (set (blocking_seqs states k)))"
  using recover_entry [of states g k] recover_in_flight [OF assms, of g k] by (simp add: gate_next_def stream_next_def)

text \<open>The scan of a stream whose deliveries are a replicated prefix followed by the others.\<close>

definition prefix_recovered :: "recovered_stream_state list \<Rightarrow> string \<Rightarrow> i64 \<Rightarrow> bool" where
  "prefix_recovered states k h \<longleftrightarrow> set (replicated_seqs states k) = {1..h} \<and> 0 \<le> h \<and> in_i64 (h + 1) \<and>
     (blocking_seqs states k = [] \<or> h + 1 \<in> set (blocking_seqs states k) \<and> (\<forall>b \<in> set (blocking_seqs states k). h < b)) \<and>
     list_all (\<lambda>r. \<not> rs_in_flight r) states"

text \<open>
  C22: recovery resumes where delivery stopped. If the scan of a stream shows the sequences
  $1, \ldots, h$ replicated and the deliveries after them, if any, starting with $h + 1$, then the
  recovered gate allows exactly the sequence $h + 1$ of that stream next.
\<close>

theorem recovered_gate_allows_exactly_next:
  assumes "prefix_recovered states k h"
  shows "gate_check c (recover_from_scan states g) k s = Done GateAllowed \<longleftrightarrow> s = h + 1"
proof -
  let ?g = "recover_from_scan states g"
  have "Max (insert 0 {1..h}) = h" using assms by (intro Max_eqI) (auto simp: prefix_recovered_def)
  then have h: "sg_highest_completed (gate_entry ?g k) = h"
    using recover_entry [of states g k] assms by (simp add: prefix_recovered_def)
  have b: "sg_blocking (gate_entry ?g k) \<in> {None, Some (h + 1)}"
  proof (cases "blocking_seqs states k = []")
    case True
    with recover_entry [of states g k] show ?thesis by simp
  next
    case False
    with assms have "Min (set (blocking_seqs states k)) = h + 1"
      by (intro Min_eqI) (auto simp: prefix_recovered_def)
    with False recover_entry [of states g k] show ?thesis by simp
  qed
  have f: "sg_in_flight (gate_entry ?g k) = None" using assms by (simp add: prefix_recovered_def recover_in_flight)
  show ?thesis
  proof (cases "?g k")
    case None
    with h have "h = 0" by (simp add: gate_entry_def fresh_stream_def)
    with None show ?thesis by (simp add: gate_check_def)
  next
    case (Some st)
    have "in_i64 (h + 1)" using assms by (simp add: prefix_recovered_def)
    with Some b f h show ?thesis by (auto simp: gate_check_entry)
  qed
qed

theorem recovered_gate_allows_exactly_next_witness:
  "gate_check True (recover_from_scan
      [\<lparr>rs_stream_key = ''k'', rs_stream_sequence = 1, rs_replicated = True, rs_blocking = False, rs_in_flight = False\<rparr>,
       \<lparr>rs_stream_key = ''k'', rs_stream_sequence = 2, rs_replicated = False, rs_blocking = True, rs_in_flight = False\<rparr>] new_gate)
     ''k'' 2 = Done GateAllowed"
  by (subst recovered_gate_allows_exactly_next [where h = 1])
    (auto simp: prefix_recovered_def replicated_seqs_def blocking_seqs_def in_i64_def i64_max_def)

text \<open>
  Recovery skips a predecessor without delivery state. If the first event of a stream has no
  delivery state yet and the second has one, the recovered gate allows the second, although the
  first was never delivered; the gate of the running service allows only the first.
\<close>

theorem recovered_gate_skips_missing_predecessor:
  "gate_check c (recover_from_scan
      [\<lparr>rs_stream_key = k, rs_stream_sequence = 2, rs_replicated = False, rs_blocking = True, rs_in_flight = False\<rparr>] g)
     k 2 = Done GateAllowed \<and>
   gate_check c new_gate k 2 = Done (GateBlocked 1)"
  by (simp add: gate_check_def recover_from_scan_def recover_one_def new_gate_def gate_entry_def fresh_stream_def
      in_i64_def i64_max_def Let_def)


text \<open>
  The gate knows a stream by its key alone. Two streams of different namespaces with the same key
  share an entry: once the first event of one is completed, the first event of the other is held,
  waiting for sequence 2, while the second event of the other may be sent.
\<close>

theorem gate_confuses_namespaces:
  "gate_check c (mark_completed k 1 (mark_in_flight k 1 new_gate)) k 1 = Done (GateBlocked 2) \<and>
   gate_check c (mark_completed k 1 (mark_in_flight k 1 new_gate)) k 2 = Done GateAllowed"
  by (simp add: gate_check_def mark_completed_def mark_in_flight_def new_gate_def gate_entry_def fresh_stream_def
      in_i64_def i64_max_def Let_def)

end
