(* ===== verification/Kafka_Policy.thy ===== *)
theory Kafka_Policy
  imports Kafka_Gate Domain_Profile
begin

text \<open>
  The pure parts of \<^verbatim>\<open>craftrelay-kafka-delivery\<close>: producer errors (\<^verbatim>\<open>producer.rs\<close>), routing
  (\<^verbatim>\<open>routing.rs\<close>), retry (\<^verbatim>\<open>retry.rs\<close>), repair classification (\<^verbatim>\<open>repair.rs\<close>) and the transition
  table (\<^verbatim>\<open>replicated.rs\<close>).
\<close>

subsection \<open>Producer\<close>

record send_request =
  sq_event_id :: string
  sq_topic :: string
  sq_partition_key :: string
  sq_payload :: bytes
  sq_headers :: "(string \<times> string) list"

record send_success =
  ss_topic :: string
  ss_partition :: i32
  ss_offset :: i64

datatype send_error =
    BrokerUnavailable | TopicNotFound | AuthorizationFailed | MessageTooLarge | SendTimeout | QueueFull
  | UnknownSendError string

fun is_retriable :: "send_error \<Rightarrow> bool" where
  "is_retriable BrokerUnavailable = True"
| "is_retriable SendTimeout = True"
| "is_retriable QueueFull = True"
| "is_retriable _ = False"

fun is_permanent :: "send_error \<Rightarrow> bool" where
  "is_permanent TopicNotFound = True"
| "is_permanent AuthorizationFailed = True"
| "is_permanent MessageTooLarge = True"
| "is_permanent _ = False"

text \<open>The derived \<^verbatim>\<open>Debug\<close> text of an error.\<close>

fun debug_send_error :: "send_error \<Rightarrow> string" where
  "debug_send_error BrokerUnavailable = ''BrokerUnavailable''"
| "debug_send_error TopicNotFound = ''TopicNotFound''"
| "debug_send_error AuthorizationFailed = ''AuthorizationFailed''"
| "debug_send_error MessageTooLarge = ''MessageTooLarge''"
| "debug_send_error SendTimeout = ''Timeout''"
| "debug_send_error QueueFull = ''QueueFull''"
| "debug_send_error (UnknownSendError m) = ''Unknown('' @ debug_str m @ '')''"

text \<open>The in-memory producer of the crate: queued results and the requests it was sent.\<close>

record fake_producer =
  fp_results :: "(send_error + send_success) list"
  fp_sent :: "send_request list"

definition new_fake_producer :: fake_producer where
  "new_fake_producer = \<lparr>fp_results = [], fp_sent = []\<rparr>"

definition enqueue_success :: "send_success \<Rightarrow> fake_producer \<Rightarrow> fake_producer" where
  "enqueue_success success p = p\<lparr>fp_results := fp_results p @ [Inr success]\<rparr>"

definition enqueue_error :: "send_error \<Rightarrow> fake_producer \<Rightarrow> fake_producer" where
  "enqueue_error error p = p\<lparr>fp_results := fp_results p @ [Inl error]\<rparr>"

definition sent_requests :: "fake_producer \<Rightarrow> send_request list" where
  "sent_requests p = fp_sent p"

definition fake_send :: "send_request \<Rightarrow> fake_producer \<Rightarrow> (send_error + send_success) \<times> fake_producer" where
  "fake_send request p =
     (let p' = p\<lparr>fp_sent := fp_sent p @ [request]\<rparr> in
      case fp_results p' of
        [] \<Rightarrow> (Inl (UnknownSendError ''no more enqueued results''), p')
      | r # rs \<Rightarrow> (r, p'\<lparr>fp_results := rs\<rparr>))"

subsection \<open>Routing\<close>

record routing_input =
  ri_installation_id :: string
  ri_namespace :: string
  ri_logical_stream_type :: string
  ri_stream_key :: string
  ri_event_type :: string
  ri_routing_version :: i64

record routing_resolution =
  rr_topic :: string
  rr_partition_key :: string
  rr_routing_checksum :: checksum
  rr_routing_version :: i64

datatype routing_error = UnsupportedRoutingVersion | EmptyField

fun debug_routing_error :: "routing_error \<Rightarrow> string" where
  "debug_routing_error UnsupportedRoutingVersion = ''UnsupportedRoutingVersion''"
| "debug_routing_error EmptyField = ''EmptyField''"

definition routing_canonical :: "routing_input \<Rightarrow> string" where
  "routing_canonical input = join_nul [ri_installation_id input, ri_namespace input,
     ri_logical_stream_type input, ri_stream_key input, ri_event_type input, show_int (ri_routing_version input)]"

definition resolve_routing :: "(bytes \<Rightarrow> checksum) \<Rightarrow> routing_input \<Rightarrow> routing_error + routing_resolution" where
  "resolve_routing sha input =
     (if ri_routing_version input \<noteq> 1 then Inl UnsupportedRoutingVersion
      else if ri_installation_id input = [] \<or> ri_namespace input = [] \<or> ri_logical_stream_type input = [] \<or>
          ri_stream_key input = [] \<or> ri_event_type input = [] then Inl EmptyField
      else Inr \<lparr>rr_topic = ''craftrelay.'' @ ri_installation_id input @ ''.'' @ ri_namespace input @ ''.events'',
                rr_partition_key = join_nul [ri_installation_id input, ri_namespace input,
                  ri_logical_stream_type input, ri_stream_key input],
                rr_routing_checksum = sha (str_bytes (routing_canonical input)),
                rr_routing_version = ri_routing_version input\<rparr>)"

subsection \<open>Retry\<close>

definition MAX_RETRY_ATTEMPTS :: i32 where "MAX_RETRY_ATTEMPTS = 32"
definition BASE_BACKOFF_MS :: i64 where "BASE_BACKOFF_MS = 1000"
definition MAX_BACKOFF_MS :: i64 where "MAX_BACKOFF_MS = 300000"

datatype retry_decision = Retry_at i64 | Exhausted

definition saturating_i64 :: "int \<Rightarrow> i64" where
  "saturating_i64 x = max (- i64_max - 1) (min i64_max x)"

definition retry_backoff :: "nat \<Rightarrow> i64" where
  "retry_backoff exponent =
     min (saturating_i64 (BASE_BACKOFF_MS * saturating_i64 (2 ^ exponent))) MAX_BACKOFF_MS"

definition compute_next_retry :: "bool \<Rightarrow> i32 \<Rightarrow> i64 \<Rightarrow> retry_decision outcome" where
  "compute_next_retry checks attempt_count now_ms =
     (if attempt_count \<ge> MAX_RETRY_ATTEMPTS then Done Exhausted
      else bind_outcome (arith_i32 checks (attempt_count - 1)) (\<lambda>previous.
        bind_outcome (arith_i64 checks (now_ms + retry_backoff (nat (max previous 0)))) (\<lambda>t. Done (Retry_at t))))"

definition should_retry :: "send_error \<Rightarrow> i32 \<Rightarrow> bool" where
  "should_retry error attempt_count \<longleftrightarrow> is_retriable error \<and> attempt_count < MAX_RETRY_ATTEMPTS"

subsection \<open>Repair\<close>

datatype repair_classification =
    EligibleForRetry | ProfileDrift "profile_drift_kind list" | Stuck string | Inconsistent string

record repair_candidate =
  rp_event_id :: string
  rp_stream_key :: string
  rp_classification :: repair_classification
  rp_attempt_count :: i32
  rp_blocked_reason :: "string option"

definition classify_for_repair ::
    "string \<Rightarrow> i32 \<Rightarrow> string option \<Rightarrow> profile_drift_kind list \<Rightarrow> bool \<Rightarrow> repair_classification" where
  "classify_for_repair delivery_status attempt_count blocked_reason profile_drifts delivery_checksum_valid =
     (if \<not> delivery_checksum_valid then
        Inconsistent (''delivery checksum invalid for status='' @ delivery_status @ '', reason='' @
          debug_option debug_str blocked_reason)
      else if profile_drifts \<noteq> [] then ProfileDrift profile_drifts
      else if delivery_status = ''DELIVERY_BLOCKED'' then EligibleForRetry
      else if delivery_status = ''DELIVERY_RETRYING'' \<and> attempt_count \<ge> MAX_RETRY_ATTEMPTS then
        Stuck (''retry attempts exhausted: '' @ show_int attempt_count @ '' >= '' @ show_int MAX_RETRY_ATTEMPTS)
      else Stuck (''unresolvable delivery state: status='' @ delivery_status @ '', attempts='' @
        show_int attempt_count @ '', reason='' @ debug_option debug_str blocked_reason))"

subsection \<open>Transitions\<close>

datatype transition_error = InvalidTransitionError delivery_status delivery_status

definition validate_transition :: "delivery_status \<Rightarrow> delivery_status \<Rightarrow> transition_error + unit" where
  "validate_transition from_status to_status =
     (if (from_status, to_status) \<in> set
        [(DeliveryPending, DeliveryRetrying), (DeliveryPending, Replicated), (DeliveryPending, DeliveryBlocked),
         (DeliveryRetrying, Replicated), (DeliveryRetrying, DeliveryBlocked), (DeliveryBlocked, DeliveryRetrying)]
      then Inr () else Inl (InvalidTransitionError from_status to_status))"

subsection \<open>Lemmas\<close>

lemma retriable_not_permanent: "is_retriable err \<Longrightarrow> \<not> is_permanent err"
  by (cases err) simp_all

lemma routing_canonical_inj:
  assumes "list_all nul_free [ri_installation_id a, ri_namespace a, ri_logical_stream_type a, ri_stream_key a, ri_event_type a]"
    "list_all nul_free [ri_installation_id b, ri_namespace b, ri_logical_stream_type b, ri_stream_key b, ri_event_type b]"
    "routing_canonical a = routing_canonical b"
  shows "a = b"
  using assms join_nul_inj [of "[ri_installation_id a, ri_namespace a, ri_logical_stream_type a, ri_stream_key a, ri_event_type a,
      show_int (ri_routing_version a)]" "[ri_installation_id b, ri_namespace b, ri_logical_stream_type b, ri_stream_key b,
      ri_event_type b, show_int (ri_routing_version b)]"]
  by (cases a; cases b) (simp add: routing_canonical_def)


lemma retry_backoff_eq: "retry_backoff n = (if n \<le> 8 then 1000 * 2 ^ n else 300000)"
proof (cases "n \<le> 8")
  case True
  then have "(2::int) ^ n \<le> 2 ^ 8" by (intro power_increasing) simp_all
  moreover have "min (saturating_i64 (1000 * saturating_i64 x)) 300000 = 1000 * x" if "0 < x" "x \<le> 2 ^ 8" for x
    using that by (simp add: saturating_i64_def i64_max_def)
  ultimately show ?thesis using True by (simp add: retry_backoff_def BASE_BACKOFF_MS_def MAX_BACKOFF_MS_def)
next
  case False
  then have "(2::int) ^ 9 \<le> 2 ^ n" by (intro power_increasing) simp_all
  then have "512 \<le> saturating_i64 (2 ^ n)" by (simp add: saturating_i64_def i64_max_def)
  with False show ?thesis by (simp add: retry_backoff_def saturating_i64_def BASE_BACKOFF_MS_def MAX_BACKOFF_MS_def i64_max_def)
qed

text \<open>
  C25: the retry schedule. For the attempts $1$ to $31$ and a clock that leaves room for the longest
  wait, a retry is due $1000 \cdot 2^{n-1}$ ms after the failure, at most five minutes; the schedule
  never shrinks and neither overflows nor panics, in either build. From attempt $32$ on there is none.
\<close>

theorem retry_schedule:
  assumes "1 \<le> n" "0 \<le> now" "now \<le> i64_max - MAX_BACKOFF_MS"
  shows "compute_next_retry checks n now =
      Done (if n < MAX_RETRY_ATTEMPTS then Retry_at (now + min (1000 * 2 ^ nat (n - 1)) MAX_BACKOFF_MS) else Exhausted)"
proof (cases "n < MAX_RETRY_ATTEMPTS")
  case True
  have b: "retry_backoff (nat (n - 1)) = min (1000 * 2 ^ nat (n - 1)) 300000"
  proof (cases "nat (n - 1) \<le> 8")
    case True
    then have "(2::int) ^ nat (n - 1) \<le> 2 ^ 8" by (intro power_increasing) simp_all
    with True show ?thesis by (simp add: retry_backoff_eq)
  next
    case False
    then have "(2::int) ^ 9 \<le> 2 ^ nat (n - 1)" by (intro power_increasing) simp_all
    with False show ?thesis by (simp add: retry_backoff_eq)
  qed
  have "in_i64 (now + m)" if "0 \<le> m" "m \<le> 300000" for m
    using assms that by (simp add: in_i64_def i64_max_def MAX_BACKOFF_MS_def)
  then have "in_i64 (now + min (1000 * 2 ^ nat (n - 1)) 300000)" by simp
  moreover have "in_i32 (n - 1)" using assms(1) True by (simp add: MAX_RETRY_ATTEMPTS_def in_i32_def i32_max_def)
  ultimately show ?thesis using assms(1) True b by (simp add: compute_next_retry_def MAX_BACKOFF_MS_def)
next
  case False
  then show ?thesis by (simp add: compute_next_retry_def)
qed

theorem retry_schedule_witness:
  "compute_next_retry True 3 1000 = Done (Retry_at 5000) \<and> compute_next_retry True 32 1000 = Done Exhausted"
  using retry_schedule [of 3 1000 True] retry_schedule [of 32 1000 True]
  by (simp add: MAX_RETRY_ATTEMPTS_def MAX_BACKOFF_MS_def i64_max_def)

text \<open>
  A retry is only computed for an attempt that may be retried, and then it is never exhausted: a
  retriable error at the last attempt takes the branch of permanent failures.
\<close>

theorem retry_is_never_exhausted: "should_retry err n \<Longrightarrow> compute_next_retry checks n now \<noteq> Done Exhausted"
  by (simp add: should_retry_def compute_next_retry_def bind_outcome_eq_Done)

definition routing_fields :: "routing_input \<Rightarrow> string list" where
  "routing_fields a = [ri_installation_id a, ri_namespace a, ri_logical_stream_type a, ri_stream_key a, ri_event_type a]"

text \<open>
  C24: routing keeps streams apart. Where no field contains a NUL character, which \<^verbatim>\<open>resolve_routing\<close> does
  not check, two routings of supported events carry the same partition key exactly when installation,
  namespace, stream type and stream key agree, and, where the digest does not collide on their canonical
  texts, the same checksum exactly when the event type agrees too.
\<close>

theorem routing_separates_streams:
  assumes "resolve_routing sha a = Inr ra" "resolve_routing sha b = Inr rb"
    and "list_all nul_free (routing_fields a)" "list_all nul_free (routing_fields b)"
  shows "(rr_partition_key ra = rr_partition_key rb \<longleftrightarrow> take 4 (routing_fields a) = take 4 (routing_fields b)) \<and>
    ((sha (str_bytes (routing_canonical a)) = sha (str_bytes (routing_canonical b)) \<longrightarrow> routing_canonical a = routing_canonical b) \<longrightarrow>
      (rr_routing_checksum ra = rr_routing_checksum rb \<longleftrightarrow> routing_fields a = routing_fields b))"
proof -
  have ra: "rr_partition_key ra = join_nul (take 4 (routing_fields a))" "rr_routing_checksum ra = sha (str_bytes (routing_canonical a))"
    "ri_routing_version a = 1"
    and rb: "rr_partition_key rb = join_nul (take 4 (routing_fields b))" "rr_routing_checksum rb = sha (str_bytes (routing_canonical b))"
    "ri_routing_version b = 1"
    using assms(1,2) by (auto simp: resolve_routing_def routing_fields_def split: if_splits)
  have "rr_partition_key ra = rr_partition_key rb \<longleftrightarrow> take 4 (routing_fields a) = take 4 (routing_fields b)"
    unfolding ra rb using assms(3,4) join_nul_inj [of "take 4 (routing_fields a)" "take 4 (routing_fields b)"]
    by (auto simp: routing_fields_def)
  moreover have "a = b \<longleftrightarrow> routing_fields a = routing_fields b" using ra(3) rb(3) by (cases a; cases b) (auto simp: routing_fields_def)
  moreover have "routing_canonical a = routing_canonical b \<longleftrightarrow> a = b"
    using routing_canonical_inj [of a b] assms(3,4) by (auto simp: routing_fields_def)
  ultimately show ?thesis unfolding ra(2) rb(2) by auto
qed

theorem routing_separates_streams_witness:
  "\<exists>ra rb. resolve_routing (\<lambda>bs. fill_checksum (of_nat (length bs)))
       \<lparr>ri_installation_id = ''i'', ri_namespace = ''n'', ri_logical_stream_type = ''t'', ri_stream_key = ''k'',
        ri_event_type = ''e'', ri_routing_version = 1\<rparr> = Inr ra \<and>
     resolve_routing (\<lambda>bs. fill_checksum (of_nat (length bs)))
       \<lparr>ri_installation_id = ''i'', ri_namespace = ''m'', ri_logical_stream_type = ''t'', ri_stream_key = ''k'',
        ri_event_type = ''e'', ri_routing_version = 1\<rparr> = Inr rb \<and>
     rr_partition_key ra \<noteq> rr_partition_key rb"
proof -
  let ?sha = "\<lambda>bs :: bytes. fill_checksum (of_nat (length bs))"
  let ?a = "\<lparr>ri_installation_id = ''i'', ri_namespace = ''n'', ri_logical_stream_type = ''t'', ri_stream_key = ''k'',
        ri_event_type = ''e'', ri_routing_version = 1\<rparr>"
  let ?b = "?a\<lparr>ri_namespace := ''m''\<rparr>"
  obtain ra rb where r: "resolve_routing ?sha ?a = Inr ra" "resolve_routing ?sha ?b = Inr rb" by (simp add: resolve_routing_def)
  have "list_all nul_free (routing_fields ?a)" "list_all nul_free (routing_fields ?b)"
    by (simp_all add: routing_fields_def nul_free_def)
  from routing_separates_streams [OF r this] r show ?thesis by (auto simp: routing_fields_def)
qed

text \<open>
  With a NUL in a field two streams can share a partition key: the fields are joined with NUL and
  \<^verbatim>\<open>resolve_routing\<close> accepts any text.
\<close>

theorem partition_key_is_ambiguous:
  "\<exists>a b ra rb. resolve_routing sha a = Inr ra \<and> resolve_routing sha b = Inr rb \<and> rr_partition_key ra = rr_partition_key rb \<and>
     ri_logical_stream_type a \<noteq> ri_logical_stream_type b \<and> ri_stream_key a \<noteq> ri_stream_key b"
proof -
  let ?a = "\<lparr>ri_installation_id = ''i'', ri_namespace = ''n'', ri_logical_stream_type = ''t'', ri_stream_key = ''x'' @ nul # ''k'',
        ri_event_type = ''e'', ri_routing_version = 1\<rparr>"
  let ?b = "?a\<lparr>ri_logical_stream_type := ''t'' @ nul # ''x'', ri_stream_key := ''k''\<rparr>"
  obtain ra rb where r: "resolve_routing sha ?a = Inr ra" "resolve_routing sha ?b = Inr rb" by (simp add: resolve_routing_def)
  have "join_nul [''i'', ''n'', ''t'', ''x'' @ nul # ''k''] = join_nul [''i'', ''n'', ''t'' @ nul # ''x'', ''k'']"
    by (simp add: join_nul_def)
  with r have "rr_partition_key ra = rr_partition_key rb" by (auto simp: resolve_routing_def)
  with r show ?thesis by (intro exI [of _ ?a] exI [of _ ?b]) auto
qed

text \<open>Names that contain a dot can share a topic: the topic does not determine the namespace.\<close>

theorem topic_is_ambiguous:
  "\<exists>a b ra rb. resolve_routing sha a = Inr ra \<and> resolve_routing sha b = Inr rb \<and> rr_topic ra = rr_topic rb \<and>
     ri_installation_id a \<noteq> ri_installation_id b \<and> ri_namespace a \<noteq> ri_namespace b"
  by (intro exI [of _ "\<lparr>ri_installation_id = ''a.b'', ri_namespace = ''c'', ri_logical_stream_type = ''t'', ri_stream_key = ''k'',
        ri_event_type = ''e'', ri_routing_version = 1\<rparr>"]
      exI [of _ "\<lparr>ri_installation_id = ''a'', ri_namespace = ''b.c'', ri_logical_stream_type = ''t'', ri_stream_key = ''k'',
        ri_event_type = ''e'', ri_routing_version = 1\<rparr>"])
    (simp add: resolve_routing_def)

end
