(* ===== verification/Journal_Cas.thy ===== *)
theory Journal_Cas
  imports Journal_System
begin

text \<open>
  Optimistic concurrency. The locale \<open>cas_store\<close> is the contract of a store whose writers name the
  revision they read: a write succeeds only at that revision and moves past it. Of any number of
  writers that read the same revision at most one succeeds. It is interpreted on the lifecycle
  table (\<^verbatim>\<open>update_lifecycle\<close>) and on the delivery table (\<^verbatim>\<open>confirm_replicated_delivery\<close>,
  \<^verbatim>\<open>block_delivery\<close>, \<^verbatim>\<open>update_delivery_retry\<close>). Then: confirmation replicates both rows at once, a
  replicated delivery is final, and the transitions after which a row no longer loads.
\<close>

subsection \<open>The contract\<close>

text \<open>The answers of several writers that all name revision \<open>n\<close>, one after another.\<close>

fun cas_run :: "('a \<Rightarrow> int \<Rightarrow> 'd \<Rightarrow> bool \<times> 'd) \<Rightarrow> int \<Rightarrow> 'a list \<Rightarrow> 'd \<Rightarrow> bool list \<times> 'd" where
  "cas_run wr n [] d = ([], d)"
| "cas_run wr n (a # as) d =
     (let (b, d1) = wr a n d; (bs, d2) = cas_run wr n as d1 in (b # bs, d2))"

locale cas_store =
  fixes ok :: "'d \<Rightarrow> bool"
    and rv :: "'d \<Rightarrow> int option"
    and wr :: "'a \<Rightarrow> int \<Rightarrow> 'd \<Rightarrow> bool \<times> 'd"
  assumes write_ok: "ok d \<Longrightarrow> wr a n d = (b, d') \<Longrightarrow> ok d'"
    and write_succeeds: "ok d \<Longrightarrow> wr a n d = (True, d') \<Longrightarrow> rv d = Some n \<and> rv d' \<noteq> Some n \<and> rv d' \<noteq> None"
    and write_fails: "ok d \<Longrightarrow> wr a n d = (False, d') \<Longrightarrow> rv d' = rv d"
begin

lemma stale_write_fails:
  assumes "ok d" "rv d \<noteq> Some n"
  shows "fst (wr a n d) = False"
  using assms write_succeeds [of d a n] by (cases "wr a n d") auto

lemma stale_run_fails: "ok d \<Longrightarrow> rv d \<noteq> Some n \<Longrightarrow> True \<notin> set (fst (cas_run wr n as d))"
proof (induction as arbitrary: d)
  case (Cons a as)
  obtain b d1 where w: "wr a n d = (b, d1)" by fastforce
  with Cons.prems stale_write_fails [of d n a] have "\<not> b" by simp
  with w write_fails Cons.prems have "rv d1 \<noteq> Some n" by simp
  with Cons.IH [of d1] write_ok [OF Cons.prems(1) w] have "True \<notin> set (fst (cas_run wr n as d1))" by blast
  with w \<open>\<not> b\<close> show ?case by (auto simp: case_prod_beta)
qed simp

lemma at_most_one_succeeds:
  "ok d \<Longrightarrow> length (filter (\<lambda>b. b) (fst (cas_run wr n as d))) \<le> 1"
proof (induction as arbitrary: d)
  case (Cons a as)
  obtain b d1 where w: "wr a n d = (b, d1)" by fastforce
  have ok1: "ok d1" using write_ok [OF Cons.prems w] .
  show ?case
  proof (cases b)
    case True
    with w write_succeeds Cons.prems have "rv d1 \<noteq> Some n" by simp
    with stale_run_fails [OF ok1] have "filter (\<lambda>b. b) (fst (cas_run wr n as d1)) = []"
      by (auto simp: filter_empty_conv)
    with w show ?thesis by (simp add: case_prod_beta)
  next
    case False
    with w Cons.IH [OF ok1] show ?thesis by (simp add: case_prod_beta)
  qed
qed simp

end

subsection \<open>Lifecycle and delivery tables\<close>

lemma arith_i64_neq: "arith_i64 c (n + 1) = Done m \<Longrightarrow> m \<noteq> n"
proof -
  have "wrap_i64 (n + 1) \<noteq> n"
  proof
    assume "wrap_i64 (n + 1) = n"
    then have "(n + 1 + 9223372036854775808) mod 18446744073709551616 = n + 9223372036854775808"
      by (simp add: wrap_i64_def)
    then have "(n + 1 + 9223372036854775808) mod 18446744073709551616 = (n + 9223372036854775808) mod 18446744073709551616"
      by (metis mod_mod_trivial)
    then show False by (simp add: mod_eq_dvd_iff)
  qed
  then show "arith_i64 c (n + 1) = Done m \<Longrightarrow> m \<noteq> n" by (auto simp: arith_i64_def split: if_splits)
qed

text \<open>A writer of the lifecycle row of one event: its environment and the new statuses.\<close>

definition lifecycle_write ::
    "string \<Rightarrow> env \<times> local_delivery_status \<times> local_retention_status \<Rightarrow> int \<Rightarrow> db \<Rightarrow> bool \<times> db" where
  "lifecycle_write eid w n d =
     (case w of (e, ds, rs) \<Rightarrow> apfst (\<lambda>r. r = Done Updated) (update_lifecycle_db e eid n ds rs d))"

datatype delivery_action = Confirm replicated_delivery_confirmation | Block string | Retry i64

fun delivery_action_db :: "env \<Rightarrow> string \<Rightarrow> delivery_action \<Rightarrow> int \<Rightarrow> db \<Rightarrow> cas_result outcome \<times> db" where
  "delivery_action_db e eid (Confirm c) n d = confirm_replicated_delivery_db e eid n c d"
| "delivery_action_db e eid (Block reason) n d = block_delivery_db e eid n reason d"
| "delivery_action_db e eid (Retry t) n d = update_delivery_retry_db e eid n t d"

definition delivery_write :: "string \<Rightarrow> env \<times> delivery_action \<Rightarrow> int \<Rightarrow> db \<Rightarrow> bool \<times> db" where
  "delivery_write eid w n d =
     (case w of (e, a) \<Rightarrow> apfst (\<lambda>r. r = Done Updated) (delivery_action_db e eid a n d))"

interpretation lifecycle_cas: cas_store
  "\<lambda>d. distinct (map ls_event_id (db_lifecycles d))" "\<lambda>d. map_option ls_revision (find_lifecycle d eid)"
  "lifecycle_write eid" for eid
proof
  fix d d' :: db and a :: "env \<times> local_delivery_status \<times> local_retention_status" and n b
  assume d: "distinct (map ls_event_id (db_lifecycles d))"
  obtain e :: env and ds rs where a: "a = (e, ds, rs)" by (cases a)
  {
    assume "lifecycle_write eid a n d = (True, d')"
    then have "update_lifecycle_db e eid n ds rs d = (Done Updated, d')"
      by (cases "update_lifecycle_db e eid n ds rs d") (simp add: lifecycle_write_def a)
    then have "map_option ls_revision (find_lifecycle d eid) = Some n \<and> map_option ls_revision (find_lifecycle d' eid) \<noteq> Some n \<and>
        map_option ls_revision (find_lifecycle d' eid) \<noteq> None \<and> map ls_event_id (db_lifecycles d') = map ls_event_id (db_lifecycles d)"
      by (auto elim!: update_lifecycle_Updated simp: lifecycle_after_def dest: arith_i64_neq)
  }
  note success = this
  have failure: "d' = d" if "lifecycle_write eid a n d = (False, d')"
    using that update_lifecycle_unchanged [OF _ _ d]
    by (cases "update_lifecycle_db e eid n ds rs d") (auto simp: lifecycle_write_def a)
  show "lifecycle_write eid a n d = (b, d') \<Longrightarrow> distinct (map ls_event_id (db_lifecycles d'))"
    using success failure d by (cases b) auto
  show "lifecycle_write eid a n d = (True, d') \<Longrightarrow> map_option ls_revision (find_lifecycle d eid) = Some n \<and>
      map_option ls_revision (find_lifecycle d' eid) \<noteq> Some n \<and> map_option ls_revision (find_lifecycle d' eid) \<noteq> None"
    using success by blast
  show "lifecycle_write eid a n d = (False, d') \<Longrightarrow>
      map_option ls_revision (find_lifecycle d' eid) = map_option ls_revision (find_lifecycle d eid)"
    using failure by simp
qed

lemma transitioned_revision:
  assumes "transitioned e eid s' st d d'"
  shows "map_option dr_delivery_revision (find_delivery d' eid) = Some (ds_delivery_revision s')"
    "map dr_event_id (db_deliveries d') = map dr_event_id (db_deliveries d)"
  using assms by (simp_all add: transitioned_def stored_def delivery_row_of_def)

lemma loaded_revision:
  "load_delivery_state e d eid = DeliveryFound s \<Longrightarrow>
     map_option dr_delivery_revision (find_delivery d eid) = Some (ds_delivery_revision s)"
  by (simp add: load_delivery_Found delivery_row_of_def)

lemma delivery_action_Updated:
  assumes "delivery_action_db e eid a n d = (Done Updated, d')"
  shows "map_option dr_delivery_revision (find_delivery d eid) = Some n \<and>
    (\<exists>m. m \<noteq> n \<and> map_option dr_delivery_revision (find_delivery d' eid) = Some m) \<and>
    map dr_event_id (db_deliveries d') = map dr_event_id (db_deliveries d)"
proof (cases a)
  case (Confirm c)
  with assms have "confirm_replicated_delivery_db e eid n c d = (Done Updated, d')" by simp
  then obtain s m where "load_delivery_state e d eid = DeliveryFound s" "confirm_guards eid n c s = Inr ()"
    "arith_i64 (env_overflow_checks e) (n + 1) = Done m" "transitioned e eid (confirmed_record e c m s) ''REPLICATED'' d d'"
    by (rule confirm_Updated)
  with loaded_revision transitioned_revision arith_i64_neq show ?thesis
    by (fastforce simp: confirm_guards_Inr confirmed_record_def)
next
  case (Block reason)
  with assms have "block_delivery_db e eid n reason d = (Done Updated, d')" by simp
  then obtain s m where "load_delivery_state e d eid = DeliveryFound s" "ds_delivery_revision s = n"
    "arith_i64 (env_overflow_checks e) (n + 1) = Done m" "transitioned e eid (blocked_record e reason m s) ''DELIVERY_BLOCKED'' d d'"
    by (rule block_Updated)
  with loaded_revision transitioned_revision arith_i64_neq show ?thesis by (fastforce simp: blocked_record_def)
next
  case (Retry t)
  with assms have "update_delivery_retry_db e eid n t d = (Done Updated, d')" by simp
  then obtain s m where "load_delivery_state e d eid = DeliveryFound s" "ds_delivery_revision s = n"
    "arith_i64 (env_overflow_checks e) (n + 1) = Done m" "delivery_replaced e eid (stored e (retrying_record e t m s)) d d'"
    by (rule retry_Updated)
  with loaded_revision arith_i64_neq show ?thesis
    by (fastforce simp: retrying_record_def delivery_replaced_def stored_def delivery_row_of_def)
qed

lemma delivery_action_unchanged:
  "delivery_action_db e eid a n d = (r, d') \<Longrightarrow> r \<noteq> Done Updated \<Longrightarrow> distinct (map dr_event_id (db_deliveries d)) \<Longrightarrow> d' = d"
  by (cases a) (auto dest: confirm_unchanged block_unchanged retry_unchanged)

interpretation delivery_cas: cas_store
  "\<lambda>d. distinct (map dr_event_id (db_deliveries d))" "\<lambda>d. map_option dr_delivery_revision (find_delivery d eid)"
  "delivery_write eid" for eid
proof
  fix d d' :: db and w :: "env \<times> delivery_action" and n b
  assume d: "distinct (map dr_event_id (db_deliveries d))"
  obtain e :: env and a where w: "w = (e, a)" by (cases w)
  have success: "delivery_action_db e eid a n d = (Done Updated, d')" if "delivery_write eid w n d = (True, d')"
    using that by (cases "delivery_action_db e eid a n d") (simp add: delivery_write_def w)
  have failure: "d' = d" if "delivery_write eid w n d = (False, d')"
    using that delivery_action_unchanged [OF _ _ d]
    by (cases "delivery_action_db e eid a n d") (auto simp: delivery_write_def w)
  show "delivery_write eid w n d = (b, d') \<Longrightarrow> distinct (map dr_event_id (db_deliveries d'))"
    using delivery_action_Updated [OF success] failure d by (cases b) simp_all
  show "delivery_write eid w n d = (True, d') \<Longrightarrow> map_option dr_delivery_revision (find_delivery d eid) = Some n \<and>
      map_option dr_delivery_revision (find_delivery d' eid) \<noteq> Some n \<and> map_option dr_delivery_revision (find_delivery d' eid) \<noteq> None"
    using delivery_action_Updated [OF success] by auto
  show "delivery_write eid w n d = (False, d') \<Longrightarrow>
      map_option dr_delivery_revision (find_delivery d' eid) = map_option dr_delivery_revision (find_delivery d eid)"
    using failure by simp
qed

text \<open>
  C14: no lost update. Whatever writers compete for the delivery row of an event, each with its own
  transition (confirm, block or retry) and engine failures but all naming the same revision, at
  most one of them is answered \<^verbatim>\<open>Updated\<close>; the same holds for the writers of its lifecycle row.
\<close>

theorem concurrent_transitions_no_lost_update:
  assumes "keys_ok d"
  shows "length (filter (\<lambda>b. b) (fst (cas_run (delivery_write eid) n ws d))) \<le> 1 \<and>
    length (filter (\<lambda>b. b) (fst (cas_run (lifecycle_write eid) n vs d))) \<le> 1"
proof -
  have "distinct (map dr_event_id (db_deliveries d))" "distinct (map ls_event_id (db_lifecycles d))"
    using assms by (simp_all add: keys_ok_def)
  then show ?thesis using delivery_cas.at_most_one_succeeds lifecycle_cas.at_most_one_succeeds by blast
qed

subsection \<open>Confirmation\<close>

definition confirmation_valid :: "replicated_delivery_confirmation \<Rightarrow> bool" where
  "confirmation_valid c \<longleftrightarrow> rc_kafka_topic c \<noteq> [] \<and> rc_expected_profile_id c \<noteq> [] \<and>
     0 < rc_expected_profile_version c \<and> 0 \<le> rc_kafka_partition c \<and> in_i32 (rc_kafka_partition c) \<and> 0 \<le> rc_kafka_offset c"

lemma delivery_ok_stored:
  "env_sha e' = env_sha e \<Longrightarrow> ds_delivery_status s \<in> set supported_delivery_statuses \<Longrightarrow>
     validate_delivery_state_invariants s = Inr () \<Longrightarrow> delivery_row_readable (delivery_row_of s) \<Longrightarrow> delivery_ok e' (stored e s)"
proof -
  have "validate_delivery_state_invariants (stored e s) = validate_delivery_state_invariants s"
    by (simp add: stored_def validate_delivery_state_invariants_def require_delivery_routing_fields_def
        require_no_confirmed_kafka_metadata_def Let_def)
  moreover have "delivery_row_readable (delivery_row_of (stored e s)) = delivery_row_readable (delivery_row_of s)"
    by (simp add: stored_def delivery_row_of_def delivery_row_readable_def)
  moreover assume "env_sha e' = env_sha e" "ds_delivery_status s \<in> set supported_delivery_statuses"
    "validate_delivery_state_invariants s = Inr ()" "delivery_row_readable (delivery_row_of s)"
  ultimately show ?thesis by (simp add: delivery_ok_def) (simp add: stored_def compute_delivery_checksum_def delivery_encoding_def)
qed

lemma confirmed_record_ok:
  assumes "confirmation_valid c" "delivery_ok e s" "confirm_guards eid rv c s = Inr ()" "env_sha e' = env_sha e"
  shows "delivery_ok e' (stored e (confirmed_record e c new_rev s))"
proof (rule delivery_ok_stored [OF assms(4)])
  show "ds_delivery_status (confirmed_record e c new_rev s) \<in> set supported_delivery_statuses"
    by (simp add: confirmed_record_def supported_delivery_statuses_def)
  show "validate_delivery_state_invariants (confirmed_record e c new_rev s) = Inr ()"
    using assms(1,3)
    by (simp add: confirmed_record_def validate_delivery_state_invariants_def confirmation_valid_def confirm_guards_Inr
        require_non_empty_def require_some_def require_positive_i32_def require_non_negative_i32_def
        require_non_negative_i64_def require_absent_def)
  show "delivery_row_readable (delivery_row_of (confirmed_record e c new_rev s))"
    using assms(1,2) by (simp add: delivery_ok_def confirmed_record_def delivery_row_of_def delivery_row_readable_def
        confirmation_valid_def)
qed

text \<open>
  C12: confirming is atomic across the two tables. When \<^verbatim>\<open>confirm_replicated_delivery\<close> answers
  \<^verbatim>\<open>Updated\<close>, the delivery state loads as \<^verbatim>\<open>REPLICATED\<close> with the topic, partition and offset of the
  confirmation, and the lifecycle of the same event reads \<^verbatim>\<open>REPLICATED\<close>; on any other answer, and
  on a panic, the database is what it was.
\<close>

theorem confirm_replicates_both_rows:
  assumes "confirm_replicated_delivery_db e eid rv c d = (r, d')" "confirmation_valid c"
    and "no_faults e'" "env_sha e' = env_sha e"
  shows "if r = Done Updated
    then (\<exists>s. load_delivery_state e' d' eid = DeliveryFound s \<and> ds_delivery_status s = ''REPLICATED'' \<and> same_confirmation s c) \<and>
         (\<exists>st. get_status_impl e' d' eid = StatusFound st \<and> ps_delivery_status st = ''REPLICATED'')
    else d' = d"
proof (cases "r = Done Updated")
  case True
  with assms(1) have "confirm_replicated_delivery_db e eid rv c d = (Done Updated, d')" by simp
  then obtain s m where s: "load_delivery_state e d eid = DeliveryFound s" "confirm_guards eid rv c s = Inr ()"
    and tr: "transitioned e eid (confirmed_record e c m s) ''REPLICATED'' d d'" by (rule confirm_Updated)
  let ?s = "stored e (confirmed_record e c m s)"
  have "delivery_ok e' ?s" using s assms(2,4) by (auto simp: load_delivery_Found intro: confirmed_record_ok)
  with tr assms(3) have ld: "load_delivery_state e' d' eid = DeliveryFound ?s"
    by (simp add: load_delivery_Found transitioned_def no_faults_def)
  have same: "ds_delivery_status ?s = ''REPLICATED'' \<and> same_confirmation ?s c"
    using s(2) by (simp add: stored_def confirmed_record_def same_confirmation_def confirm_guards_Inr)
  from assms(1) True obtain st where st: "get_status_impl e d eid = StatusFound st"
    unfolding confirm_replicated_delivery_db_def confirm_already_replicated_def
    by (auto simp: cas_simps sql_Inr dest: cas_not_updated split: if_splits)
  then obtain en where en: "find_envelope d eid = Some en" "envelope_ok e en" by (auto simp: get_status_Found)
  from tr have "find_envelope d' eid = Some en" using en(1) by (cases d; cases d') (simp add: transitioned_def)
  moreover from tr obtain l lrev where l: "find_lifecycle d' eid = Some (lifecycle_after e lrev ''REPLICATED'' l)" "lifecycle_ok e l"
    by (auto simp: transitioned_def)
  moreover have "lifecycle_ok e' (lifecycle_after e lrev ''REPLICATED'' l)"
    using l(2) assms(4) by (auto intro: lifecycle_after_ok dest: lifecycle_ok_retention simp: is_allowed_delivery_status_def)
  moreover have "envelope_ok e' en" using en(2) ok_env_cong(1) [OF assms(4)] by simp
  moreover obtain st' where "describes st' en (lifecycle_after e lrev ''REPLICATED'' l)"
    using calculation envelope_and_lifecycle_described by blast
  ultimately have "get_status_impl e' d' eid = StatusFound st' \<and> ps_delivery_status st' = ''REPLICATED''"
    using assms(3) by (auto simp: get_status_Found no_faults_def) (auto simp: describes_def lifecycle_after_def)
  with True ld same show ?thesis by auto
next
  case False
  with assms(1) confirm_unchanged show ?thesis by auto
qed

text \<open>Without failures a confirmation that passes the guards succeeds.\<close>

lemma finish_transition_succeeds:
  assumes "no_faults e" "snd (update_delivery_row eid rv f d) = 1" "get_status_impl e d eid = StatusFound l"
    "distinct (map ls_event_id (db_lifecycles d))" "in_i64 (ps_lifecycle_revision l + 1)"
  shows "\<exists>d'. finish_transition e eid l st d (update_delivery_row eid rv f d) = (Done Updated, d')"
proof -
  let ?d1 = "fst (update_delivery_row eid rv f d)"
  from assms(3) have "map_option ls_revision (find_lifecycle ?d1 eid) = Some (ps_lifecycle_revision l)"
    by (auto simp: get_status_Found describes_def)
  moreover have "distinct (map ls_event_id (db_lifecycles ?d1))" using assms(4) by simp
  ultimately have n: "snd (update_lifecycle_row eid (ps_lifecycle_revision l) g ?d1) = 1" for g
    by (auto simp: update_lifecycle_row_count)
  have "\<exists>d2. update_lifecycle_delivery_status e eid l st ?d1 = (Done Updated, d2)"
    using assms(1,5) n by (simp add: update_lifecycle_delivery_status_def cas_arith_def cas_try_def cas_sql_def
        case_prod_beta cas_affected_def)
  then obtain d2 where "update_lifecycle_delivery_status e eid l st ?d1 = (Done Updated, d2)" ..
  with assms(1,2) have "finish_transition e eid l st d (update_delivery_row eid rv f d) = (Done Updated, d2)"
    by (simp add: finish_transition_def case_prod_beta cas_try_def cas_sql_def)
  then show ?thesis ..
qed

lemma confirm_succeeds:
  assumes "no_faults e" "keys_ok d" "load_delivery_state e d eid = DeliveryFound s" "ds_delivery_status s \<noteq> ''REPLICATED''"
    "get_status_impl e d eid = StatusFound l" "confirm_guards eid rv c s = Inr ()" "in_i64 (rv + 1)"
    "in_i64 (ps_lifecycle_revision l + 1)"
  shows "\<exists>d'. confirm_replicated_delivery_db e eid rv c d = (Done Updated, d')"
proof -
  have "find_delivery d eid = Some (delivery_row_of s)" "ds_delivery_revision s = rv"
    using assms(3,6) by (simp_all add: load_delivery_Found confirm_guards_Inr)
  then have "snd (update_delivery_row eid rv f d) = 1" for f
    using assms(2) by (simp add: update_delivery_row_count keys_ok_def delivery_row_of_def)
  with finish_transition_succeeds [OF assms(1) _ assms(5) _ assms(8)] assms show ?thesis
    by (simp add: confirm_replicated_delivery_db_def cas_try_def cas_arith_def cas_sql_def keys_ok_def delivery_or_return_def
        load_verified_lifecycle_for_transition_def Let_def)
qed

lemma block_succeeds:
  assumes "no_faults e" "keys_ok d" "load_delivery_state e d eid = DeliveryFound s" "ds_delivery_status s \<noteq> ''REPLICATED''"
    "get_status_impl e d eid = StatusFound l" "ds_delivery_revision s = rv" "in_i64 (rv + 1)" "in_i64 (ps_lifecycle_revision l + 1)"
  shows "\<exists>d'. block_delivery_db e eid rv reason d = (Done Updated, d')"
proof -
  have "find_delivery d eid = Some (delivery_row_of s)" using assms(3) by (simp add: load_delivery_Found)
  then have "snd (update_delivery_row eid rv f d) = 1" for f
    using assms(2,6) by (simp add: update_delivery_row_count keys_ok_def delivery_row_of_def)
  with finish_transition_succeeds [OF assms(1) _ assms(5) _ assms(8)] assms show ?thesis
    by (simp add: block_delivery_db_def cas_try_def cas_arith_def cas_sql_def cas_guard_def keys_ok_def delivery_or_return_def
        load_verified_lifecycle_for_transition_def Let_def)
qed

subsection \<open>A sample delivery\<close>

definition sample_pending :: delivery_state_record where
  "sample_pending = stored sample_env (pending_record sample_env ''e1'' (fill_checksum 4) ''prof'' 1 ''events'')"

definition sample_db :: db where
  "sample_db = (event_added sample_env sample_request 1 1 empty_db)\<lparr>db_deliveries := [delivery_row_of sample_pending]\<rparr>"

definition sample_confirmation :: replicated_delivery_confirmation where
  "sample_confirmation = \<lparr>rc_expected_routing_fingerprint = fill_checksum 4, rc_expected_profile_id = ''prof'',
     rc_expected_profile_version = 1, rc_kafka_topic = ''events'', rc_kafka_partition = 0, rc_kafka_offset = 7\<rparr>"

lemma sample_db_keys: "keys_ok sample_db"
  by (simp add: keys_ok_def sample_db_def event_added_def empty_db_def delivery_row_of_def sample_pending_def stored_def
      pending_record_def sample_request_def)

lemma sample_delivery_loads: "load_delivery_state sample_env sample_db ''e1'' = DeliveryFound sample_pending"
proof -
  have "delivery_ok sample_env sample_pending"
    unfolding sample_pending_def
    by (rule delivery_ok_stored)
      (simp_all add: pending_record_def supported_delivery_statuses_def validate_delivery_state_invariants_def
        require_delivery_routing_fields_def require_no_confirmed_kafka_metadata_def require_non_empty_def require_some_def
        require_positive_i32_def require_absent_def delivery_row_readable_def delivery_row_of_def in_i32_def i32_max_def)
  moreover have "dr_event_id (delivery_row_of sample_pending) = ''e1''"
    by (simp add: delivery_row_of_def sample_pending_def stored_def pending_record_def)
  ultimately show ?thesis by (simp add: load_delivery_Found sample_db_def)
qed

lemma sample_status:
  obtains l where "get_status_impl sample_env sample_db ''e1'' = StatusFound l" "ps_lifecycle_revision l = 1"
    "ps_delivery_status l = ''LOCAL_ACCEPTED''"
proof -
  let ?en = "new_envelope_row sample_env sample_request 1 1" and ?l = "new_lifecycle_row sample_env sample_request"
  have ok: "envelope_ok sample_env ?en" "lifecycle_ok sample_env ?l"
    by (simp_all add: new_rows_ok sample_request_def in_i32_def i32_max_def)
  then obtain l where l: "describes l ?en ?l" by (rule envelope_and_lifecycle_described)
  moreover have "find_envelope sample_db ''e1'' = Some ?en" "find_lifecycle sample_db ''e1'' = Some ?l"
    by (simp_all add: sample_db_def event_added_def empty_db_def sample_request_def)
  ultimately have "get_status_impl sample_env sample_db ''e1'' = StatusFound l" using ok by (simp add: get_status_Found)
  moreover have "ps_lifecycle_revision l = 1" "ps_delivery_status l = ''LOCAL_ACCEPTED''"
    using l by (simp_all add: describes_def new_lifecycle_row_def)
  ultimately show ?thesis by (rule that)
qed

lemma sample_confirm: "\<exists>d'. confirm_replicated_delivery_db sample_env ''e1'' 1 sample_confirmation sample_db = (Done Updated, d')"
proof -
  obtain l where l: "get_status_impl sample_env sample_db ''e1'' = StatusFound l" "ps_lifecycle_revision l = 1"
    by (rule sample_status)
  show ?thesis
    by (rule confirm_succeeds [OF no_faults_sample sample_db_keys sample_delivery_loads _ l(1)])
      (simp_all add: sample_pending_def stored_def pending_record_def confirm_guards_Inr sample_confirmation_def
        l(2) in_i64_def i64_max_def)
qed

theorem concurrent_transitions_no_lost_update_witness:
  "keys_ok sample_db \<and> length (filter (\<lambda>b. b) (fst (cas_run (delivery_write ''e1'') 1
     [(sample_env, Confirm sample_confirmation), (sample_env, Block ''stuck''), (sample_env, Retry 5)] sample_db))) \<le> 1"
  using concurrent_transitions_no_lost_update [OF sample_db_keys] sample_db_keys by blast

theorem confirm_replicates_both_rows_witness:
  "\<exists>d' s. confirm_replicated_delivery_db sample_env ''e1'' 1 sample_confirmation sample_db = (Done Updated, d') \<and>
     load_delivery_state sample_env d' ''e1'' = DeliveryFound s \<and> ds_kafka_offset s = Some 7"
proof -
  obtain d' where d': "confirm_replicated_delivery_db sample_env ''e1'' 1 sample_confirmation sample_db = (Done Updated, d')"
    using sample_confirm ..
  from confirm_replicates_both_rows [OF d' _ no_faults_sample refl] obtain s where
    "load_delivery_state sample_env d' ''e1'' = DeliveryFound s" "same_confirmation s sample_confirmation"
    by (auto simp: confirmation_valid_def sample_confirmation_def in_i32_def i32_max_def)
  with d' show ?thesis by (auto simp: same_confirmation_def sample_confirmation_def)
qed

subsection \<open>A replicated delivery is final\<close>

text \<open>Two rows of one delivery that agree on everything its confirmation fixed.\<close>

definition same_replication :: "delivery_row \<Rightarrow> delivery_row \<Rightarrow> bool" where
  "same_replication r r' \<longleftrightarrow> dr_delivery_status r' = dr_delivery_status r \<and> dr_kafka_topic r' = dr_kafka_topic r \<and>
     dr_kafka_partition r' = dr_kafka_partition r \<and> dr_kafka_offset r' = dr_kafka_offset r \<and>
     dr_routing_fingerprint r' = dr_routing_fingerprint r \<and> dr_profile_id r' = dr_profile_id r \<and>
     dr_profile_version r' = dr_profile_version r \<and> dr_delivery_revision r' = dr_delivery_revision r \<and>
     dr_confirmed_at_ms r' = dr_confirmed_at_ms r"

lemma same_replication_refl [simp]: "same_replication r r"
  by (simp add: same_replication_def)

lemma same_replication_trans: "same_replication r r' \<Longrightarrow> same_replication r' r'' \<Longrightarrow> same_replication r r''"
  by (simp add: same_replication_def)

lemma transitioned_other: "transitioned e k s' st d d' \<Longrightarrow> eid \<noteq> k \<Longrightarrow> find_delivery d' eid = find_delivery d eid"
  by (simp add: transitioned_def)

lemma replaced_other: "delivery_replaced e k s' d d' \<Longrightarrow> eid \<noteq> k \<Longrightarrow> find_delivery d' eid = find_delivery d eid"
  by (simp add: delivery_replaced_def)

lemma record_delivery_replicated:
  assumes "record_delivery_attempt_db e attempt d = (Done Updated, d')" "find_delivery d eid = Some r"
  shows "\<exists>r'. find_delivery d' eid = Some r' \<and> same_replication r r'"
proof -
  from assms(1) obtain s n where s: "load_delivery_state e d (da_event_id attempt) = DeliveryFound s"
    and rep: "delivery_replaced e (da_event_id attempt)
      (stored e (attempted_record e attempt n s)\<lparr>ds_attempt_count := ds_attempt_count s + 1\<rparr>) d d'"
    by (rule record_delivery_Updated)
  show ?thesis
  proof (cases "eid = da_event_id attempt")
    case True
    with s rep assms(2) show ?thesis
      by (auto simp: delivery_replaced_def load_delivery_Found same_replication_def delivery_row_of_def stored_def
          attempted_record_def)
  next
    case False
    with replaced_other [OF rep] assms(2) show ?thesis by auto
  qed
qed

lemma db_step_replicated:
  assumes "db_step sha d d'" "find_delivery d eid = Some r" "dr_delivery_status r = ''REPLICATED''"
  shows "\<exists>r'. find_delivery d' eid = Some r' \<and> same_replication r r'"
proof -
  have not_loaded: "eid \<noteq> k" if "load_delivery_state e d k = DeliveryFound s" "ds_delivery_status s \<noteq> ''REPLICATED''" for e k s
    using that assms(2,3) by (auto simp: load_delivery_Found delivery_row_of_def)
  have kept: ?thesis if "find_delivery d' eid = find_delivery d eid" using that assms(2) by simp
  show ?thesis using assms(1)
  proof cases
    case db_same
    then show ?thesis using kept by simp
  next
    case db_history
    then show ?thesis using kept by (simp add: same_data_fields)
  next
    case (db_accept e req a)
    from db_accept(3) have "db_deliveries d' = db_deliveries d"
      by (rule accept_tx_added) (simp add: event_added_def)
    then show ?thesis using kept by simp
  next
    case (db_lifecycle e k rv ds rs)
    then have "d' = d\<lparr>db_lifecycles := db_lifecycles d'\<rparr>" by (auto elim: update_lifecycle_Updated)
    then have "db_deliveries d' = db_deliveries d" by (cases d; cases d') simp
    then show ?thesis using kept by simp
  next
    case (db_create e k rf pid pv topic)
    from create_Updated(3) [OF db_create(2)] assms(2) show ?thesis by (simp add: select_row_append)
  next
    case db_attempt
    with record_delivery_replicated assms(2) show ?thesis by blast
  next
    case (db_confirm e k rv c)
    from db_confirm(2) show ?thesis
      by (rule confirm_Updated) (use not_loaded transitioned_other kept in blast)
  next
    case (db_block e k rv reason)
    from db_block(2) show ?thesis
      by (rule block_Updated) (use not_loaded transitioned_other kept in blast)
  next
    case (db_retry e k rv t)
    from db_retry(2) show ?thesis
      by (rule retry_Updated) (use not_loaded replaced_other kept in blast)
  qed
qed

text \<open>
  C13: a replicated delivery is final. Once the delivery row of an event is \<^verbatim>\<open>REPLICATED\<close>, no sequence
  of calls of the journal's methods, with any failures, changes its status, revision, topic,
  partition, offset, routing fingerprint, profile or confirmation time.
\<close>

theorem replicated_delivery_is_final:
  assumes "journal_reach sha j" "find_delivery (lj_db j) eid = Some r" "dr_delivery_status r = ''REPLICATED''"
    and "(journal_step sha)\<^sup>*\<^sup>* j j'"
  shows "\<exists>r'. find_delivery (lj_db j') eid = Some r' \<and> same_replication r r'"
  using assms(4)
proof (induction rule: rtranclp_induct)
  case base
  with assms(2) show ?case by simp
next
  case (step y z)
  then obtain r' where r': "find_delivery (lj_db y) eid = Some r'" "same_replication r r'" by blast
  have "db_step sha (lj_db y) (lj_db z)"
    using step.hyps journal_steps_inv [OF _ journal_reach_inv [OF assms(1)]] journal_step_db by blast
  moreover have "dr_delivery_status r' = ''REPLICATED''" using r'(2) assms(3) by (simp add: same_replication_def)
  ultimately obtain r'' where "find_delivery (lj_db z) eid = Some r''" "same_replication r' r''"
    using db_step_replicated [OF _ r'(1)] by blast
  with r'(2) same_replication_trans show ?case by blast
qed

subsection \<open>Transitions that leave an unreadable row\<close>

lemma load_delivery_corrupted:
  assumes "find_delivery d eid = Some (delivery_row_of (stored e s))" "delivery_row_readable (delivery_row_of s)"
    "ds_delivery_status s \<in> set supported_delivery_statuses" "ds_event_id s = eid"
    "validate_delivery_state_invariants (stored e s) = Inl detail" "no_faults e'" "env_sha e' = env_sha e"
  shows "load_delivery_state e' d eid = DeliveryCorrupted eid detail"
proof -
  let ?s = "stored e s"
  have r: "delivery_row_readable (delivery_row_of ?s)" "ds_event_id ?s = eid" "ds_delivery_status ?s = ds_delivery_status s"
    using assms(2,4) by (simp_all add: delivery_row_readable_def delivery_row_of_def stored_def)
  have c: "checksum_of (dr_delivery_checksum (delivery_row_of ?s)) = Some (ds_delivery_checksum ?s)"
    "\<not> (case dr_routing_fingerprint (delivery_row_of ?s) of None \<Rightarrow> False | Some v \<Rightarrow> length v \<noteq> 32)"
    "dr_delivery_status (delivery_row_of ?s) = ds_delivery_status s"
    by (simp_all add: delivery_row_of_def stored_def split: option.splits)
  have "compute_delivery_checksum e' ?s = ds_delivery_checksum ?s"
    using assms(7) by (simp add: stored_def compute_delivery_checksum_def delivery_encoding_def)
  then have "check_delivery_row e' eid (delivery_row_of ?s) = DeliveryCorrupted eid detail"
    using c assms(3,5) delivery_record_of_row [of ?s] r(2) by (simp add: check_delivery_row_def Let_def)
  then show ?thesis using assms(1,6) r(1) by (simp add: load_delivery_state_def)
qed

lemma retry_succeeds:
  assumes "no_faults e" "keys_ok d" "load_delivery_state e d eid = DeliveryFound s" "ds_delivery_status s \<noteq> ''REPLICATED''"
    "in_i64 (ds_delivery_revision s + 1)"
  shows "\<exists>d'. update_delivery_retry_db e eid (ds_delivery_revision s) t d = (Done Updated, d')"
proof -
  have "find_delivery d eid = Some (delivery_row_of s)" using assms(3) by (simp add: load_delivery_Found)
  then have "snd (update_delivery_row eid (ds_delivery_revision s) f d) = 1" for f
    using assms(2) by (simp add: update_delivery_row_count keys_ok_def delivery_row_of_def)
  with assms show ?thesis
    by (simp add: update_delivery_retry_db_def cas_try_def cas_arith_def cas_sql_def cas_guard_def delivery_or_return_def
        cas_affected_def case_prod_beta Let_def)
qed

text \<open>
  C19: scheduling a retry of a blocked delivery corrupts it. On a journal whose keys are unique, as in every reachable
  one, and without engine failures, \<^verbatim>\<open>update_delivery_retry\<close> with the current revision of a blocked delivery answers
  \<^verbatim>\<open>Updated\<close>, but keeps the reason for the block in the row, which the read side forbids in a retrying state: every later
  read of the delivery state that no failure hits reports corruption.
\<close>

theorem retry_of_blocked_delivery_corrupts:
  assumes "keys_ok (lj_db j)" "\<not> lj_poisoned j" "no_faults e"
    and "load_delivery_state e (lj_db j) eid = DeliveryFound s" "ds_delivery_status s = ''DELIVERY_BLOCKED''"
    and "in_i64 (ds_delivery_revision s + 1)"
  shows "\<exists>j'. update_delivery_retry e eid (ds_delivery_revision s) t j = (Done Updated, j') \<and>
    (\<forall>e'. no_faults e' \<and> env_sha e' = env_sha e \<longrightarrow>
       (\<exists>detail. load_delivery_state e' (lj_db j') eid = DeliveryCorrupted eid detail))"
proof -
  obtain d' where up: "update_delivery_retry_db e eid (ds_delivery_revision s) t (lj_db j) = (Done Updated, d')"
    using retry_succeeds [OF assms(3,1,4) _ assms(6)] assms(5) by auto
  from up obtain s1 m where s1: "load_delivery_state e (lj_db j) eid = DeliveryFound s1"
    and rep: "delivery_replaced e eid (stored e (retrying_record e t m s1)) (lj_db j) d'" by (rule retry_Updated)
  have [simp]: "s1 = s" using s1 assms(4) by simp
  have ok: "delivery_ok e s" "find_delivery (lj_db j) eid = Some (delivery_row_of s)" using assms(4) by (simp_all add: load_delivery_Found)
  then have eid: "ds_event_id s = eid" by (auto simp: delivery_row_of_def dest: select_row_Some_in)
  have "ds_blocked_reason s \<noteq> None"
    using ok(1) assms(5) by (cases "ds_blocked_reason s")
      (simp_all add: delivery_ok_def validate_delivery_state_invariants_def require_non_empty_def Let_def)
  then have "validate_delivery_state_invariants (stored e (retrying_record e t m s)) \<noteq> Inr ()"
    by (auto simp: validate_delivery_state_invariants_def stored_def retrying_record_def require_absent_def Let_def bind_res_eq_Inr)
  then obtain detail where "validate_delivery_state_invariants (stored e (retrying_record e t m s)) = Inl detail"
    by (cases "validate_delivery_state_invariants (stored e (retrying_record e t m s))") auto
  with rep ok(1) eid have "load_delivery_state e' d' eid = DeliveryCorrupted eid detail" if "no_faults e'" "env_sha e' = env_sha e" for e'
    using that by (intro load_delivery_corrupted [of _ _ e "retrying_record e t m s"])
      (auto simp: delivery_replaced_def retrying_record_def delivery_ok_def delivery_row_readable_def delivery_row_of_def
        supported_delivery_statuses_def)
  with up assms(2) show ?thesis by (intro exI [of _ "j\<lparr>lj_db := d'\<rparr>"]) (auto simp: update_delivery_retry_def with_conn_def)
qed

definition sample_blocked :: delivery_state_record where
  "sample_blocked = stored sample_env (blocked_record sample_env ''stuck'' 2 sample_pending)"

theorem retry_of_blocked_delivery_corrupts_witness:
  "\<exists>j' detail. update_delivery_retry sample_env ''e1'' 2 9
       (sample_journal\<lparr>lj_db := sample_db\<lparr>db_deliveries := [delivery_row_of sample_blocked]\<rparr>\<rparr>) = (Done Updated, j') \<and>
     load_delivery_state sample_env (lj_db j') ''e1'' = DeliveryCorrupted ''e1'' detail"
proof -
  let ?d = "sample_db\<lparr>db_deliveries := [delivery_row_of sample_blocked]\<rparr>"
  have b: "ds_event_id sample_blocked = ''e1''" "ds_delivery_revision sample_blocked = 2"
    "ds_delivery_status sample_blocked = ''DELIVERY_BLOCKED''"
    by (simp_all add: sample_blocked_def stored_def blocked_record_def sample_pending_def pending_record_def)
  have "delivery_ok sample_env sample_blocked"
    unfolding sample_blocked_def
    by (rule delivery_ok_stored)
      (simp_all add: blocked_record_def sample_pending_def stored_def pending_record_def supported_delivery_statuses_def
        validate_delivery_state_invariants_def require_no_confirmed_kafka_metadata_def require_non_empty_def
        require_absent_def delivery_row_readable_def delivery_row_of_def in_i32_def i32_max_def)
  then have ld: "load_delivery_state sample_env ?d ''e1'' = DeliveryFound sample_blocked"
    using b by (simp add: load_delivery_Found) (simp add: delivery_row_of_def)
  have keys: "keys_ok ?d" using sample_db_keys b(1)
    by (simp add: keys_ok_def sample_db_def delivery_row_of_def event_added_def empty_db_def new_envelope_row_def sample_request_def)
  from retry_of_blocked_delivery_corrupts [of "sample_journal\<lparr>lj_db := ?d\<rparr>" sample_env "''e1''" sample_blocked 9] ld keys b show ?thesis
    by (auto simp: sample_journal_def in_i64_def i64_max_def)
qed

lemma create_succeeds:
  assumes "no_faults e" "find_envelope d eid \<noteq> None" "find_delivery d eid = None"
  shows "\<exists>d'. create_delivery_pending_db e eid rf pid pv topic d = (Done Updated, d')"
proof -
  have "\<exists>rows. insert_row dr_event_id (pending_row e eid rf pid pv topic) (db_deliveries d) = Some rows"
    using list_table.ins_new [of dr_event_id "pending_row e eid rf pid pv topic" "db_deliveries d"] assms(3)
    by (simp add: pending_row_def)
  with assms show ?thesis
    by (auto simp: create_delivery_pending_db_def cas_try_def cas_sql_def cas_guard_def fk_envelope_def)
qed

lemma pending_record_ok:
  assumes "topic \<noteq> []" "pid \<noteq> []" "0 < pv" "in_i32 pv" "env_sha e' = env_sha e"
  shows "delivery_ok e' (stored e (pending_record e eid rf pid pv topic))"
  by (rule delivery_ok_stored [OF assms(5)])
    (use assms in \<open>simp_all add: pending_record_def supported_delivery_statuses_def validate_delivery_state_invariants_def
        require_delivery_routing_fields_def require_no_confirmed_kafka_metadata_def require_non_empty_def require_some_def
        require_positive_i32_def require_absent_def delivery_row_readable_def delivery_row_of_def in_i32_def i32_max_def\<close>)

lemma replicate_event:
  assumes reach: "journal_reach sha j" and usable: "\<not> lj_poisoned j"
    and ev: "fk_envelope (lj_db j) eid" "find_delivery (lj_db j) eid = None"
    and e: "no_faults e" "env_sha e = sha" and c: "confirmation_valid c" "in_i32 (rc_expected_profile_version c)"
    and rev: "\<exists>l. find_lifecycle (lj_db j) eid = Some l \<and> in_i64 (ls_revision l + 1)"
  shows "\<exists>j1 j2 r. create_delivery_pending e eid (rc_expected_routing_fingerprint c) (rc_expected_profile_id c)
      (rc_expected_profile_version c) (rc_kafka_topic c) j = (Done Updated, j1) \<and>
    confirm_replicated_delivery e eid 1 c j1 = (Done Updated, j2) \<and>
    find_delivery (lj_db j2) eid = Some r \<and> dr_delivery_status r = ''REPLICATED''"
proof -
  let ?s = "stored e (pending_record e eid (rc_expected_routing_fingerprint c) (rc_expected_profile_id c)
    (rc_expected_profile_version c) (rc_kafka_topic c))"
  have ev': "find_envelope (lj_db j) eid \<noteq> None" using ev(1) by (simp add: fk_envelope_def)
  obtain d1 where d1: "create_delivery_pending_db e eid (rc_expected_routing_fingerprint c) (rc_expected_profile_id c)
      (rc_expected_profile_version c) (rc_kafka_topic c) (lj_db j) = (Done Updated, d1)"
    using create_succeeds [OF e(1) ev' ev(2)] by blast
  let ?j1 = "j\<lparr>lj_db := d1\<rparr>"
  have j1: "create_delivery_pending e eid (rc_expected_routing_fingerprint c) (rc_expected_profile_id c)
      (rc_expected_profile_version c) (rc_kafka_topic c) j = (Done Updated, ?j1)"
    using usable d1 by (simp add: create_delivery_pending_def with_conn_def)
  have r1: "journal_reach sha ?j1" by (rule again [OF reach step_create [OF e(2) j1]])
  note row = create_Updated(3) [OF d1]
  have "dr_event_id (delivery_row_of ?s) = eid" by (simp add: delivery_row_of_def stored_def pending_record_def)
  then have "find_delivery d1 eid = Some (delivery_row_of ?s)" using row ev(2) by (simp add: select_row_append)
  moreover have "delivery_ok e ?s" using c by (intro pending_record_ok) (simp_all add: confirmation_valid_def)
  ultimately have ld: "load_delivery_state e d1 eid = DeliveryFound ?s" using e(1) by (simp add: load_delivery_Found no_faults_def)
  obtain en where en: "find_envelope d1 eid = Some en" using ev' row by auto
  have inv1: "journal_inv d1" "events_ok sha d1" using journal_reach_inv [OF r1] journal_reach_events_ok [OF r1] by simp_all
  obtain st l where st: "get_status_impl e d1 eid = StatusFound st" "find_lifecycle d1 eid = Some l" "describes st en l"
    by (rule status_found [OF inv1 e en])
  have "in_i64 (ps_lifecycle_revision st + 1)" using st(2,3) rev row by (auto simp: describes_def)
  then obtain d2 where d2: "confirm_replicated_delivery_db e eid 1 c d1 = (Done Updated, d2)"
    using confirm_succeeds [OF e(1) _ ld _ st(1), of 1 c] inv1(1)
    by (auto simp: journal_inv_def confirm_guards_Inr stored_def pending_record_def in_i64_def i64_max_def)
  then have "confirm_replicated_delivery e eid 1 c ?j1 = (Done Updated, j\<lparr>lj_db := d2\<rparr>)"
    using usable by (simp add: confirm_replicated_delivery_def with_conn_def)
  moreover have "\<exists>r. find_delivery d2 eid = Some r \<and> dr_delivery_status r = ''REPLICATED''"
    using d2 by (rule confirm_Updated) (auto simp: transitioned_def delivery_row_of_def stored_def confirmed_record_def)
  ultimately show ?thesis using j1 by auto
qed

text \<open>
  C15: an accepted event can be delivered. In every reachable state of a usable journal, an event that
  has no delivery state yet can be given one and then be confirmed: without failures both calls are
  answered \<^verbatim>\<open>Updated\<close> and the event ends up replicated.
\<close>

theorem accepted_event_can_be_replicated:
  assumes reach: "journal_reach sha j" and usable: "\<not> lj_poisoned j"
    and ev: "fk_envelope (lj_db j) eid" "find_delivery (lj_db j) eid = None"
    and e: "no_faults e" "env_sha e = sha" and c: "confirmation_valid c" "in_i32 (rc_expected_profile_version c)"
    and rev: "\<exists>l. find_lifecycle (lj_db j) eid = Some l \<and> in_i64 (ls_revision l + 1)"
  shows "\<exists>j1 j2 r. create_delivery_pending e eid (rc_expected_routing_fingerprint c) (rc_expected_profile_id c)
      (rc_expected_profile_version c) (rc_kafka_topic c) j = (Done Updated, j1) \<and>
    confirm_replicated_delivery e eid 1 c j1 = (Done Updated, j2) \<and>
    find_delivery (lj_db j2) eid = Some r \<and> dr_delivery_status r = ''REPLICATED''"
  using assms by (rule replicate_event)

lemma sample_reach:
  obtains j where "accept sample_env sample_request sample_journal = (Done (AcceptAccepted sample_accepted), j)"
    "journal_reach (env_sha sample_env) j" "\<not> lj_poisoned j" "fk_envelope (lj_db j) ''e1''"
    "find_delivery (lj_db j) ''e1'' = None" "\<exists>l. find_lifecycle (lj_db j) ''e1'' = Some l \<and> in_i64 (ls_revision l + 1)"
proof -
  obtain j where acc: "accept sample_env sample_request sample_journal = (Done (AcceptAccepted sample_accepted), j)"
    using sample_accept by blast
  have "journal_reach (env_sha sample_env) sample_journal" by (rule fresh) (simp add: sample_journal_def)
  moreover have "journal_step (env_sha sample_env) sample_journal j"
    by (rule step_accept [OF refl _ acc]) (simp add: sample_request_def in_i32_def i32_max_def)
  ultimately have "journal_reach (env_sha sample_env) j" by (rule again)
  moreover obtain js ss where abs: "event_absent (lj_db sample_journal) (aq_event_id sample_request)"
    and db: "lj_db j = record_attempt sample_env (event_added sample_env sample_request js ss (lj_db sample_journal))
      (aq_event_id sample_request) ''NEWLY_ACCEPTED'' None"
    by (rule accept_insert_Accepted [OF accept_Accepted [OF acc]])
  have "find_envelope (lj_db j) ''e1'' = Some (new_envelope_row sample_env sample_request js ss)"
    "find_lifecycle (lj_db j) ''e1'' = Some (new_lifecycle_row sample_env sample_request)"
    "find_delivery (lj_db j) ''e1'' = None"
    unfolding db by (simp_all add: find_event_added [OF abs], simp_all add: sample_request_def event_added_def
        sample_journal_def empty_db_def)
  ultimately show ?thesis using acc accept_Accepted_state [OF acc]
    by (intro that) (auto simp: fk_envelope_def new_lifecycle_row_def in_i64_def i64_max_def)
qed

lemma sample_confirmation_valid: "confirmation_valid sample_confirmation" "in_i32 (rc_expected_profile_version sample_confirmation)"
  by (simp_all add: confirmation_valid_def sample_confirmation_def in_i32_def i32_max_def)

theorem accepted_event_can_be_replicated_witness:
  "\<exists>j j1 j2. accept sample_env sample_request sample_journal = (Done (AcceptAccepted sample_accepted), j) \<and>
     create_delivery_pending sample_env ''e1'' (fill_checksum 4) ''prof'' 1 ''events'' j = (Done Updated, j1) \<and>
     confirm_replicated_delivery sample_env ''e1'' 1 sample_confirmation j1 = (Done Updated, j2)"
proof -
  obtain j where j: "accept sample_env sample_request sample_journal = (Done (AcceptAccepted sample_accepted), j)"
    "journal_reach (env_sha sample_env) j" "\<not> lj_poisoned j" "fk_envelope (lj_db j) ''e1''"
    "find_delivery (lj_db j) ''e1'' = None" "\<exists>l. find_lifecycle (lj_db j) ''e1'' = Some l \<and> in_i64 (ls_revision l + 1)"
    by (rule sample_reach)
  from accepted_event_can_be_replicated [OF j(2-5) no_faults_sample refl sample_confirmation_valid j(6)] j(1) show ?thesis
    by (simp add: sample_confirmation_def) blast
qed

theorem replicated_delivery_is_final_witness:
  "\<exists>j r r'. journal_reach (env_sha sample_env) j \<and> find_delivery (lj_db j) ''e1'' = Some r \<and>
     dr_delivery_status r = ''REPLICATED'' \<and> find_delivery (lj_db (shutdown j)) ''e1'' = Some r' \<and> same_replication r r'"
proof -
  obtain j where j: "journal_reach (env_sha sample_env) j" "\<not> lj_poisoned j" "fk_envelope (lj_db j) ''e1''"
    "find_delivery (lj_db j) ''e1'' = None" "\<exists>l. find_lifecycle (lj_db j) ''e1'' = Some l \<and> in_i64 (ls_revision l + 1)"
    by (rule sample_reach)
  obtain j1 j2 r where steps: "create_delivery_pending sample_env ''e1'' (rc_expected_routing_fingerprint sample_confirmation)
      (rc_expected_profile_id sample_confirmation) (rc_expected_profile_version sample_confirmation)
      (rc_kafka_topic sample_confirmation) j = (Done Updated, j1)"
    "confirm_replicated_delivery sample_env ''e1'' 1 sample_confirmation j1 = (Done Updated, j2)"
    and r: "find_delivery (lj_db j2) ''e1'' = Some r" "dr_delivery_status r = ''REPLICATED''"
    using replicate_event [OF j(1-4) no_faults_sample refl sample_confirmation_valid j(5)] by blast
  have "journal_reach (env_sha sample_env) j1" by (rule again [OF j(1) step_create [OF refl steps(1)]])
  then have reach: "journal_reach (env_sha sample_env) j2" by (rule again [OF _ step_confirm [OF refl steps(2)]])
  have "(journal_step (env_sha sample_env))\<^sup>*\<^sup>* j2 (shutdown j2)" by (rule r_into_rtranclp) (rule step_shutdown)
  from replicated_delivery_is_final [OF reach r this] reach r show ?thesis by blast
qed

end
