(* ===== verification/Journal_Scan.thy ===== *)
theory Journal_Scan
  imports Journal_Cas
begin

text \<open>
  The delivery scans: a left join of the delivery table with the envelopes, ordered and limited,
  whose rows are verified one by one (\<^verbatim>\<open>collect_delivery_scan\<close>). A scan either reports every selected
  delivery, verified, or stops at the first row that does not verify.
\<close>

record delivery_scan_row =
  sr_event_id :: string
  sr_journal_sequence :: "i64 option"
  sr_stream_key :: "string option"
  sr_stream_sequence :: "i64 option"
  sr_envelope_checksum :: "bytes option"
  sr_delivery_status :: string
  sr_attempt_count :: i64
  sr_next_retry_at_ms :: "i64 option"

text \<open>\<^verbatim>\<open>FROM delivery_state d LEFT JOIN stored_envelope e ON d.event_id = e.event_id\<close>.\<close>

definition join_row :: "db \<Rightarrow> delivery_row \<Rightarrow> delivery_scan_row" where
  "join_row d r =
     (let en = find_envelope d (dr_event_id r) in
      \<lparr>sr_event_id = dr_event_id r, sr_journal_sequence = map_option se_journal_sequence en,
       sr_stream_key = map_option se_stream_key en, sr_stream_sequence = map_option se_stream_sequence en,
       sr_envelope_checksum = map_option se_envelope_checksum en, sr_delivery_status = dr_delivery_status r,
       sr_attempt_count = dr_attempt_count r, sr_next_retry_at_ms = dr_next_retry_at_ms r\<rparr>)"

text \<open>\<^verbatim>\<open>ORDER BY .. ASC\<close>: in SQLite \<^verbatim>\<open>NULL\<close> comes first. Rows that tie are kept in table order.\<close>

definition order_by :: "('r \<Rightarrow> i64 option) \<Rightarrow> 'r list \<Rightarrow> 'r list" where
  "order_by f rows = filter (\<lambda>r. f r = None) rows @ sort_key (\<lambda>r. the (f r)) (filter (\<lambda>r. f r \<noteq> None) rows)"

text \<open>\<^verbatim>\<open>LIMIT n\<close>: a negative limit is no limit.\<close>

definition limit_rows :: "i32 \<Rightarrow> 'r list \<Rightarrow> 'r list" where
  "limit_rows n rows = (if n < 0 then rows else take (nat n) rows)"

definition verify_delivery_scan_envelope ::
    "env \<Rightarrow> db \<Rightarrow> delivery_scan_row \<Rightarrow> (string \<times> string) + pending_delivery" where
  "verify_delivery_scan_envelope e d row =
     (case (sr_journal_sequence row, sr_stream_key row, sr_stream_sequence row, sr_envelope_checksum row) of
        (Some journal_sequence, Some stream_key, Some stream_sequence, Some bs) \<Rightarrow>
          (case checksum_of bs of
             None \<Rightarrow> Inl (sr_event_id row, expected_length_32 ''envelope checksum'' bs)
           | Some envelope_checksum \<Rightarrow>
               (case recompute_envelope_checksum_from_row e d (sr_event_id row) of
                  Inl detail \<Rightarrow> Inl (sr_event_id row, detail)
                | Inr expected \<Rightarrow>
                    if envelope_checksum = expected
                    then Inr \<lparr>pd_event_id = sr_event_id row, pd_journal_sequence = journal_sequence,
                              pd_stream_key = stream_key, pd_stream_sequence = stream_sequence,
                              pd_delivery_status = sr_delivery_status row,
                              pd_attempt_count = sr_attempt_count row,
                              pd_next_retry_at_ms = sr_next_retry_at_ms row\<rparr>
                    else Inl (sr_event_id row, ''envelope checksum mismatch'')))
      | _ \<Rightarrow> Inl (sr_event_id row, ''stored envelope missing for delivery scan''))"

text \<open>The loop of \<^verbatim>\<open>collect_delivery_scan\<close>; \<open>deliveries\<close> is the vector filled so far.\<close>

fun collect_rows :: "env \<Rightarrow> db \<Rightarrow> delivery_scan_row list \<Rightarrow> pending_delivery list \<Rightarrow> delivery_scan_result" where
  "collect_rows e d [] deliveries = ScanOk deliveries"
| "collect_rows e d (row # rows) deliveries =
     (case sql_checked e (SqlScanRow (sr_event_id row)) (if in_i32 (sr_attempt_count row) then Some () else None) of
        Inl m \<Rightarrow> ScanCorrupted None (''delivery scan row conversion error: '' @ m)
      | Inr _ \<Rightarrow>
          (case load_delivery_state e d (sr_event_id row) of
             DeliveryNotFound \<Rightarrow>
               ScanCorrupted (Some (sr_event_id row)) ''delivery state disappeared during scan''
           | DeliveryCorrupted event_id detail \<Rightarrow> ScanCorrupted (Some event_id) detail
           | DeliveryError m \<Rightarrow> ScanError m
           | DeliveryFound _ \<Rightarrow>
               (case verify_delivery_scan_envelope e d row of
                  Inl (event_id, detail) \<Rightarrow> ScanCorrupted (Some event_id) detail
                | Inr pending \<Rightarrow> collect_rows e d rows (deliveries @ [pending]))))"

definition collect_delivery_scan :: "env \<Rightarrow> db \<Rightarrow> string + delivery_scan_row list \<Rightarrow> delivery_scan_result" where
  "collect_delivery_scan e d rows = (case rows of Inl m \<Rightarrow> ScanError m | Inr rs \<Rightarrow> collect_rows e d rs [])"

text \<open>Preparing and running the statement, for each of the three scans.\<close>

definition run_scan :: "env \<Rightarrow> db \<Rightarrow> delivery_scan_row list \<Rightarrow> delivery_scan_result" where
  "run_scan e d rows =
     (case sql e SqlPrepareScan () of
        Inl m \<Rightarrow> ScanError m
      | Inr _ \<Rightarrow> collect_delivery_scan e d (sql e SqlScanQuery rows))"

definition scan_pending_deliveries_db :: "env \<Rightarrow> i32 \<Rightarrow> db \<Rightarrow> delivery_scan_result" where
  "scan_pending_deliveries_db e limit d = run_scan e d
     (limit_rows limit (order_by sr_journal_sequence
       (map (join_row d) (filter (\<lambda>r. dr_delivery_status r = ''DELIVERY_PENDING'') (db_deliveries d)))))"

definition scan_retrying_deliveries_db :: "env \<Rightarrow> i64 \<Rightarrow> i32 \<Rightarrow> db \<Rightarrow> delivery_scan_result" where
  "scan_retrying_deliveries_db e now_ms limit d = run_scan e d
     (limit_rows limit (order_by sr_next_retry_at_ms
       (map (join_row d) (filter (\<lambda>r. dr_delivery_status r = ''DELIVERY_RETRYING'' \<and>
          (case dr_next_retry_at_ms r of None \<Rightarrow> False | Some t \<Rightarrow> t \<le> now_ms)) (db_deliveries d)))))"

definition scan_delivery_gate_states_db :: "env \<Rightarrow> i32 \<Rightarrow> db \<Rightarrow> delivery_scan_result" where
  "scan_delivery_gate_states_db e limit d = run_scan e d
     (limit_rows limit (order_by sr_journal_sequence (map (join_row d) (db_deliveries d))))"

definition scan_pending_deliveries :: "env \<Rightarrow> i32 \<Rightarrow> local_journal \<Rightarrow> delivery_scan_result outcome \<times> local_journal" where
  "scan_pending_deliveries e limit = with_conn (\<lambda>d. (Done (scan_pending_deliveries_db e limit d), d))"

definition scan_retrying_deliveries ::
    "env \<Rightarrow> i64 \<Rightarrow> i32 \<Rightarrow> local_journal \<Rightarrow> delivery_scan_result outcome \<times> local_journal" where
  "scan_retrying_deliveries e now_ms limit = with_conn (\<lambda>d. (Done (scan_retrying_deliveries_db e now_ms limit d), d))"

definition scan_delivery_gate_states :: "env \<Rightarrow> i32 \<Rightarrow> local_journal \<Rightarrow> delivery_scan_result outcome \<times> local_journal" where
  "scan_delivery_gate_states e limit = with_conn (\<lambda>d. (Done (scan_delivery_gate_states_db e limit d), d))"

subsection \<open>What a successful scan returns\<close>

text \<open>A reported delivery agrees with its delivery row and its verified envelope.\<close>

definition reports :: "env \<Rightarrow> db \<Rightarrow> pending_delivery \<Rightarrow> bool" where
  "reports e d p \<longleftrightarrow>
     (\<exists>r en. r \<in> set (db_deliveries d) \<and> dr_event_id r = pd_event_id p \<and> find_envelope d (pd_event_id p) = Some en \<and>
        envelope_ok e en \<and> (\<exists>s. load_delivery_state e d (pd_event_id p) = DeliveryFound s) \<and>
        pd_journal_sequence p = se_journal_sequence en \<and> pd_stream_key p = se_stream_key en \<and>
        pd_stream_sequence p = se_stream_sequence en \<and> pd_delivery_status p = dr_delivery_status r)"

lemma set_order_by [simp]: "set (order_by f rows) = set rows"
  by (auto simp: order_by_def)

lemma length_order_by [simp]: "length (order_by f rows) = length rows"
  using sum_length_filter_compl [of "\<lambda>r. f r = None" rows] by (simp add: order_by_def)

lemma set_limit_rows: "set (limit_rows n rows) \<subseteq> set rows"
  by (auto simp: limit_rows_def dest: in_set_takeD)

lemma limit_rows_all: "n < 0 \<or> int (length rows) \<le> n \<Longrightarrow> limit_rows n rows = rows"
  by (auto simp: limit_rows_def)

lemma verify_scan_Inr:
  assumes "verify_delivery_scan_envelope e d (join_row d r) = Inr p"
  obtains en where "find_envelope d (dr_event_id r) = Some en" "envelope_ok e en" "env_fault e (SqlRecompute (dr_event_id r)) = None"
    "p = \<lparr>pd_event_id = dr_event_id r, pd_journal_sequence = se_journal_sequence en, pd_stream_key = se_stream_key en,
      pd_stream_sequence = se_stream_sequence en, pd_delivery_status = dr_delivery_status r,
      pd_attempt_count = dr_attempt_count r, pd_next_retry_at_ms = dr_next_retry_at_ms r\<rparr>"
proof -
  from assms obtain en where en: "find_envelope d (dr_event_id r) = Some en"
    by (cases "find_envelope d (dr_event_id r)") (auto simp: verify_delivery_scan_envelope_def join_row_def Let_def)
  with assms obtain c where c: "se_envelope_checksum en = bytes_of c" "recompute_envelope_checksum_from_row e d (dr_event_id r) = Inr c"
    "p = \<lparr>pd_event_id = dr_event_id r, pd_journal_sequence = se_journal_sequence en, pd_stream_key = se_stream_key en,
      pd_stream_sequence = se_stream_sequence en, pd_delivery_status = dr_delivery_status r,
      pd_attempt_count = dr_attempt_count r, pd_next_retry_at_ms = dr_next_retry_at_ms r\<rparr>"
    by (auto simp: verify_delivery_scan_envelope_def join_row_def Let_def checksum_of_eq_Some
        split: option.splits sum.splits if_splits)
  with recompute_matches [OF en, of e c] en show ?thesis by (intro that) auto
qed

lemma collect_rows_Ok:
  assumes "collect_rows e d rows acc = ScanOk ps" "set rows \<subseteq> join_row d ` set (db_deliveries d)"
  shows "\<exists>qs. ps = acc @ qs \<and> map pd_event_id qs = map sr_event_id rows \<and> list_all (reports e d) qs \<and>
    map (\<lambda>p. Some (pd_journal_sequence p)) qs = map sr_journal_sequence rows"
  using assms
proof (induction rows arbitrary: acc)
  case (Cons row rows)
  then obtain r where r: "r \<in> set (db_deliveries d)" "row = join_row d r" by auto
  from Cons.prems(1) obtain s p where s: "load_delivery_state e d (sr_event_id row) = DeliveryFound s"
    and p: "verify_delivery_scan_envelope e d row = Inr p" and rest: "collect_rows e d rows (acc @ [p]) = ScanOk ps"
    by (auto split: sum.splits delivery_state_result.splits prod.splits)
  from Cons.IH [OF rest] Cons.prems(2) obtain qs where qs: "ps = (acc @ [p]) @ qs" "map pd_event_id qs = map sr_event_id rows"
    "list_all (reports e d) qs" "map (\<lambda>p. Some (pd_journal_sequence p)) qs = map sr_journal_sequence rows" by auto
  from p [unfolded r(2)] obtain en where en: "find_envelope d (dr_event_id r) = Some en" "envelope_ok e en"
    and pe: "p = \<lparr>pd_event_id = dr_event_id r, pd_journal_sequence = se_journal_sequence en, pd_stream_key = se_stream_key en,
      pd_stream_sequence = se_stream_sequence en, pd_delivery_status = dr_delivery_status r,
      pd_attempt_count = dr_attempt_count r, pd_next_retry_at_ms = dr_next_retry_at_ms r\<rparr>"
    by (rule verify_scan_Inr)
  have row: "sr_event_id row = dr_event_id r" "sr_journal_sequence row = Some (se_journal_sequence en)"
    using en(1) by (simp_all add: r(2) join_row_def Let_def)
  have "reports e d p" using r(1) en s row(1) by (auto simp: reports_def pe)
  with qs row show ?case by (intro exI [of _ "p # qs"]) (simp add: pe)
qed simp

lemma collect_rows_succeeds:
  assumes "no_faults e" "\<And>row. row \<in> set rows \<Longrightarrow> \<exists>s p. load_delivery_state e d (sr_event_id row) = DeliveryFound s \<and>
    in_i32 (sr_attempt_count row) \<and> verify_delivery_scan_envelope e d row = Inr p"
  shows "\<exists>ps. collect_rows e d rows acc = ScanOk ps"
  using assms(2)
proof (induction rows arbitrary: acc)
  case (Cons row rows)
  from Cons.prems [of row] obtain s p where "load_delivery_state e d (sr_event_id row) = DeliveryFound s"
    "in_i32 (sr_attempt_count row)" "verify_delivery_scan_envelope e d row = Inr p" by auto
  with Cons.IH [of "acc @ [p]"] Cons.prems assms(1) show ?case by simp
qed simp

lemma sorted_order_by:
  assumes "map Some ns = map f (limit_rows k (order_by f rows))"
  shows "sorted ns"
proof -
  have sorted_take: "sorted (take n xs)" if "sorted xs" for n and xs :: "i64 list"
    using that by (metis append_take_drop_id sorted_append)
  have "sorted ns" if "map Some ns = map f (take n (order_by f rows))" for n
  proof (cases n)
    case 0
    with that show ?thesis by simp
  next
    case (Suc m)
    have none: "filter (\<lambda>r. f r = None) rows = []"
    proof (rule ccontr)
      assume "filter (\<lambda>r. f r = None) rows \<noteq> []"
      then obtain y ys where y: "filter (\<lambda>r. f r = None) rows = y # ys" by (cases "filter (\<lambda>r. f r = None) rows") auto
      then have "f y = None" by (metis (mono_tags, lifting) list.set_intros(1) mem_Collect_eq set_filter)
      moreover from that y Suc have "f y \<in> Some ` set ns"
        by (auto simp: order_by_def map_eq_Cons_conv)
      ultimately show False by auto
    qed
    with that have "map Some ns = map f (take n (sort_key (\<lambda>r. the (f r)) (filter (\<lambda>r. f r \<noteq> None) rows)))"
      by (simp add: order_by_def)
    then have "map the (map Some ns) = map the (map f (take n (sort_key (\<lambda>r. the (f r)) (filter (\<lambda>r. f r \<noteq> None) rows))))"
      by (rule arg_cong)
    then have "ns = take n (map (\<lambda>r. the (f r)) (sort_key (\<lambda>r. the (f r)) (filter (\<lambda>r. f r \<noteq> None) rows)))"
      by (simp add: comp_def take_map)
    then show ?thesis using sorted_take [OF sorted_sort_key] by simp
  qed
  from this [of "nat k"] this [of "length rows"] assms show ?thesis by (auto simp: limit_rows_def split: if_splits)
qed

lemma run_scan_Ok:
  assumes "run_scan e d rows = ScanOk ps" "set rows \<subseteq> join_row d ` set (db_deliveries d)"
  shows "map pd_event_id ps = map sr_event_id rows \<and> list_all (reports e d) ps \<and>
    map (\<lambda>p. Some (pd_journal_sequence p)) ps = map sr_journal_sequence rows"
proof -
  from assms(1) have "collect_rows e d rows [] = ScanOk ps"
    by (auto simp: run_scan_def collect_delivery_scan_def sql_def split: option.splits)
  from collect_rows_Ok [OF this assms(2)] show ?thesis by auto
qed

text \<open>A limited scan is a prefix: with a delivery it reports every delivery that comes before it in the journal.\<close>

lemma order_by_sorted: "sorted_wrt (\<lambda>x y. f x = None \<or> f y \<noteq> None \<and> the (f x) \<le> the (f y)) (order_by f rows)"
proof -
  let ?R = "\<lambda>x y. f x = None \<or> f y \<noteq> None \<and> the (f x) \<le> the (f y)"
  have "sorted (map (\<lambda>r. the (f r)) (sort_key (\<lambda>r. the (f r)) (filter (\<lambda>r. f r \<noteq> None) rows)))" by (rule sorted_sort_key)
  then have "sorted_wrt ?R (sort_key (\<lambda>r. the (f r)) (filter (\<lambda>r. f r \<noteq> None) rows))"
    unfolding sorted_map by (rule sorted_wrt_mono_rel [rotated]) auto
  moreover have "sorted_wrt ?R (filter (\<lambda>r. f r = None) rows)" by (induction rows) auto
  ultimately show ?thesis by (auto simp: order_by_def sorted_wrt_append)
qed

lemma limit_rows_prefix:
  assumes "x \<in> set (limit_rows n (order_by f rows))" "y \<in> set rows" "f x = Some a" "f y = Some b" "b < a"
  shows "y \<in> set (limit_rows n (order_by f rows))"
proof (cases "n < 0")
  case False
  let ?xs = "order_by f rows"
  have "y \<notin> set (drop (nat n) ?xs)"
  proof
    assume y: "y \<in> set (drop (nat n) ?xs)"
    have "sorted_wrt (\<lambda>x y. f x = None \<or> f y \<noteq> None \<and> the (f x) \<le> the (f y)) (take (nat n) ?xs @ drop (nat n) ?xs)"
      using order_by_sorted [of f rows] by simp
    with y assms False show False unfolding sorted_wrt_append by (fastforce simp: limit_rows_def)
  qed
  moreover have "y \<in> set (take (nat n) ?xs) \<union> set (drop (nat n) ?xs)"
    using assms(2) by (metis append_take_drop_id set_append set_order_by)
  ultimately show ?thesis using False by (simp add: limit_rows_def)
qed (use assms in \<open>simp add: limit_rows_def\<close>)

lemma gate_scan_rows:
  assumes "scan_delivery_gate_states_db e limit d = ScanOk ps"
  shows "map pd_event_id ps = map sr_event_id (limit_rows limit (order_by sr_journal_sequence (map (join_row d) (db_deliveries d))))"
    "list_all (reports e d) ps"
    "map (\<lambda>p. Some (pd_journal_sequence p)) ps =
       map sr_journal_sequence (limit_rows limit (order_by sr_journal_sequence (map (join_row d) (db_deliveries d))))"
proof -
  let ?rows = "limit_rows limit (order_by sr_journal_sequence (map (join_row d) (db_deliveries d)))"
  have "set ?rows \<subseteq> join_row d ` set (db_deliveries d)"
    using set_limit_rows [of limit "order_by sr_journal_sequence (map (join_row d) (db_deliveries d))"] by simp
  with run_scan_Ok [of e d ?rows ps] assms show "map pd_event_id ps = map sr_event_id ?rows" "list_all (reports e d) ps"
    "map (\<lambda>p. Some (pd_journal_sequence p)) ps = map sr_journal_sequence ?rows"
    by (simp_all add: scan_delivery_gate_states_db_def)
qed

lemma gate_scan_prefix:
  assumes "scan_delivery_gate_states_db e limit d = ScanOk ps" "p \<in> set ps"
    and "r \<in> set (db_deliveries d)" "find_envelope d (dr_event_id r) = Some en" "se_journal_sequence en < pd_journal_sequence p"
  obtains p' where "p' \<in> set ps" "pd_event_id p' = dr_event_id r"
proof -
  let ?rows = "limit_rows limit (order_by sr_journal_sequence (map (join_row d) (db_deliveries d)))"
  note scan = gate_scan_rows [OF assms(1)]
  have "Some (pd_journal_sequence p) \<in> set (map (\<lambda>p. Some (pd_journal_sequence p)) ps)" using assms(2) by simp
  then obtain x where x: "x \<in> set ?rows" "sr_journal_sequence x = Some (pd_journal_sequence p)" unfolding scan(3) by auto
  have row: "join_row d r \<in> set (map (join_row d) (db_deliveries d))" using assms(3) by simp
  have y: "sr_journal_sequence (join_row d r) = Some (se_journal_sequence en)" "sr_event_id (join_row d r) = dr_event_id r"
    using assms(4) by (simp_all add: join_row_def Let_def)
  have "join_row d r \<in> set ?rows" by (rule limit_rows_prefix [OF x(1) row x(2) y(1) assms(5)])
  then have "dr_event_id r \<in> set (map pd_event_id ps)" unfolding scan(1) using y(2) by (metis image_eqI list.set_map)
  with that show ?thesis by auto
qed

text \<open>
  C17: the recovery scan is complete and ordered. When \<^verbatim>\<open>scan_delivery_gate_states\<close> succeeds with a
  limit that does not cut, it reports every delivery of the table exactly once, in the order of the
  journal, each with a delivery state that verifies and with the stream key, stream sequence and
  status stored for it.
\<close>

theorem gate_scan_complete_and_ordered:
  assumes "scan_delivery_gate_states_db e limit d = ScanOk ps" "limit < 0 \<or> int (length (db_deliveries d)) \<le> limit"
    and "distinct (map dr_event_id (db_deliveries d))"
  shows "set (map pd_event_id ps) = set (map dr_event_id (db_deliveries d)) \<and> distinct (map pd_event_id ps) \<and>
    sorted (map pd_journal_sequence ps) \<and> list_all (reports e d) ps"
proof -
  let ?rows = "order_by sr_journal_sequence (map (join_row d) (db_deliveries d))"
  have all: "limit_rows limit ?rows = ?rows" using assms(2) by (intro limit_rows_all) simp
  have scan: "run_scan e d (limit_rows limit ?rows) = ScanOk ps" using assms(1) by (simp add: scan_delivery_gate_states_db_def)
  have "set (limit_rows limit ?rows) \<subseteq> join_row d ` set (db_deliveries d)" unfolding all by simp
  note ok = run_scan_Ok [OF scan this]
  have ids: "map sr_event_id (map (join_row d) (db_deliveries d)) = map dr_event_id (db_deliveries d)"
    by (simp add: join_row_def Let_def)
  have "set (map pd_event_id ps) = set (map dr_event_id (db_deliveries d))"
    using ok unfolding all by (metis ids list.set_map set_order_by)
  moreover have "length (map pd_event_id ps) = length (map dr_event_id (db_deliveries d))"
    using arg_cong [OF conjunct1 [OF ok], of length] unfolding all by simp
  ultimately have "distinct (map pd_event_id ps)" "set (map pd_event_id ps) = set (map dr_event_id (db_deliveries d))"
    using assms(3) by (metis card_distinct distinct_card, simp)
  moreover have "sorted (map pd_journal_sequence ps)"
    by (rule sorted_order_by [of _ sr_journal_sequence limit "map (join_row d) (db_deliveries d)"])
      (use ok in \<open>simp add: comp_def\<close>)
  ultimately show ?thesis using ok by blast
qed

lemma verify_scan_succeeds:
  assumes "find_envelope d (dr_event_id r) = Some en" "envelope_ok e en" "no_faults e"
  shows "\<exists>p. verify_delivery_scan_envelope e d (join_row d r) = Inr p"
proof -
  from assms(2) obtain c where c: "se_envelope_checksum en = bytes_of c" by (auto simp: envelope_ok_iff)
  with recompute_matches [OF assms(1), of e c] assms(2,3) have "recompute_envelope_checksum_from_row e d (dr_event_id r) = Inr c"
    by (simp add: no_faults_def)
  with assms(1) c show ?thesis by (simp add: verify_delivery_scan_envelope_def join_row_def Let_def)
qed

text \<open>Without failures, the scan succeeds when every delivery state loads and every envelope verifies.\<close>

lemma gate_scan_succeeds:
  assumes "no_faults e" "events_ok (env_sha e) d"
    and rows: "\<And>r. r \<in> set (db_deliveries d) \<Longrightarrow> fk_envelope d (dr_event_id r) \<and>
      (\<exists>s. load_delivery_state e d (dr_event_id r) = DeliveryFound s) \<and> in_i32 (dr_attempt_count r)"
  shows "\<exists>ps. scan_delivery_gate_states_db e limit d = ScanOk ps"
proof -
  let ?rows = "limit_rows limit (order_by sr_journal_sequence (map (join_row d) (db_deliveries d)))"
  have "\<exists>s p. load_delivery_state e d (sr_event_id row) = DeliveryFound s \<and> in_i32 (sr_attempt_count row) \<and>
    verify_delivery_scan_envelope e d row = Inr p" if "row \<in> set ?rows" for row
  proof -
    from that set_limit_rows [of limit "order_by sr_journal_sequence (map (join_row d) (db_deliveries d))"]
    obtain r where r: "r \<in> set (db_deliveries d)" "row = join_row d r" by auto
    from rows [OF r(1)] obtain en where en: "find_envelope d (dr_event_id r) = Some en" by (auto simp: fk_envelope_def)
    with assms(2) have "envelope_ok e en" by (auto simp: events_ok_def)
    from verify_scan_succeeds [OF en this assms(1)] rows [OF r(1)] show ?thesis by (simp add: r(2) join_row_def Let_def)
  qed
  from collect_rows_succeeds [OF assms(1) this, of ?rows "[]"] show ?thesis
    using assms(1) by (simp add: scan_delivery_gate_states_db_def run_scan_def collect_delivery_scan_def)
qed

lemma sample_scan: "\<exists>ps. scan_delivery_gate_states_db sample_env 100 sample_db = ScanOk ps"
proof (rule gate_scan_succeeds)
  show "events_ok (env_sha sample_env) sample_db"
    using new_rows_ok(1) [of sample_request _ sample_env] new_rows_ok(2) [of _ sample_env sample_request]
    by (auto simp: events_ok_def sample_db_def event_added_def empty_db_def sample_request_def in_i32_def i32_max_def
        split: if_splits)
  fix r
  assume "r \<in> set (db_deliveries sample_db)"
  then have r: "r = delivery_row_of sample_pending" by (simp add: sample_db_def)
  have "dr_event_id r = ''e1''" "dr_attempt_count r = 0"
    by (simp_all add: r delivery_row_of_def sample_pending_def stored_def pending_record_def)
  moreover have "fk_envelope sample_db ''e1''"
    by (simp add: fk_envelope_def sample_db_def event_added_def empty_db_def sample_request_def)
  ultimately show "fk_envelope sample_db (dr_event_id r) \<and>
      (\<exists>s. load_delivery_state sample_env sample_db (dr_event_id r) = DeliveryFound s) \<and> in_i32 (dr_attempt_count r)"
    using sample_delivery_loads by (simp add: in_i32_def i32_max_def)
qed simp

theorem gate_scan_complete_and_ordered_witness:
  "\<exists>ps. scan_delivery_gate_states_db sample_env 100 sample_db = ScanOk ps \<and> set (map pd_event_id ps) = {''e1''}"
proof -
  obtain ps where ps: "scan_delivery_gate_states_db sample_env 100 sample_db = ScanOk ps" using sample_scan ..
  have "map dr_event_id (db_deliveries sample_db) = [''e1'']"
    by (simp add: sample_db_def delivery_row_of_def sample_pending_def stored_def pending_record_def)
  moreover from this have "length (db_deliveries sample_db) = 1" by (metis length_map length_Cons list.size(3) One_nat_def)
  ultimately show ?thesis using gate_scan_complete_and_ordered [OF ps] ps by auto
qed

end
