(* ===== verification/Journal_Schema.thy ===== *)
theory Journal_Schema
  imports Journal_Scan
begin

text \<open>
  Opening a journal: \<^verbatim>\<open>LocalJournal::open\<close>, \<^verbatim>\<open>init_schema\<close>, \<^verbatim>\<open>apply_pragmas\<close> and \<^verbatim>\<open>schema_version\<close>. A
  database file holds its persistent journal mode, the tables that exist, the version entry of \<^verbatim>\<open>journal_meta\<close> and
  the rows. \<^verbatim>\<open>CREATE TABLE IF NOT EXISTS\<close> keeps the rows of a table that exists; a batch of statements stops at
  the first one that fails and keeps the effect of those before it.
\<close>

record db_file =
  df_journal_mode :: string
  df_tables :: "string list"
  df_version :: "string option"
  df_db :: db

definition new_file :: db_file where
  "new_file = \<lparr>df_journal_mode = ''delete'', df_tables = [], df_version = None, df_db = empty_db\<rparr>"

text \<open>\<^verbatim>\<open>str::parse::<i64>\<close>: an optional sign, then decimal digits, within range.\<close>

definition parse_digits :: "string \<Rightarrow> nat option" where
  "parse_digits s = (if s \<noteq> [] \<and> list_all is_ascii_digit s then Some (read_nat s) else None)"

definition parse_i64 :: "string \<Rightarrow> i64 option" where
  "parse_i64 s =
     (let signed = (\<lambda>f ds. case parse_digits ds of
         None \<Rightarrow> None | Some n \<Rightarrow> let i = f (int n) in if in_i64 i then Some i else None) in
      case s of
        [] \<Rightarrow> None
      | c # cs \<Rightarrow>
          if c = CHR ''-'' then signed uminus cs
          else if c = CHR ''+'' then signed id cs
          else signed id s)"

text \<open>
  The pragmas, in order. Each is \<^verbatim>\<open>expect\<close>ed: a failure panics. The first one persists in the file; the others are
  settings of the connection (the foreign keys of the model are enforced because of the last one).
\<close>

definition pragma_statements :: "journal_config \<Rightarrow> string list" where
  "pragma_statements config =
     [''PRAGMA journal_mode = WAL;'', ''PRAGMA synchronous = FULL;'',
      ''PRAGMA busy_timeout = '' @ show_nat (jc_busy_timeout_ms config) @ '';'',
      ''PRAGMA wal_autocheckpoint = '' @ show_nat (jc_wal_autocheckpoint config) @ '';'',
      ''PRAGMA foreign_keys = ON;'']"

fun run_pragmas :: "env \<Rightarrow> string list \<Rightarrow> db_file \<Rightarrow> unit outcome \<times> db_file" where
  "run_pragmas e [] f = (Done (), f)"
| "run_pragmas e (s # ss) f =
     (if env_fault e (SqlPragma s) \<noteq> None then (Panicked, f)
      else run_pragmas e ss (if s = ''PRAGMA journal_mode = WAL;'' then f\<lparr>df_journal_mode := ''wal''\<rparr> else f))"

definition apply_pragmas :: "env \<Rightarrow> journal_config \<Rightarrow> db_file \<Rightarrow> unit outcome \<times> db_file" where
  "apply_pragmas e config f = run_pragmas e (pragma_statements config) f"

text \<open>The tables of the three batches, in the order of their \<^verbatim>\<open>CREATE\<close> statements.\<close>

definition schema_tables :: "string list" where
  "schema_tables = [''stored_envelope'', ''payload_blob'', ''lifecycle_state'', ''dedup_fingerprint'', ''producer_sequence'',
     ''stream_head'', ''write_attempt'']"

definition schema_v2_tables :: "string list" where
  "schema_v2_tables = [''delivery_state'', ''delivery_attempt'']"

fun create_tables :: "env \<Rightarrow> string list \<Rightarrow> db_file \<Rightarrow> (string + unit) \<times> db_file" where
  "create_tables e [] f = (Inr (), f)"
| "create_tables e (t # ts) f =
     (case sql e (SqlCreate t) () of
        Inl m \<Rightarrow> (Inl m, f)
      | Inr _ \<Rightarrow> create_tables e ts (f\<lparr>df_tables := List.insert t (df_tables f)\<rparr>))"

text \<open>The part of \<^verbatim>\<open>init_schema\<close> after the check of the version.\<close>

definition upgrade_schema :: "env \<Rightarrow> i64 \<Rightarrow> db_file \<Rightarrow> (string + unit) \<times> db_file" where
  "upgrade_schema e existing_ver f =
     (case create_tables e schema_tables f of
        (Inl m, f1) \<Rightarrow> (Inl m, f1)
      | (Inr _, f1) \<Rightarrow>
          (case (if existing_ver < 2 then create_tables e schema_v2_tables f1 else (Inr (), f1)) of
             (Inl m, f2) \<Rightarrow> (Inl m, f2)
           | (Inr _, f2) \<Rightarrow>
               (case sql e SqlMetaWrite () of
                  Inl m \<Rightarrow> (Inl m, f2)
                | Inr _ \<Rightarrow> (Inr (), f2\<lparr>df_version := Some (show_int SCHEMA_VERSION)\<rparr>))))"

definition check_version :: "env \<Rightarrow> db_file \<Rightarrow> (string + unit) \<times> db_file" where
  "check_version e f =
     (case sql e SqlMetaQuery (df_version f) of
        Inl m \<Rightarrow> (Inl m, f)
      | Inr None \<Rightarrow> upgrade_schema e 0 f
      | Inr (Some v) \<Rightarrow>
          (case parse_i64 v of
             None \<Rightarrow> (Inl ''corrupt schema version'', f)
           | Some ver \<Rightarrow>
               if ver > SCHEMA_VERSION
               then (Inl (''unknown future schema version '' @ show_int ver @
                 '', max supported is '' @ show_int SCHEMA_VERSION), f)
               else upgrade_schema e ver f))"

definition init_schema :: "env \<Rightarrow> journal_config \<Rightarrow> db_file \<Rightarrow> (string + unit) outcome \<times> db_file" where
  "init_schema e config f0 =
     (case apply_pragmas e config f0 of
        (Panicked, f1) \<Rightarrow> (Panicked, f1)
      | (Done _, f1) \<Rightarrow>
          (case create_tables e [''journal_meta''] f1 of
             (Inl m, f2) \<Rightarrow> (Done (Inl m), f2)
           | (Inr _, f2) \<Rightarrow> apfst Done (check_version e f2)))"

text \<open>\<^verbatim>\<open>open\<close> and \<^verbatim>\<open>open_in_memory\<close>: connect, then initialise; the journal works on the file's tables.\<close>

definition open_journal :: "env \<Rightarrow> journal_config \<Rightarrow> db_file \<Rightarrow> (string + local_journal) outcome \<times> db_file" where
  "open_journal e config f =
     (case sql e SqlOpen () of
        Inl m \<Rightarrow> (Done (Inl m), f)
      | Inr _ \<Rightarrow>
          (case init_schema e config f of
             (Panicked, f') \<Rightarrow> (Panicked, f')
           | (Done (Inl m), f') \<Rightarrow> (Done (Inl m), f')
           | (Done (Inr _), f') \<Rightarrow>
               (Done (Inr \<lparr>lj_db = df_db f', lj_config = config, lj_poisoned = False, lj_shutdown = False\<rparr>), f')))"

definition open_in_memory :: "env \<Rightarrow> journal_config \<Rightarrow> (string + local_journal) outcome" where
  "open_in_memory e config = fst (open_journal e config new_file)"

text \<open>\<open>version\<close> is the version entry of the journal's file; a failed query and an entry that is no number read as 0.\<close>

definition schema_version :: "env \<Rightarrow> string option \<Rightarrow> local_journal \<Rightarrow> i64 outcome \<times> local_journal" where
  "schema_version e version = with_conn (\<lambda>d.
     (Done (case sql e SqlMetaQuery version of
        Inr (Some v) \<Rightarrow> (case parse_i64 v of None \<Rightarrow> 0 | Some n \<Rightarrow> n)
      | _ \<Rightarrow> 0), d))"

text \<open>\<open>mode\<close> is what SQLite answers to the query; a failed query reads as the empty text.\<close>

definition journal_mode :: "env \<Rightarrow> string \<Rightarrow> local_journal \<Rightarrow> string outcome \<times> local_journal" where
  "journal_mode e mode = with_conn (\<lambda>d.
     (Done (case sql e (SqlPragma ''PRAGMA journal_mode;'') mode of Inl _ \<Rightarrow> [] | Inr m \<Rightarrow> m), d))"

definition is_shutdown :: "local_journal \<Rightarrow> bool" where
  "is_shutdown j = lj_shutdown j"

subsection \<open>Properties\<close>

lemma run_pragmas_effect:
  assumes "run_pragmas e ss f = (r, f')"
  shows "df_tables f' = df_tables f \<and> df_version f' = df_version f \<and> df_db f' = df_db f \<and>
    (r = Done () \<longrightarrow> list_all (\<lambda>s. env_fault e (SqlPragma s) = None) ss \<and>
      (''PRAGMA journal_mode = WAL;'' \<in> set ss \<or> df_journal_mode f = ''wal'' \<longrightarrow> df_journal_mode f' = ''wal''))"
  using assms by (induction e ss f rule: run_pragmas.induct) (auto split: if_splits)

lemma create_tables_effect:
  assumes "create_tables e ts f = (r, f')"
  shows "set (df_tables f) \<subseteq> set (df_tables f') \<and> set (df_tables f') \<subseteq> set (df_tables f) \<union> set ts \<and>
    df_journal_mode f' = df_journal_mode f \<and> df_version f' = df_version f \<and> df_db f' = df_db f \<and>
    (r = Inr () \<longrightarrow> set ts \<subseteq> set (df_tables f'))"
  using assms by (induction e ts f rule: create_tables.induct) (fastforce simp: sql_def split: option.splits)+

lemma run_pragmas_ok: "no_faults e \<Longrightarrow> fst (run_pragmas e ss f) = Done ()"
  by (induction e ss f rule: run_pragmas.induct) (auto simp: no_faults_def)

lemma create_tables_ok: "no_faults e \<Longrightarrow> fst (create_tables e ts f) = Inr ()"
  by (induction e ts f rule: create_tables.induct) auto

lemma upgrade_schema_effect:
  assumes "upgrade_schema e ver f = (r, f')"
  shows "set (df_tables f) \<subseteq> set (df_tables f')" "df_db f' = df_db f" "df_journal_mode f' = df_journal_mode f"
    "r = Inr () \<Longrightarrow> set schema_tables \<subseteq> set (df_tables f') \<and> (ver < 2 \<longrightarrow> set schema_v2_tables \<subseteq> set (df_tables f')) \<and>
      df_version f' = Some (show_int SCHEMA_VERSION)"
    "r \<noteq> Inr () \<Longrightarrow> df_version f' = df_version f"
proof -
  obtain r1 f1 where 1: "create_tables e schema_tables f = (r1, f1)" by fastforce
  obtain r2 f2 where 2: "(if ver < 2 then create_tables e schema_v2_tables f1 else (Inr (), f1)) = (r2, f2)" by fastforce
  note e1 = create_tables_effect [OF 1]
  have e2: "set (df_tables f1) \<subseteq> set (df_tables f2)" "df_journal_mode f2 = df_journal_mode f1" "df_version f2 = df_version f1"
    "df_db f2 = df_db f1" "r2 = Inr () \<and> ver < 2 \<longrightarrow> set schema_v2_tables \<subseteq> set (df_tables f2)"
    using 2 create_tables_effect [of e schema_v2_tables f1 r2 f2] by (auto split: if_splits)
  from assms 1 2 consider "f' = f1" "r \<noteq> Inr ()" | "f' = f2" "r \<noteq> Inr ()" 
    | "r1 = Inr ()" "r2 = Inr ()" "f' = f2\<lparr>df_version := Some (show_int SCHEMA_VERSION)\<rparr>" "r = Inr ()"
    unfolding upgrade_schema_def by (cases r1; cases r2) (auto simp: sql_def split: option.splits)
  note cases = this
  show "set (df_tables f) \<subseteq> set (df_tables f')" by (rule cases) (use e1 e2 in auto)
  show "df_db f' = df_db f" by (rule cases) (use e1 e2 in auto)
  show "df_journal_mode f' = df_journal_mode f" by (rule cases) (use e1 e2 in auto)
  show "df_version f' = df_version f" if "r \<noteq> Inr ()" by (rule cases) (use e1 e2 that in auto)
  show "set schema_tables \<subseteq> set (df_tables f') \<and> (ver < 2 \<longrightarrow> set schema_v2_tables \<subseteq> set (df_tables f')) \<and>
      df_version f' = Some (show_int SCHEMA_VERSION)" if "r = Inr ()" by (rule cases) (use e1 e2 that in auto)
qed

lemma upgrade_schema_ok: "no_faults e \<Longrightarrow> fst (upgrade_schema e ver f) = Inr ()"
  using create_tables_ok [of e] by (auto simp: upgrade_schema_def split: prod.splits sum.splits) (metis fst_conv sum.distinct(1))+

lemma parse_digits_show: "parse_digits (show_nat n) = Some n"
proof -
  have "is_ascii_digit c" if "c \<in> set (show_nat n)" for c
    using show_nat_digits [OF that] by (auto simp: is_ascii_digit_def of_char_digit_char)
  moreover have "show_nat n \<noteq> []" by (simp add: show_nat.simps [of n])
  ultimately show ?thesis by (simp add: parse_digits_def list_all_iff read_show_nat)
qed

text \<open>Reading back a written number, the round trip behind the version entry.\<close>

lemma parse_show_int: "in_i64 i \<Longrightarrow> parse_i64 (show_int i) = Some i"
proof -
  have hd: "hd (show_nat n) \<noteq> CHR ''-'' \<and> hd (show_nat n) \<noteq> CHR ''+'' \<and> show_nat n \<noteq> []" for n
  proof -
    have "show_nat n \<noteq> []" by (simp add: show_nat.simps [of n])
    then obtain k where k: "k < 10" "hd (show_nat n) = digit_char k" using show_nat_digits hd_in_set by blast
    then have "(of_char (hd (show_nat n)) :: nat) = 48 + k" by (simp add: of_char_digit_char)
    then have "hd (show_nat n) \<noteq> CHR ''-''" "hd (show_nat n) \<noteq> CHR ''+''" by auto
    with \<open>show_nat n \<noteq> []\<close> show ?thesis by simp
  qed
  assume "in_i64 i"
  with hd [of "nat i"] parse_digits_show [of "nat i"] parse_digits_show [of "nat (- i)"] show ?thesis
    by (cases "show_nat (nat i)") (auto simp: parse_i64_def show_int_def Let_def)
qed

text \<open>The version a file declares: none (0), a number, or no number at all.\<close>

definition declared_version :: "db_file \<Rightarrow> i64 option" where
  "declared_version f = (case df_version f of None \<Rightarrow> Some 0 | Some t \<Rightarrow> parse_i64 t)"

lemma check_version_cases:
  assumes "check_version e f = (x, f')"
  obtains (stop) "f' = f" "x \<noteq> Inr ()" "env_fault e SqlMetaQuery \<noteq> None \<or> (\<forall>ver. declared_version f = Some ver \<longrightarrow> ver > SCHEMA_VERSION)"
  | (upgrade) ver where "declared_version f = Some ver" "ver \<le> SCHEMA_VERSION" "upgrade_schema e ver f = (x, f')"
proof (cases "env_fault e SqlMetaQuery")
  case None
  show ?thesis
  proof (cases "df_version f")
    case v: None
    with None assms show ?thesis by (intro upgrade [of 0]) (simp_all add: check_version_def sql_def declared_version_def SCHEMA_VERSION_def)
  next
    case (Some v)
    with None assms show ?thesis
      by (cases "parse_i64 v") (auto simp: check_version_def sql_def declared_version_def intro: stop upgrade split: if_splits)
  qed
qed (use assms in \<open>auto simp: check_version_def sql_def intro: stop\<close>)

lemma init_schema_cases:
  assumes "init_schema e config f = (r, f')"
  obtains (stop) "set (df_tables f) \<subseteq> set (df_tables f')" "set (df_tables f') \<subseteq> insert ''journal_meta'' (set (df_tables f))"
      "df_version f' = df_version f" "df_db f' = df_db f" "r \<noteq> Done (Inr ())"
      "no_faults e \<Longrightarrow> (\<forall>ver. declared_version f = Some ver \<longrightarrow> ver > SCHEMA_VERSION) \<and> (\<exists>m. r = Done (Inl m))"
  | (upgrade) f1 ver x where "set (df_tables f) \<subseteq> set (df_tables f1)" "df_version f1 = df_version f" "df_db f1 = df_db f"
      "df_journal_mode f1 = ''wal''" "declared_version f = Some ver" "ver \<le> SCHEMA_VERSION"
      "upgrade_schema e ver f1 = (x, f')" "r = Done x"
proof -
  obtain r1 f1 where 1: "apply_pragmas e config f = (r1, f1)" by fastforce
  obtain r2 f2 where 2: "create_tables e [''journal_meta''] f1 = (r2, f2)" by fastforce
  note e1 = run_pragmas_effect [OF 1 [unfolded apply_pragmas_def]] and e2 = create_tables_effect [OF 2]
  show ?thesis
  proof (cases "r1 = Done () \<and> r2 = Inr ()")
    case True
    obtain x where x: "check_version e f2 = (x, f')" "r = Done x"
      using assms 1 2 True by (cases "check_version e f2") (auto simp: init_schema_def)
    have same: "declared_version f2 = declared_version f" using e1 e2 by (simp add: declared_version_def)
    have wal: "df_journal_mode f1 = ''wal''" using e1 True by (simp add: pragma_statements_def)
    from x(1) show ?thesis
    proof (cases rule: check_version_cases)
      case stop: stop
      then obtain m where "x = Inl m" by (cases x) auto
      with stop show ?thesis using e1 e2 x(2) same by (intro that(1)) (auto simp: no_faults_def)
    next
      case (upgrade ver)
      then show ?thesis using e1 e2 x(2) same wal by (intro that(2) [of f2 ver x]) auto
    qed
  next
    case False
    have "no_faults e \<Longrightarrow> r1 = Done () \<and> r2 = Inr ()" using run_pragmas_ok 1 2 create_tables_ok by (metis apply_pragmas_def fst_conv)
    moreover have "(f' = f1 \<or> f' = f2) \<and> r \<noteq> Done (Inr ())"
      using assms 1 2 False by (cases r1; cases r2) (auto simp: init_schema_def)
    ultimately show ?thesis using e1 e2 False by (intro that(1)) auto
  qed
qed



end
