(* ===== verification/Kafka_Service.thy ===== *)
theory Kafka_Service
  imports Kafka_Policy Journal_Schema
begin

text \<open>
  The delivery service of \<^verbatim>\<open>craftrelay-kafka-delivery\<close> (\<^verbatim>\<open>service.rs\<close>): it reads a delivery candidate
  from the journal, asks the ordering gate, checks routing and profile, reads the payload, sends it
  and records the outcome in the journal and in the gate.

  The producer is a trait object. An attempt gets the answer of its \<^verbatim>\<open>send\<close> as a function of the
  request (\<open>at_send\<close>), and \<open>sv_sent\<close> records every request handed to it, in order. Each journal call
  of an attempt has an environment of its own, so any pattern of engine failures is covered. The
  service borrows the journal, whose methods lock it for one call only: between two calls of an attempt
  other users may change it (\<open>at_other\<close>).
\<close>

subsection \<open>Outcomes and state\<close>

datatype delivery_outcome =
    OutReplicated i32 i64
  | OutRetrying i64
  | OutBlocked string
  | OutGateHeld i64
  | OutError string

record delivery_service =
  sv_journal :: local_journal
  sv_gate :: ordering_gate
  sv_profile :: kafka_production_profile
  sv_shutdown :: bool
  sv_sent :: "send_request list"

text \<open>The journal calls of an attempt, and what the outside world contributes to one attempt.\<close>

datatype service_call = CallCandidate | CallPayload | CallConfirm | CallRecord | CallRetry | CallBlock

record attempt_env =
  at_env :: "service_call \<Rightarrow> env"
  at_other :: "service_call \<Rightarrow> local_journal \<Rightarrow> local_journal"
  at_sha :: "bytes \<Rightarrow> checksum"
  at_send :: "send_request \<Rightarrow> send_error + send_success"
  at_now_ms :: i64
  at_checks :: bool

definition new_service :: "local_journal \<Rightarrow> kafka_production_profile \<Rightarrow> delivery_service" where
  "new_service journal profile =
     \<lparr>sv_journal = journal, sv_gate = new_gate, sv_profile = profile, sv_shutdown = False, sv_sent = []\<rparr>"

definition service_shutdown :: "delivery_service \<Rightarrow> delivery_service" where
  "service_shutdown sv = sv\<lparr>sv_shutdown := True\<rparr>"

definition service_is_shutdown :: "delivery_service \<Rightarrow> bool" where
  "service_is_shutdown sv = sv_shutdown sv"

definition service_gate :: "delivery_service \<Rightarrow> ordering_gate" where
  "service_gate sv = sv_gate sv"

subsection \<open>Recovery\<close>

definition recovered_state :: "pending_delivery \<Rightarrow> recovered_stream_state" where
  "recovered_state p =
     \<lparr>rs_stream_key = pd_stream_key p, rs_stream_sequence = pd_stream_sequence p,
      rs_replicated = (pd_delivery_status p = ''REPLICATED''),
      rs_blocking = (pd_delivery_status p \<noteq> ''REPLICATED''), rs_in_flight = False\<rparr>"

definition recover :: "env \<Rightarrow> delivery_service \<Rightarrow> (string + unit) outcome \<times> delivery_service" where
  "recover e sv =
     (case scan_delivery_gate_states e 10000 (sv_journal sv) of
        (Panicked, j) \<Rightarrow> (Panicked, sv\<lparr>sv_journal := j\<rparr>)
      | (Done (ScanCorrupted event_id detail), j) \<Rightarrow>
          (Done (Inl (''delivery gate recovery scan corrupted event_id='' @ debug_option debug_str event_id @ '': '' @ detail)),
           sv\<lparr>sv_journal := j\<rparr>)
      | (Done (ScanError m), j) \<Rightarrow> (Done (Inl (''delivery gate recovery scan failed: '' @ m)), sv\<lparr>sv_journal := j\<rparr>)
      | (Done (ScanOk persisted), j) \<Rightarrow>
          (Done (Inr ()), sv\<lparr>sv_journal := j, sv_gate := recover_from_scan (map recovered_state persisted) (sv_gate sv)\<rparr>))"

subsection \<open>Debug text\<close>

fun debug_cas_result :: "cas_result \<Rightarrow> string" where
  "debug_cas_result Updated = ''Updated''"
| "debug_cas_result AlreadyConfirmed = ''AlreadyConfirmed''"
| "debug_cas_result StaleRevision = ''StaleRevision''"
| "debug_cas_result CasNotFound = ''NotFound''"
| "debug_cas_result InvalidTransition = ''InvalidTransition''"
| "debug_cas_result (CasCorrupted event_id detail) =
     ''Corrupted { event_id: '' @ debug_str event_id @ '', detail: '' @ debug_str detail @ '' }''"
| "debug_cas_result (CasError m) = ''Error('' @ debug_str m @ '')''"

fun debug_profile_error :: "profile_validation_error \<Rightarrow> string" where
  "debug_profile_error UnknownProfile = ''UnknownProfile''"
| "debug_profile_error InvalidRf = ''InvalidRf''"
| "debug_profile_error InvalidMinIsr = ''InvalidMinIsr''"
| "debug_profile_error InvalidAcks = ''InvalidAcks''"
| "debug_profile_error WeakenedDurability = ''WeakenedDurability''"

fun debug_extended_error :: "extended_profile_validation_error \<Rightarrow> string" where
  "debug_extended_error (Base e) = ''Base('' @ debug_profile_error e @ '')''"
| "debug_extended_error IdempotenceRequired = ''IdempotenceRequired''"
| "debug_extended_error InvalidCleanupPolicy = ''InvalidCleanupPolicy''"
| "debug_extended_error UncleanElectionForbidden = ''UncleanElectionForbidden''"
| "debug_extended_error InvalidDeliveryTimeout = ''InvalidDeliveryTimeout''"
| "debug_extended_error InvalidRequestTimeout = ''InvalidRequestTimeout''"
| "debug_extended_error InvalidLingerMs = ''InvalidLingerMs''"
| "debug_extended_error InvalidMaxInFlight = ''InvalidMaxInFlight''"
| "debug_extended_error InvalidCompression = ''InvalidCompression''"
| "debug_extended_error InvalidRetentionMs = ''InvalidRetentionMs''"
| "debug_extended_error InvalidRetentionBytes = ''InvalidRetentionBytes''"
| "debug_extended_error TopicDeletionForbidden = ''TopicDeletionForbidden''"

subsection \<open>Sequencing\<close>

type_synonym attempt_result = "delivery_outcome outcome \<times> delivery_service"

text \<open>A journal call inside an attempt; a panic of the call is a panic of the attempt.\<close>

definition journal_call ::
    "(local_journal \<Rightarrow> 'a outcome \<times> local_journal) \<Rightarrow> delivery_service \<Rightarrow> ('a \<Rightarrow> delivery_service \<Rightarrow> attempt_result) \<Rightarrow> attempt_result" where
  "journal_call f sv k =
     (case f (sv_journal sv) of
        (Panicked, j) \<Rightarrow> (Panicked, sv\<lparr>sv_journal := j\<rparr>)
      | (Done a, j) \<Rightarrow> k a (sv\<lparr>sv_journal := j\<rparr>))"

text \<open>What other users of the journal did since the call before; the first call needs no such step.\<close>

definition meanwhile :: "attempt_env \<Rightarrow> service_call \<Rightarrow> delivery_service \<Rightarrow> delivery_service" where
  "meanwhile a call sv = sv\<lparr>sv_journal := at_other a call (sv_journal sv)\<rparr>"

text \<open>An addition inside an attempt, and an answer that also marks the gate.\<close>

definition arith_call :: "'a outcome \<Rightarrow> delivery_service \<Rightarrow> ('a \<Rightarrow> attempt_result) \<Rightarrow> attempt_result" where
  "arith_call x sv k = (case x of Panicked \<Rightarrow> (Panicked, sv) | Done a \<Rightarrow> k a)"

definition answer :: "delivery_outcome \<Rightarrow> (ordering_gate \<Rightarrow> ordering_gate) \<Rightarrow> delivery_service \<Rightarrow> attempt_result" where
  "answer out mark sv = (Done out, sv\<lparr>sv_gate := mark (sv_gate sv)\<rparr>)"

subsection \<open>One attempt\<close>

definition persist_block_before_send ::
    "attempt_env \<Rightarrow> string \<Rightarrow> string \<Rightarrow> i64 \<Rightarrow> i64 \<Rightarrow> string \<Rightarrow> delivery_service \<Rightarrow> attempt_result" where
  "persist_block_before_send a event_id stream_key stream_sequence delivery_revision reason sv =
     journal_call (block_delivery (at_env a CallBlock) event_id delivery_revision reason) (meanwhile a CallBlock sv) (\<lambda>r sv.
       if r = Updated then answer (OutBlocked reason) (mark_blocking stream_key stream_sequence) sv
       else (Done (OutError (''delivery block persistence failed: '' @ debug_cas_result r)), sv))"

definition routing_input_of :: "delivery_candidate \<Rightarrow> routing_input" where
  "routing_input_of c = \<lparr>ri_installation_id = dc_installation_id c, ri_namespace = dc_namespace c,
     ri_logical_stream_type = dc_logical_stream_type c, ri_stream_key = dc_stream_key c,
     ri_event_type = dc_event_type c, ri_routing_version = dc_routing_version c\<rparr>"

text \<open>The checks before a send: the reason for a block, or the routing to send with.\<close>

definition pre_send_checks ::
    "(bytes \<Rightarrow> checksum) \<Rightarrow> kafka_production_profile \<Rightarrow> delivery_candidate \<Rightarrow> string + routing_resolution" where
  "pre_send_checks sha profile c =
     (let state = dc_delivery_state c in
      case resolve_routing sha (routing_input_of c) of
        Inl e \<Rightarrow> Inl (''routing error: '' @ debug_routing_error e)
      | Inr routing \<Rightarrow>
          if ds_routing_fingerprint state \<noteq> Some (rr_routing_checksum routing) then Inl ''routing fingerprint mismatch''
          else if ds_profile_id state \<noteq> Some (kp_profile_id profile) then Inl ''profile ID mismatch''
          else if ds_profile_version state \<noteq> Some (kp_profile_version profile) then Inl ''profile version mismatch''
          else if ds_kafka_topic state \<noteq> Some (rr_topic routing) then Inl ''routing topic mismatch''
          else case is_profile_safe_for_delivery profile of
              Inl e \<Rightarrow> Inl (''unsafe Kafka production profile: '' @ debug_extended_error e)
            | Inr _ \<Rightarrow> Inr routing)"

definition send_request_of ::
    "string \<Rightarrow> kafka_production_profile \<Rightarrow> routing_resolution \<Rightarrow> bytes \<Rightarrow> send_request" where
  "send_request_of event_id profile routing payload =
     \<lparr>sq_event_id = event_id, sq_topic = rr_topic routing, sq_partition_key = rr_partition_key routing,
      sq_payload = payload,
      sq_headers = [(''routing_version'', show_int (rr_routing_version routing)), (''profile_id'', kp_profile_id profile)]\<rparr>"

text \<open>The producer acknowledged: confirm, then complete the gate.\<close>

definition confirmation_of ::
    "kafka_production_profile \<Rightarrow> routing_resolution \<Rightarrow> send_success \<Rightarrow> replicated_delivery_confirmation" where
  "confirmation_of profile routing success =
     \<lparr>rc_expected_routing_fingerprint = rr_routing_checksum routing, rc_expected_profile_id = kp_profile_id profile,
      rc_expected_profile_version = kp_profile_version profile, rc_kafka_topic = ss_topic success,
      rc_kafka_partition = ss_partition success, rc_kafka_offset = ss_offset success\<rparr>"

definition handle_success ::
    "attempt_env \<Rightarrow> string \<Rightarrow> delivery_candidate \<Rightarrow> routing_resolution \<Rightarrow> send_success \<Rightarrow> delivery_service \<Rightarrow> attempt_result" where
  "handle_success a event_id c routing success sv =
     journal_call (confirm_replicated_delivery (at_env a CallConfirm) event_id
         (ds_delivery_revision (dc_delivery_state c)) (confirmation_of (sv_profile sv) routing success))
         (meanwhile a CallConfirm sv) (\<lambda>r sv.
       if r = Updated \<or> r = AlreadyConfirmed
       then answer (OutReplicated (ss_partition success) (ss_offset success))
         (mark_completed (dc_stream_key c) (dc_stream_sequence c)) sv
       else answer (OutError (''journal confirm failed: '' @ debug_cas_result r))
         (mark_blocking (dc_stream_key c) (dc_stream_sequence c)) sv)"

text \<open>The producer failed: record the attempt, then schedule a retry or block the delivery.\<close>

definition attempt_record ::
    "attempt_env \<Rightarrow> string \<Rightarrow> kafka_production_profile \<Rightarrow> routing_resolution \<Rightarrow> send_error \<Rightarrow> i32 \<Rightarrow> delivery_attempt_record" where
  "attempt_record a event_id profile routing send_err attempt_number =
     \<lparr>da_event_id = event_id, da_attempt_number = attempt_number,
      da_outcome = (if is_permanent send_err then ''PERMANENT_FAILURE'' else ''TRANSIENT_FAILURE''),
      da_error_code = Some (debug_send_error send_err), da_kafka_topic = Some (rr_topic routing),
      da_kafka_partition = None, da_kafka_offset = None, da_profile_id = Some (kp_profile_id profile),
      da_profile_version = Some (kp_profile_version profile), da_attempted_at_ms = at_now_ms a\<rparr>"

definition block_after_failure ::
    "attempt_env \<Rightarrow> string \<Rightarrow> delivery_candidate \<Rightarrow> string \<Rightarrow> delivery_service \<Rightarrow> attempt_result" where
  "block_after_failure a event_id c reason sv =
     persist_block_before_send a event_id (dc_stream_key c) (dc_stream_sequence c)
       (ds_delivery_revision (dc_delivery_state c)) reason sv"

definition schedule_retry ::
    "attempt_env \<Rightarrow> string \<Rightarrow> delivery_candidate \<Rightarrow> retry_decision \<Rightarrow> delivery_service \<Rightarrow> attempt_result" where
  "schedule_retry a event_id c decision sv =
     (case decision of
        Retry_at next_retry_at_ms \<Rightarrow>
          journal_call (update_delivery_retry (at_env a CallRetry) event_id
              (ds_delivery_revision (dc_delivery_state c)) next_retry_at_ms) (meanwhile a CallRetry sv) (\<lambda>r sv.
            if r = Updated
            then answer (OutRetrying next_retry_at_ms) (mark_blocking (dc_stream_key c) (dc_stream_sequence c)) sv
            else (Done (OutError (''delivery retry persistence failed: '' @ debug_cas_result r)), sv))
      | Exhausted \<Rightarrow> block_after_failure a event_id c ''retry exhausted'' sv)"

definition handle_failure ::
    "attempt_env \<Rightarrow> string \<Rightarrow> delivery_candidate \<Rightarrow> routing_resolution \<Rightarrow> send_error \<Rightarrow> delivery_service \<Rightarrow> attempt_result" where
  "handle_failure a event_id c routing send_err sv =
     arith_call (arith_i32 (at_checks a) (ds_attempt_count (dc_delivery_state c) + 1)) sv (\<lambda>attempt_number.
     journal_call (record_delivery_attempt (at_env a CallRecord)
         (attempt_record a event_id (sv_profile sv) routing send_err attempt_number)) (meanwhile a CallRecord sv) (\<lambda>r sv.
       if r \<noteq> Updated then (Done (OutError (''delivery attempt persistence failed: '' @ debug_cas_result r)), sv)
       else if should_retry send_err attempt_number
       then arith_call (compute_next_retry (at_checks a) attempt_number (at_now_ms a)) sv
         (\<lambda>decision. schedule_retry a event_id c decision sv)
       else block_after_failure a event_id c (''permanent failure: '' @ debug_send_error send_err) sv))"

definition send_stage ::
    "attempt_env \<Rightarrow> string \<Rightarrow> delivery_candidate \<Rightarrow> routing_resolution \<Rightarrow> bytes \<Rightarrow> delivery_service \<Rightarrow> attempt_result" where
  "send_stage a event_id c routing payload sv =
     (let request = send_request_of event_id (sv_profile sv) routing payload;
          sv1 = sv\<lparr>sv_gate := mark_in_flight (dc_stream_key c) (dc_stream_sequence c) (sv_gate sv),
                   sv_sent := sv_sent sv @ [request]\<rparr> in
      case at_send a request of
        Inr success \<Rightarrow> handle_success a event_id c routing success sv1
      | Inl send_err \<Rightarrow> handle_failure a event_id c routing send_err sv1)"

text \<open>Reading the payload; every failure of the read blocks the stream in the gate.\<close>

definition payload_stage ::
    "attempt_env \<Rightarrow> string \<Rightarrow> delivery_candidate \<Rightarrow> routing_resolution \<Rightarrow> delivery_service \<Rightarrow> attempt_result" where
  "payload_stage a event_id c routing sv =
     (let mark = mark_blocking (dc_stream_key c) (dc_stream_sequence c) in
      journal_call (read_verified_payload (at_env a CallPayload) event_id) (meanwhile a CallPayload sv) (\<lambda>r sv.
        case r of
          PayloadFound payload \<Rightarrow> send_stage a event_id c routing payload sv
        | PayloadNotFound \<Rightarrow> answer (OutError ''stored payload not found'') mark sv
        | PayloadCorrupted _ detail \<Rightarrow> answer (OutError (''stored payload corrupted: '' @ detail)) mark sv
        | PayloadError e \<Rightarrow> answer (OutError (''stored payload read failed: '' @ e)) mark sv))"

text \<open>What follows once the gate has allowed the sequence.\<close>

definition allowed_stage :: "attempt_env \<Rightarrow> string \<Rightarrow> delivery_candidate \<Rightarrow> delivery_service \<Rightarrow> attempt_result" where
  "allowed_stage a event_id c sv =
     (let state = dc_delivery_state c; k = dc_stream_key c; s = dc_stream_sequence c in
      if ds_delivery_status state = ''REPLICATED'' then
        (case (ds_kafka_partition state, ds_kafka_offset state) of
           (Some kafka_partition, Some kafka_offset) \<Rightarrow>
             answer (OutReplicated kafka_partition kafka_offset) (mark_completed k s) sv
         | _ \<Rightarrow> (Done (OutError ''replicated delivery missing Kafka confirmation metadata''), sv))
      else if ds_delivery_status state = ''DELIVERY_BLOCKED'' then
        answer (OutBlocked (case ds_blocked_reason state of Some reason \<Rightarrow> reason | None \<Rightarrow> ''delivery blocked''))
          (mark_blocking k s) sv
      else case pre_send_checks (at_sha a) (sv_profile sv) c of
          Inl reason \<Rightarrow> persist_block_before_send a event_id k s (ds_delivery_revision state) reason sv
        | Inr routing \<Rightarrow> payload_stage a event_id c routing sv)"

definition gate_stage :: "attempt_env \<Rightarrow> string \<Rightarrow> delivery_candidate \<Rightarrow> delivery_service \<Rightarrow> attempt_result" where
  "gate_stage a event_id c sv =
     arith_call (gate_check (at_checks a) (sv_gate sv) (dc_stream_key c) (dc_stream_sequence c)) sv (\<lambda>decision.
       case decision of
         GateBlocked waiting_for_sequence \<Rightarrow> (Done (OutGateHeld waiting_for_sequence), sv)
       | GateAllowed \<Rightarrow> allowed_stage a event_id c sv)"

definition attempt_delivery :: "attempt_env \<Rightarrow> string \<Rightarrow> delivery_service \<Rightarrow> attempt_result" where
  "attempt_delivery a event_id sv =
     (if sv_shutdown sv then (Done (OutError ''delivery service is shut down''), sv)
      else journal_call (get_delivery_candidate (at_env a CallCandidate) event_id) sv (\<lambda>r sv.
        case r of
          CandidateFound candidate \<Rightarrow> gate_stage a event_id candidate sv
        | CandidateNotFound \<Rightarrow> (Done (OutError ''delivery candidate not found''), sv)
        | CandidateCorrupted _ detail \<Rightarrow> (Done (OutError (''delivery candidate corrupted: '' @ detail)), sv)
        | CandidateError e \<Rightarrow> (Done (OutError e), sv)))"


subsection \<open>What an attempt does\<close>

text \<open>All calls of an attempt use the digest \<open>sha\<close>, and other users of the journal call its methods.\<close>

definition attempt_sha :: "(bytes \<Rightarrow> checksum) \<Rightarrow> attempt_env \<Rightarrow> bool" where
  "attempt_sha sha a \<longleftrightarrow> at_sha a = sha \<and> (\<forall>c. env_sha (at_env a c) = sha) \<and>
     (\<forall>c j. (journal_step sha)\<^sup>*\<^sup>* j (at_other a c j))"

lemma meanwhile_simps [simp]:
  "sv_journal (meanwhile a c sv) = at_other a c (sv_journal sv)" "sv_gate (meanwhile a c sv) = sv_gate sv"
  "sv_profile (meanwhile a c sv) = sv_profile sv" "sv_shutdown (meanwhile a c sv) = sv_shutdown sv"
  "sv_sent (meanwhile a c sv) = sv_sent sv"
  "(meanwhile a c sv)\<lparr>sv_journal := at_other a c (sv_journal sv)\<rparr> = meanwhile a c sv"
  by (simp_all add: meanwhile_def)

lemma meanwhile_steps: "attempt_sha sha a \<Longrightarrow> (journal_step sha)\<^sup>*\<^sup>* (sv_journal sv) (sv_journal (meanwhile a c sv))"
  by (simp add: attempt_sha_def)

text \<open>
  A part of an attempt that sends nothing and confirms nothing: the gate keeps its state or holds
  sequence \<open>s\<close> of stream \<open>k\<close>, the journal takes some steps.
\<close>

definition unconfirmed :: "(bytes \<Rightarrow> checksum) \<Rightarrow> string \<Rightarrow> i64 \<Rightarrow> delivery_service \<Rightarrow> attempt_result \<Rightarrow> bool" where
  "unconfirmed sha k s sv x \<longleftrightarrow>
     (\<forall>p q. fst x \<noteq> Done (OutReplicated p q)) \<and>
     (\<exists>j g. snd x = sv\<lparr>sv_journal := j, sv_gate := g\<rparr> \<and> g \<in> {sv_gate sv, mark_blocking k s (sv_gate sv)} \<and>
        (journal_step sha)\<^sup>*\<^sup>* (sv_journal sv) j)"

lemma unconfirmed_stop: "(\<And>p q. r \<noteq> Done (OutReplicated p q)) \<Longrightarrow> unconfirmed sha k s sv (r, sv)"
  unfolding unconfirmed_def by (auto intro!: exI [of _ "sv_journal sv"] exI [of _ "sv_gate sv"])

lemma unconfirmed_answer: "(\<And>p q. out \<noteq> OutReplicated p q) \<Longrightarrow> unconfirmed sha k s sv (answer out (mark_blocking k s) sv)"
  unfolding unconfirmed_def answer_def by (auto intro!: exI [of _ "sv_journal sv"])

lemma unconfirmed_call:
  assumes "\<And>r j. f (sv_journal sv) = (r, j) \<Longrightarrow> journal_step sha (sv_journal sv) j"
    and "\<And>x j. f (sv_journal sv) = (Done x, j) \<Longrightarrow> unconfirmed sha k s (sv\<lparr>sv_journal := j\<rparr>) (h x (sv\<lparr>sv_journal := j\<rparr>))"
  shows "unconfirmed sha k s sv (journal_call f sv h)"
proof -
  obtain r j where f: "f (sv_journal sv) = (r, j)" by fastforce
  have step: "journal_step sha (sv_journal sv) j" using assms(1) f .
  show ?thesis
  proof (cases r)
    case (Done x)
    have "unconfirmed sha k s (sv\<lparr>sv_journal := j\<rparr>) (h x (sv\<lparr>sv_journal := j\<rparr>))" using assms(2) f Done by blast
    moreover have "journal_call f sv h = h x (sv\<lparr>sv_journal := j\<rparr>)" using f Done by (simp add: journal_call_def)
    ultimately show ?thesis using step unfolding unconfirmed_def
      by (auto intro: converse_rtranclp_into_rtranclp)
  next
    case Panicked
    with f step show ?thesis
      by (auto simp: unconfirmed_def journal_call_def intro!: exI [of _ j] exI [of _ "sv_gate sv"])
  qed
qed

lemma unconfirmed_meanwhile:
  assumes "attempt_sha sha a" "unconfirmed sha k s (meanwhile a c sv) x"
  shows "unconfirmed sha k s sv x"
proof -
  from assms(2) obtain j g where "\<forall>p q. fst x \<noteq> Done (OutReplicated p q)"
    "snd x = (meanwhile a c sv)\<lparr>sv_journal := j, sv_gate := g\<rparr>" "g \<in> {sv_gate sv, mark_blocking k s (sv_gate sv)}"
    "(journal_step sha)\<^sup>*\<^sup>* (sv_journal (meanwhile a c sv)) j" by (auto simp: unconfirmed_def)
  moreover from this(4) have "(journal_step sha)\<^sup>*\<^sup>* (sv_journal sv) j"
    by (rule rtranclp_trans [OF meanwhile_steps [OF assms(1)]])
  ultimately show ?thesis unfolding unconfirmed_def
    by (intro conjI exI [of _ j] exI [of _ g]) (simp_all add: meanwhile_def)
qed

lemmas unconfirmed_next_call = unconfirmed_meanwhile [OF _ unconfirmed_call]

lemma unconfirmed_arith:
  "(\<And>x. y = Done x \<Longrightarrow> unconfirmed sha k s sv (h x)) \<Longrightarrow> unconfirmed sha k s sv (arith_call y sv h)"
  by (cases y) (auto simp: arith_call_def intro: unconfirmed_stop)

lemma persist_block_unconfirmed:
  "attempt_sha sha a \<Longrightarrow> unconfirmed sha k s sv (persist_block_before_send a eid k s rv reason sv)"
  unfolding persist_block_before_send_def
  by (rule unconfirmed_next_call) (auto intro: step_block unconfirmed_answer unconfirmed_stop simp: attempt_sha_def)

lemma handle_failure_unconfirmed:
  assumes "attempt_sha sha a"
  shows "unconfirmed sha (dc_stream_key c) (dc_stream_sequence c) sv (handle_failure a eid c routing err sv)"
proof -
  have block: "unconfirmed sha (dc_stream_key c) (dc_stream_sequence c) sv (block_after_failure a eid c reason sv)" for reason sv
    unfolding block_after_failure_def by (rule persist_block_unconfirmed [OF assms])
  have "unconfirmed sha (dc_stream_key c) (dc_stream_sequence c) sv (schedule_retry a eid c decision sv)" for decision sv
  proof (cases decision)
    case (Retry_at t)
    show ?thesis unfolding Retry_at schedule_retry_def retry_decision.case
      by (rule unconfirmed_next_call [OF assms])
        (use assms in \<open>auto intro: unconfirmed_answer unconfirmed_stop step_retry simp: attempt_sha_def\<close>)
  next
    case Exhausted
    with block show ?thesis by (simp add: schedule_retry_def)
  qed
  with block assms show ?thesis unfolding handle_failure_def
    by (intro unconfirmed_arith unconfirmed_next_call [OF assms])
      (auto intro: step_attempt unconfirmed_stop unconfirmed_arith simp: attempt_sha_def)
qed


text \<open>What sending does: the request is handed out once; the gate completes exactly on a confirmed answer.\<close>

definition confirmed_send ::
    "attempt_env \<Rightarrow> string \<Rightarrow> delivery_candidate \<Rightarrow> routing_resolution \<Rightarrow> send_request \<Rightarrow> delivery_service \<Rightarrow> delivery_outcome outcome
       \<Rightarrow> local_journal \<Rightarrow> bool" where
  "confirmed_send a eid c routing req sv r j \<longleftrightarrow>
     (\<exists>succ cas. at_send a req = Inr succ \<and> cas \<in> {Updated, AlreadyConfirmed} \<and>
        confirm_replicated_delivery (at_env a CallConfirm) eid (ds_delivery_revision (dc_delivery_state c))
          (confirmation_of (sv_profile sv) routing succ) (at_other a CallConfirm (sv_journal sv)) = (Done cas, j) \<and>
        r = Done (OutReplicated (ss_partition succ) (ss_offset succ)))"

definition sent_effect ::
    "(bytes \<Rightarrow> checksum) \<Rightarrow> attempt_env \<Rightarrow> string \<Rightarrow> delivery_candidate \<Rightarrow> routing_resolution \<Rightarrow> send_request \<Rightarrow> delivery_service
       \<Rightarrow> attempt_result \<Rightarrow> bool" where
  "sent_effect sha a eid c routing req sv x \<longleftrightarrow>
     (let k = dc_stream_key c; s = dc_stream_sequence c; g0 = mark_in_flight k s (sv_gate sv) in
      \<exists>j g. snd x = sv\<lparr>sv_journal := j, sv_gate := g, sv_sent := sv_sent sv @ [req]\<rparr> \<and>
        (journal_step sha)\<^sup>*\<^sup>* (sv_journal sv) j \<and>
        ((\<forall>p q. fst x \<noteq> Done (OutReplicated p q)) \<and> g \<in> {g0, mark_blocking k s g0} \<or>
         confirmed_send a eid c routing req sv (fst x) j \<and> g = mark_completed k s g0))"

lemma handle_success_effect:
  assumes "attempt_sha sha a" "at_send a req = Inr succ"
    and sv1: "sv1 = sv\<lparr>sv_gate := mark_in_flight (dc_stream_key c) (dc_stream_sequence c) (sv_gate sv), sv_sent := sv_sent sv @ [req]\<rparr>"
  shows "sent_effect sha a eid c routing req sv (handle_success a eid c routing succ sv1)"
proof -
  let ?f = "confirm_replicated_delivery (at_env a CallConfirm) eid (ds_delivery_revision (dc_delivery_state c))
    (confirmation_of (sv_profile sv) routing succ)"
  obtain r j where f: "?f (at_other a CallConfirm (sv_journal sv)) = (r, j)" by fastforce
  then have "journal_step sha (sv_journal (meanwhile a CallConfirm sv)) j"
    using assms(1) by (intro step_confirm) (simp_all add: attempt_sha_def)
  then have steps: "(journal_step sha)\<^sup>*\<^sup>* (sv_journal sv) j" by (rule rtranclp.rtrancl_into_rtrancl [OF meanwhile_steps [OF assms(1)]])
  have sv1_fields: "sv_journal (meanwhile a CallConfirm sv1) = at_other a CallConfirm (sv_journal sv)"
    "sv_profile sv1 = sv_profile sv" by (simp_all add: sv1)
  show ?thesis
  proof (cases "\<exists>cas. r = Done cas \<and> cas \<in> {Updated, AlreadyConfirmed}")
    case True
    then obtain cas where cas: "r = Done cas" "cas \<in> {Updated, AlreadyConfirmed}" by blast
    with f assms(2) have "confirmed_send a eid c routing req sv (Done (OutReplicated (ss_partition succ) (ss_offset succ))) j"
      by (auto simp: confirmed_send_def)
    with cas f steps show ?thesis unfolding handle_success_def journal_call_def sv1_fields sent_effect_def Let_def
      by (intro exI [of _ j] exI [of _ "mark_completed (dc_stream_key c) (dc_stream_sequence c) (sv_gate sv1)"])
        (auto simp: answer_def sv1 meanwhile_def)
  next
    case False
    then show ?thesis using f steps unfolding handle_success_def journal_call_def sv1_fields sent_effect_def Let_def
      by (intro exI [of _ j] exI [of _ "if r = Panicked then sv_gate sv1
          else mark_blocking (dc_stream_key c) (dc_stream_sequence c) (sv_gate sv1)"], cases r) (auto simp: answer_def sv1 meanwhile_def)
  qed
qed

lemma send_stage_effect:
  assumes "attempt_sha sha a"
  shows "sent_effect sha a eid c routing (send_request_of eid (sv_profile sv) routing payload) sv (send_stage a eid c routing payload sv)"
proof -
  let ?req = "send_request_of eid (sv_profile sv) routing payload"
  let ?sv1 = "sv\<lparr>sv_gate := mark_in_flight (dc_stream_key c) (dc_stream_sequence c) (sv_gate sv), sv_sent := sv_sent sv @ [?req]\<rparr>"
  show ?thesis
  proof (cases "at_send a ?req")
    case (Inl err)
    from handle_failure_unconfirmed [OF assms, of c ?sv1 eid routing err] obtain j g where
      "\<forall>p q. fst (handle_failure a eid c routing err ?sv1) \<noteq> Done (OutReplicated p q)"
      "snd (handle_failure a eid c routing err ?sv1) = ?sv1\<lparr>sv_journal := j, sv_gate := g\<rparr>"
      "g \<in> {sv_gate ?sv1, mark_blocking (dc_stream_key c) (dc_stream_sequence c) (sv_gate ?sv1)}"
      "(journal_step sha)\<^sup>*\<^sup>* (sv_journal ?sv1) j"
      unfolding unconfirmed_def by blast
    then show ?thesis unfolding send_stage_def Let_def Inl sent_effect_def
      by (intro exI [of _ j] exI [of _ g]) simp
  next
    case (Inr succ)
    with handle_success_effect [OF assms Inr refl] show ?thesis by (simp add: send_stage_def Let_def)
  qed
qed

lemma read_calls:
  "get_delivery_candidate e eid j = (Done x, j') \<Longrightarrow> j' = j \<and> x = load_delivery_candidate e (lj_db j) eid"
  "read_verified_payload e eid j = (Done y, j') \<Longrightarrow> j' = j \<and> y = read_verified_payload_impl e (lj_db j) eid"
  "get_delivery_candidate e eid j = (Panicked, j') \<Longrightarrow> j' = j"
  "read_verified_payload e eid j = (Panicked, j') \<Longrightarrow> j' = j"
  by (auto simp: get_delivery_candidate_def read_verified_payload_def with_conn_def split: if_splits)

text \<open>The candidate, routing and payload that a request was built from.\<close>

definition cleared ::
    "attempt_env \<Rightarrow> string \<Rightarrow> delivery_service \<Rightarrow> delivery_candidate \<Rightarrow> routing_resolution \<Rightarrow> bytes \<Rightarrow> bool" where
  "cleared a eid sv c routing payload \<longleftrightarrow> \<not> sv_shutdown sv \<and>
     ds_delivery_status (dc_delivery_state c) \<notin> {''REPLICATED'', ''DELIVERY_BLOCKED''} \<and>
     pre_send_checks (at_sha a) (sv_profile sv) c = Inr routing \<and>
     read_verified_payload_impl (at_env a CallPayload) (lj_db (at_other a CallPayload (sv_journal sv))) eid = PayloadFound payload"

lemma payload_stage_cases:
  assumes "attempt_sha sha a" "payload_stage a eid c routing sv = x"
  obtains (stop) "unconfirmed sha (dc_stream_key c) (dc_stream_sequence c) sv x"
  | (send) payload where "read_verified_payload_impl (at_env a CallPayload) (lj_db (at_other a CallPayload (sv_journal sv))) eid = PayloadFound payload"
      "x = send_stage a eid c routing payload (meanwhile a CallPayload sv)"
proof -
  let ?sv = "meanwhile a CallPayload sv"
  have held: thesis if "x = answer (OutError m) (mark_blocking (dc_stream_key c) (dc_stream_sequence c)) ?sv" for m
    by (rule stop, unfold that, rule unconfirmed_meanwhile [OF assms(1) unconfirmed_answer]) simp
  obtain r j where f: "read_verified_payload (at_env a CallPayload) eid (sv_journal ?sv) = (r, j)" by fastforce
  then have j: "j = sv_journal ?sv" using read_calls by (cases r) blast+
  show ?thesis
  proof (cases r)
    case Panicked
    with f j assms(2) have "x = (Panicked, ?sv)" by (auto simp: payload_stage_def journal_call_def Let_def)
    then show ?thesis using unconfirmed_stop unconfirmed_meanwhile [OF assms(1)] stop by blast
  next
    case (Done y)
    with f read_calls have y: "y = read_verified_payload_impl (at_env a CallPayload) (lj_db (sv_journal ?sv)) eid" by blast
    show ?thesis
    proof (cases y)
      case (PayloadFound payload)
      with f Done j assms(2) have "x = send_stage a eid c routing payload ?sv"
        by (simp add: payload_stage_def journal_call_def Let_def)
      then show ?thesis using y PayloadFound by (intro send) simp_all
    qed (use f Done j assms(2) held in \<open>auto simp: payload_stage_def journal_call_def Let_def\<close>)
  qed
qed


text \<open>The candidate of an attempt that the gate lets through.\<close>

definition admitted :: "attempt_env \<Rightarrow> string \<Rightarrow> delivery_service \<Rightarrow> delivery_candidate \<Rightarrow> bool" where
  "admitted a eid sv c \<longleftrightarrow> \<not> sv_shutdown sv \<and>
     load_delivery_candidate (at_env a CallCandidate) (lj_db (sv_journal sv)) eid = CandidateFound c \<and>
     gate_check (at_checks a) (sv_gate sv) (dc_stream_key c) (dc_stream_sequence c) = Done GateAllowed"

lemma attempt_admission:
  assumes "attempt_delivery a eid sv = (r, sv')"
  obtains "sv' = sv" "\<And>p q. r \<noteq> Done (OutReplicated p q)" "\<And>why. r \<noteq> Done (OutBlocked why)"
  | c where "admitted a eid sv c" "allowed_stage a eid c sv = (r, sv')"
proof (cases "sv_shutdown sv")
  case True
  with assms show ?thesis by (intro that(1)) (auto simp: attempt_delivery_def)
next
  case up: False
  obtain x j where f: "get_delivery_candidate (at_env a CallCandidate) eid (sv_journal sv) = (x, j)" by fastforce
  show ?thesis
  proof (cases x)
    case Panicked
    with f up assms read_calls(3) [of "at_env a CallCandidate" eid "sv_journal sv" j] show ?thesis
      by (intro that(1)) (auto simp: attempt_delivery_def journal_call_def)
  next
    case (Done y)
    then have y: "j = sv_journal sv" "load_delivery_candidate (at_env a CallCandidate) (lj_db (sv_journal sv)) eid = y"
      using f read_calls(1) by blast+
    show ?thesis
    proof (cases y)
      case (CandidateFound c)
      with f Done y(1) up assms have gs: "gate_stage a eid c sv = (r, sv')" by (simp add: attempt_delivery_def journal_call_def)
      show ?thesis
      proof (cases "gate_check (at_checks a) (sv_gate sv) (dc_stream_key c) (dc_stream_sequence c) = Done GateAllowed")
        case True
        with gs up y(2) CandidateFound show ?thesis
          by (intro that(2) [of c]) (simp_all add: admitted_def gate_stage_def arith_call_def)
      next
        case False
        with gs show ?thesis
          by (intro that(1)) (auto simp: gate_stage_def arith_call_def split: outcome.splits gate_decision.splits)
      qed
    qed (use f Done y(1) up assms that(1) in \<open>auto simp: attempt_delivery_def journal_call_def\<close>)
  qed
qed

lemma attempt_cases:
  assumes "attempt_sha sha a" "attempt_delivery a eid sv = (r, sv')"
  obtains (idle) "sv' = sv" "\<And>p q. r \<noteq> Done (OutReplicated p q)"
  | (known) c p q where "admitted a eid sv c" "ds_delivery_status (dc_delivery_state c) = ''REPLICATED''"
      "ds_kafka_partition (dc_delivery_state c) = Some p" "ds_kafka_offset (dc_delivery_state c) = Some q"
      "r = Done (OutReplicated p q)" "sv' = sv\<lparr>sv_gate := mark_completed (dc_stream_key c) (dc_stream_sequence c) (sv_gate sv)\<rparr>"
  | (held) c where "admitted a eid sv c" "unconfirmed sha (dc_stream_key c) (dc_stream_sequence c) sv (r, sv')"
  | (sent) c routing payload where "admitted a eid sv c" "cleared a eid sv c routing payload"
      "sent_effect sha a eid c routing (send_request_of eid (sv_profile sv) routing payload) (meanwhile a CallPayload sv) (r, sv')"
      "send_stage a eid c routing payload (meanwhile a CallPayload sv) = (r, sv')"
  using assms(2)
proof (cases rule: attempt_admission)
  case 1
  then show ?thesis using idle by blast
next
  case (2 c)
  let ?s = "dc_delivery_state c"
  consider (rep) "ds_delivery_status ?s = ''REPLICATED''" | (blk) "ds_delivery_status ?s = ''DELIVERY_BLOCKED''"
    | (unsent) "ds_delivery_status ?s \<notin> {''REPLICATED'', ''DELIVERY_BLOCKED''}" by blast
  then show ?thesis
  proof cases
    case rep
    show ?thesis
    proof (cases "ds_kafka_partition ?s = None \<or> ds_kafka_offset ?s = None")
      case True
      with rep 2(2) show ?thesis by (intro idle) (auto simp: allowed_stage_def Let_def split: option.splits)
    next
      case False
      then obtain p q where "ds_kafka_partition ?s = Some p" "ds_kafka_offset ?s = Some q" by auto
      with rep 2 show ?thesis by (intro known [of c p q]) (simp_all add: allowed_stage_def answer_def Let_def)
    qed
  next
    case blk
    then have "allowed_stage a eid c sv = answer (OutBlocked (case ds_blocked_reason ?s of Some reason \<Rightarrow> reason | None \<Rightarrow> ''delivery blocked''))
      (mark_blocking (dc_stream_key c) (dc_stream_sequence c)) sv" by (simp add: allowed_stage_def Let_def)
    then show ?thesis using 2 by (intro held [of c]) (metis unconfirmed_answer delivery_outcome.distinct(3))+
  next
    case unsent
    show ?thesis
    proof (cases "pre_send_checks (at_sha a) (sv_profile sv) c")
      case (Inl reason)
      with unsent 2 have "persist_block_before_send a eid (dc_stream_key c) (dc_stream_sequence c) (ds_delivery_revision ?s) reason sv = (r, sv')"
        by (simp add: allowed_stage_def Let_def)
      with 2(1) persist_block_unconfirmed [OF assms(1)] show ?thesis by (intro held [of c]) metis+
    next
      case (Inr routing)
      with unsent 2 have "payload_stage a eid c routing sv = (r, sv')" by (simp add: allowed_stage_def Let_def)
      from assms(1) this show ?thesis
      proof (cases rule: payload_stage_cases)
        case stop
        with 2(1) show ?thesis by (rule held [of c])
      next
        case (send payload)
        with unsent Inr \<open>admitted a eid sv c\<close> send_stage_effect [OF assms(1), of eid c routing "meanwhile a CallPayload sv" payload]
        show ?thesis by (intro sent [of c routing payload]) (auto simp: cleared_def admitted_def)
      qed
    qed
  qed
qed

end
