(* ===== verification/Kafka_Ordering.thy ===== *)
theory Kafka_Ordering
  imports Kafka_Service
begin

text \<open>
  The delivery service as a state machine over the journal it shares with other callers. Its gate meets
  the contract after any steps. Where recovery finds no delivery whose predecessors lack one, the
  invariant also ties the gate to the journal: every sequence before the one a stream is at belongs to
  an event whose delivery row is \<^verbatim>\<open>REPLICATED\<close>. From it follows what the service promises: an event is
  handed to the producer only after all its predecessors are replicated, and an answer
  \<^verbatim>\<open>Replicated\<close> is durable.
\<close>

subsection \<open>What the journal says about a candidate\<close>

lemma candidate_Found:
  assumes "load_delivery_candidate e d eid = CandidateFound c"
  obtains en where "find_envelope d eid = Some en" "envelope_ok e en"
    "load_delivery_state e d eid = DeliveryFound (dc_delivery_state c)"
    "dc_stream_key c = se_stream_key en" "dc_stream_sequence c = se_stream_sequence en"
    "routing_input_of c = \<lparr>ri_installation_id = se_installation_id en, ri_namespace = se_namespace en,
       ri_logical_stream_type = se_logical_stream_type en, ri_stream_key = se_stream_key en,
       ri_event_type = se_event_type en, ri_routing_version = se_routing_version en\<rparr>"
proof -
  from assms obtain s where s: "load_delivery_state e d eid = DeliveryFound s"
    by (auto simp: load_delivery_candidate_def split: delivery_state_result.splits)
  with assms obtain en ec where en: "find_envelope d eid = Some en" "se_envelope_checksum en = bytes_of ec"
    "recompute_envelope_checksum_from_row e d eid = Inr ec"
    and c: "c = \<lparr>dc_event_id = eid, dc_installation_id = se_installation_id en, dc_namespace = se_namespace en,
      dc_logical_stream_type = se_logical_stream_type en, dc_stream_key = se_stream_key en,
      dc_stream_sequence = se_stream_sequence en, dc_event_type = se_event_type en,
      dc_routing_version = se_routing_version en, dc_delivery_state = s\<rparr>"
    by (auto simp: load_delivery_candidate_def sql_def checksum_of_eq_Some split: option.splits sum.splits if_splits)
  with recompute_matches [OF en(1), of e ec] s show ?thesis by (intro that [of en]) (simp_all add: routing_input_of_def)
qed

text \<open>Stream sequences of accepted events are ones the gate can hold.\<close>

lemma stream_sequence_ok:
  assumes "journal_reach sha j" "find_envelope (lj_db j) eid = Some en"
  shows "seq_ok (se_stream_sequence en)"
proof -
  let ?d = "lj_db j"
  have en: "en \<in> set (db_envelopes ?d)" using assms(2) by (auto dest: select_row_Some_in)
  obtain k where k: "en \<in> set (stream_rows ?d k)" using en by (auto simp: stream_rows_def)
  have "set (map se_stream_sequence (stream_rows ?d k)) = {1..int (length (stream_rows ?d k))}"
    using journal_reach_inv [OF assms(1)] by (simp add: journal_inv_def sequences_ok_def del: set_map)
  moreover have "se_stream_sequence en \<in> set (map se_stream_sequence (stream_rows ?d k))" using k by simp
  moreover have "length (stream_rows ?d k) \<le> length (db_envelopes ?d)" by (simp add: stream_rows_def)
  ultimately show ?thesis using journal_reach_length [OF assms(1)] by (auto simp: seq_ok_def in_i64_def)
qed

text \<open>
  Two envelopes of one stream: installation, namespace, stream type and stream key agree. Within a
  stream the sequences order the events as the journal does, and name each event uniquely.
\<close>

definition same_stream :: "envelope_row \<Rightarrow> envelope_row \<Rightarrow> bool" where
  "same_stream en en' \<longleftrightarrow> se_installation_id en' = se_installation_id en \<and> se_namespace en' = se_namespace en \<and>
     se_logical_stream_type en' = se_logical_stream_type en \<and> se_stream_key en' = se_stream_key en"

lemma stream_order:
  assumes "sequences_ok d" "en \<in> set (db_envelopes d)" "en' \<in> set (db_envelopes d)" "same_stream en en'"
  shows "se_stream_sequence en' < se_stream_sequence en \<Longrightarrow> se_journal_sequence en' < se_journal_sequence en"
    and "se_stream_sequence en' = se_stream_sequence en \<Longrightarrow> en' = en"
proof -
  let ?rows = "stream_rows d (row_stream en)"
  have "row_stream en' = row_stream en" using assms(4) by (simp add: same_stream_def row_stream_def)
  then have rows: "en \<in> set ?rows" "en' \<in> set ?rows" using assms(2,3) by (simp_all add: stream_rows_def)
  have seqs: "map se_stream_sequence ?rows = upto_int (length ?rows)"
    and js: "map se_journal_sequence (db_envelopes d) = upto_int (length (db_envelopes d))"
    using assms(1) by (simp_all add: sequences_ok_def)
  obtain i i' where i: "i < length ?rows" "?rows ! i = en" "i' < length ?rows" "?rows ! i' = en'"
    using rows by (metis in_set_conv_nth)
  have nth: "se_stream_sequence (?rows ! n) = int n + 1" if "n < length ?rows" for n
    using arg_cong [OF seqs, of "\<lambda>xs. xs ! n"] that by (simp add: upto_int_def del: upt_Suc)
  have "sorted_wrt (<) (map se_journal_sequence (db_envelopes d))"
    unfolding js strict_sorted_iff by simp
  then have "sorted_wrt (\<lambda>x y. se_journal_sequence x < se_journal_sequence y) ?rows"
    by (simp add: sorted_wrt_map stream_rows_def sorted_wrt_filter)
  then show "se_stream_sequence en' < se_stream_sequence en \<Longrightarrow> se_journal_sequence en' < se_journal_sequence en"
    using nth [OF i(1)] nth [OF i(3)] i sorted_wrt_nth_less [of _ ?rows i' i] by simp
  show "se_stream_sequence en' = se_stream_sequence en \<Longrightarrow> en' = en" using nth [OF i(1)] nth [OF i(3)] i by simp
qed

subsection \<open>Payloads of accepted events can be read\<close>

definition payloads_ok :: "(bytes \<Rightarrow> checksum) \<Rightarrow> db \<Rightarrow> bool" where
  "payloads_ok sha d \<longleftrightarrow> (\<forall>eid en. find_envelope d eid = Some en \<longrightarrow>
     (\<exists>b. find_payload d eid = Some b \<and> se_payload_digest en = bytes_of (sha (pb_payload b)) \<and>
        pb_payload_digest b = bytes_of (sha (pb_payload b))))"

lemma db_step_payloads_ok:
  assumes "db_step sha d d'" "payloads_ok sha d"
  shows "payloads_ok sha d'"
  using db_step_events [OF assms(1)]
proof
  assume "\<exists>e req a. env_sha e = sha \<and> in_i32 (aq_schema_version req) \<and> accept_tx e req d = (Done (AcceptAccepted a), d')"
  then obtain e req a where e: "env_sha e = sha" and acc: "accept_tx e req d = (Done (AcceptAccepted a), d')" by blast
  from acc obtain js ss where abs: "event_absent d (aq_event_id req)"
    and d': "d' = record_attempt e (event_added e req js ss d) (aq_event_id req) ''NEWLY_ACCEPTED'' None" by (rule accept_tx_added)
  show ?thesis using assms(2) e unfolding payloads_ok_def d'
    by (auto simp: find_event_added [OF abs] new_envelope_row_def new_payload_row_def split: if_splits)
qed (use assms(2) in \<open>simp add: payloads_ok_def\<close>)

lemma journal_reach_payloads_ok: "journal_reach sha j \<Longrightarrow> payloads_ok sha (lj_db j)"
proof (induction rule: journal_reach.induct)
  case (again j j')
  with journal_step_db journal_reach_inv db_step_payloads_ok show ?case by blast
qed (simp add: payloads_ok_def empty_db_def)

lemma payload_found:
  assumes "journal_reach sha j" "no_faults e" "env_sha e = sha" "find_envelope (lj_db j) eid = Some en"
  obtains payload where "read_verified_payload_impl e (lj_db j) eid = PayloadFound payload"
  using journal_reach_payloads_ok [OF assms(1)] assms(2-4)
  by (fastforce simp: payloads_ok_def read_payload_Found no_faults_def)

subsection \<open>The service as a state machine\<close>

text \<open>
  Some event with sequence \<open>q\<close> and stream key \<open>k\<close> is replicated: this is as much as the gate, which knows
  a stream by its key alone, can tell.
\<close>

definition delivered :: "db \<Rightarrow> string \<Rightarrow> i64 \<Rightarrow> bool" where
  "delivered d k q \<longleftrightarrow> (\<exists>eid en r. find_envelope d eid = Some en \<and> se_stream_key en = k \<and> se_stream_sequence en = q \<and>
     find_delivery d eid = Some r \<and> dr_delivery_status r = ''REPLICATED'')"

lemma deliveredI:
  "find_envelope d eid = Some en \<Longrightarrow> find_delivery d eid = Some r \<Longrightarrow> dr_delivery_status r = ''REPLICATED'' \<Longrightarrow>
     delivered d (se_stream_key en) (se_stream_sequence en)"
  unfolding delivered_def by blast

text \<open>
  The steps: attempts, recovery, shutdown, and calls of other users of the shared journal, with any
  failures.
\<close>

inductive service_step :: "(bytes \<Rightarrow> checksum) \<Rightarrow> delivery_service \<Rightarrow> delivery_service \<Rightarrow> bool" for sha where
  sv_attempt: "attempt_sha sha a \<Longrightarrow> attempt_delivery a eid sv = (r, sv') \<Longrightarrow> service_step sha sv sv'"
| sv_recover: "recover e sv = (r, sv') \<Longrightarrow> service_step sha sv sv'"
| sv_shutdown: "service_step sha sv (service_shutdown sv)"
| sv_other: "journal_step sha (sv_journal sv) j \<Longrightarrow> service_step sha sv (sv\<lparr>sv_journal := j\<rparr>)"

inductive service_reach :: "(bytes \<Rightarrow> checksum) \<Rightarrow> delivery_service \<Rightarrow> bool" for sha where
  started: "journal_reach sha j \<Longrightarrow> service_reach sha (new_service j profile)"
| stepped: "service_reach sha sv \<Longrightarrow> service_step sha sv sv' \<Longrightarrow> service_reach sha sv'"

text \<open>
  The code rebuilds the gate from the delivery rows alone. An event that was accepted but has no
  delivery row yet is invisible to it, and a successor with one would overtake it. So recovery keeps the
  order where no delivery row lacks the row of a predecessor in its stream.
\<close>

definition deliveries_gapless :: "db \<Rightarrow> bool" where
  "deliveries_gapless d \<longleftrightarrow> (\<forall>eid en q. find_envelope d eid = Some en \<longrightarrow> find_delivery d eid \<noteq> None \<longrightarrow>
     1 \<le> q \<longrightarrow> q < se_stream_sequence en \<longrightarrow>
     (\<exists>eid' en'. find_envelope d eid' = Some en' \<and> same_stream en en' \<and> se_stream_sequence en' = q \<and> find_delivery d eid' \<noteq> None))"

inductive ordered_reach :: "(bytes \<Rightarrow> checksum) \<Rightarrow> delivery_service \<Rightarrow> bool" for sha where
  ordered_start: "journal_reach sha j \<Longrightarrow> ordered_reach sha (new_service j profile)"
| ordered_attempt: "ordered_reach sha sv \<Longrightarrow> attempt_sha sha a \<Longrightarrow> attempt_delivery a eid sv = (r, sv') \<Longrightarrow> ordered_reach sha sv'"
| ordered_recover: "ordered_reach sha sv \<Longrightarrow> recover e sv = (r, sv') \<Longrightarrow> deliveries_gapless (lj_db (sv_journal sv)) \<Longrightarrow>
    ordered_reach sha sv'"
| ordered_shutdown: "ordered_reach sha sv \<Longrightarrow> ordered_reach sha (service_shutdown sv)"
| ordered_other: "ordered_reach sha sv \<Longrightarrow> journal_step sha (sv_journal sv) j \<Longrightarrow> ordered_reach sha (sv\<lparr>sv_journal := j\<rparr>)"

text \<open>The invariant; its last part, for \<open>ord\<close>, holds in the states of \<open>ordered_reach\<close>.\<close>

definition service_inv :: "bool \<Rightarrow> (bytes \<Rightarrow> checksum) \<Rightarrow> delivery_service \<Rightarrow> bool" where
  "service_inv ord sha sv \<longleftrightarrow> journal_reach sha (sv_journal sv) \<and> gate_ok (sv_gate sv) \<and>
     (ord \<longrightarrow> (\<forall>k q. 1 \<le> q \<and> q < gate_next (sv_gate sv) k \<longrightarrow> delivered (lj_db (sv_journal sv)) k q))"

lemma delivered_step:
  assumes "db_step sha d d'" "delivered d k q"
  shows "delivered d' k q"
proof -
  from assms(2) obtain eid en r where en: "find_envelope d eid = Some en" "se_stream_key en = k" "se_stream_sequence en = q"
    and r: "find_delivery d eid = Some r" "dr_delivery_status r = ''REPLICATED''" by (auto simp: delivered_def)
  obtain r' where "find_delivery d' eid = Some r'" "same_replication r r'"
    using db_step_replicated [OF assms(1) r] by blast
  with db_step_immutable(1) [OF assms(1) en(1)] en(2,3) r(2) show ?thesis
    unfolding delivered_def same_replication_def by (intro exI [of _ eid] exI [of _ en] exI [of _ r']) simp
qed

lemma journal_steps_reach: "(journal_step sha)\<^sup>*\<^sup>* j j' \<Longrightarrow> journal_reach sha j \<Longrightarrow> journal_reach sha j'"
  by (induction rule: rtranclp_induct) (auto intro: again)

lemma delivered_steps: "(journal_step sha)\<^sup>*\<^sup>* j j' \<Longrightarrow> journal_reach sha j \<Longrightarrow> delivered (lj_db j) k q \<Longrightarrow> delivered (lj_db j') k q"
proof (induction rule: rtranclp_induct)
  case (step y z)
  then have "journal_inv (lj_db y)" using journal_steps_reach journal_reach_inv by blast
  with step journal_step_db delivered_step show ?case by blast
qed

lemma service_inv_steps:
  assumes "service_inv ord sha sv" "(journal_step sha)\<^sup>*\<^sup>* (sv_journal sv) j" "gate_ok g"
    and "\<And>k q. gate_next (sv_gate sv) k \<le> q \<Longrightarrow> 1 \<le> q \<Longrightarrow> q < gate_next g k \<Longrightarrow> delivered (lj_db j) k q"
    and "sv_journal sv' = j" "sv_gate sv' = g"
  shows "service_inv ord sha sv'"
  using assms delivered_steps [OF assms(2)] journal_steps_reach [OF assms(2)]
  unfolding service_inv_def by (metis not_le)


lemma admitted_next:
  assumes "service_inv ord sha sv" "admitted a eid sv c"
  obtains en where "find_envelope (lj_db (sv_journal sv)) eid = Some en" "dc_stream_key c = se_stream_key en"
    "dc_stream_sequence c = se_stream_sequence en" "seq_ok (dc_stream_sequence c)"
    "dc_stream_sequence c = gate_next (sv_gate sv) (dc_stream_key c)" "\<not> gate_busy (sv_gate sv) (dc_stream_key c)"
    "load_delivery_state (at_env a CallCandidate) (lj_db (sv_journal sv)) eid = DeliveryFound (dc_delivery_state c)"
proof -
  from assms(2) have cand: "load_delivery_candidate (at_env a CallCandidate) (lj_db (sv_journal sv)) eid = CandidateFound c"
    and allowed: "gate_check (at_checks a) (sv_gate sv) (dc_stream_key c) (dc_stream_sequence c) = Done GateAllowed"
    by (simp_all add: admitted_def)
  from cand obtain en where en: "find_envelope (lj_db (sv_journal sv)) eid = Some en"
    "load_delivery_state (at_env a CallCandidate) (lj_db (sv_journal sv)) eid = DeliveryFound (dc_delivery_state c)"
    "dc_stream_key c = se_stream_key en" "dc_stream_sequence c = se_stream_sequence en" by (rule candidate_Found)
  have "journal_reach sha (sv_journal sv)" using assms(1) by (simp add: service_inv_def)
  from stream_sequence_ok [OF this en(1)] en(4) have "seq_ok (dc_stream_sequence c)" by simp
  moreover have "gate_ok (sv_gate sv)" using assms(1) by (simp add: service_inv_def)
  ultimately show ?thesis using code_gate.allowed_only allowed en that by blast
qed

text \<open>A confirmed send leaves the delivery row of the event replicated, with the acknowledged offset.\<close>

definition replicated_at :: "db \<Rightarrow> string \<Rightarrow> i32 \<Rightarrow> i64 \<Rightarrow> bool" where
  "replicated_at d eid p q \<longleftrightarrow> (\<exists>r. find_delivery d eid = Some r \<and> dr_delivery_status r = ''REPLICATED'' \<and>
     dr_kafka_partition r = Some p \<and> dr_kafka_offset r = Some q)"

lemma finish_transition_not_already: "finish_transition e eid l st d u \<noteq> (Done AlreadyConfirmed, d')"
  by (auto simp: finish_transition_def update_lifecycle_delivery_status_def cas_arith_def cas_try_def cas_sql_def
      cas_affected_def case_prod_beta split: if_splits outcome.splits sum.splits cas_result.splits)

lemma confirm_AlreadyConfirmed:
  assumes "confirm_replicated_delivery_db e eid rv c d = (Done AlreadyConfirmed, d')"
  shows "\<exists>s. load_delivery_state e d eid = DeliveryFound s \<and> ds_delivery_status s = ''REPLICATED'' \<and> same_confirmation s c"
  using assms unfolding confirm_replicated_delivery_db_def confirm_already_replicated_def
  by (auto simp: cas_simps finish_transition_not_already delivery_or_return_def load_verified_lifecycle_for_transition_def
      confirm_guards_def cas_guard_def split: if_splits delivery_state_result.splits status_result.splits)

lemma confirm_replicated_at:
  assumes "confirm_replicated_delivery e eid rv c j = (Done cas, j')" "cas \<in> {Updated, AlreadyConfirmed}"
  shows "replicated_at (lj_db j') eid (rc_kafka_partition c) (rc_kafka_offset c)"
proof -
  from assms(1) have db: "confirm_replicated_delivery_db e eid rv c (lj_db j) = (Done cas, lj_db j')"
    by (auto simp: confirm_replicated_delivery_def elim: with_conn_cases)
  show ?thesis
  proof (cases "cas = Updated")
    case True
    with db have "confirm_replicated_delivery_db e eid rv c (lj_db j) = (Done Updated, lj_db j')" by simp
    then show ?thesis
      by (rule confirm_Updated) (auto simp: replicated_at_def transitioned_def stored_def confirmed_record_def delivery_row_of_def)
  next
    case False
    with assms(2) db have already: "confirm_replicated_delivery_db e eid rv c (lj_db j) = (Done AlreadyConfirmed, lj_db j')" by simp
    then have same: "lj_db j' = lj_db j" by (rule confirm_unchanged) simp
    from confirm_AlreadyConfirmed [OF already] show ?thesis unfolding same
      by (auto simp: load_delivery_Found replicated_at_def same_confirmation_def delivery_row_of_def)
  qed
qed


text \<open>The three ways an attempt goes on after the gate admitted its sequence.\<close>

lemma known_inv:
  assumes inv: "service_inv ord sha sv" and "admitted a eid sv c" "ds_delivery_status (dc_delivery_state c) = ''REPLICATED''"
    and "sv' = sv\<lparr>sv_gate := mark_completed (dc_stream_key c) (dc_stream_sequence c) (sv_gate sv)\<rparr>"
  shows "service_inv ord sha sv'"
proof -
  let ?k = "dc_stream_key c" and ?s = "dc_stream_sequence c"
  obtain en where en: "find_envelope (lj_db (sv_journal sv)) eid = Some en" "?k = se_stream_key en" "?s = se_stream_sequence en"
    "seq_ok ?s" "?s = gate_next (sv_gate sv) ?k"
    "load_delivery_state (at_env a CallCandidate) (lj_db (sv_journal sv)) eid = DeliveryFound (dc_delivery_state c)"
    by (rule admitted_next [OF inv assms(2)])
  have "delivered (lj_db (sv_journal sv)) ?k ?s"
    using en(6) assms(3) deliveredI [OF en(1)] by (simp add: en(2,3) load_delivery_Found) (simp add: delivery_row_of_def)
  moreover have "gate_ok (sv_gate sv)" using inv by (simp add: service_inv_def)
  note sp = code_gate.complete_spec [OF this en(4,5)]
  ultimately show ?thesis
    by (intro service_inv_steps [OF inv rtranclp.rtrancl_refl conjunct1 [OF sp]]) (use sp en(5) assms(4) in \<open>auto split: if_splits\<close>)
qed

lemma held_inv:
  assumes inv: "service_inv ord sha sv" and "admitted a eid sv c" "unconfirmed sha (dc_stream_key c) (dc_stream_sequence c) sv (r, sv')"
  shows "service_inv ord sha sv'"
proof -
  let ?k = "dc_stream_key c" and ?s = "dc_stream_sequence c"
  have "seq_ok ?s" "?s = gate_next (sv_gate sv) ?k" using admitted_next [OF inv assms(2)] by blast+
  moreover have g: "gate_ok (sv_gate sv)" using inv by (simp add: service_inv_def)
  ultimately have sp: "gate_ok (mark_blocking ?k ?s (sv_gate sv)) \<and> gate_next (mark_blocking ?k ?s (sv_gate sv)) = gate_next (sv_gate sv)"
    using code_gate.hold_spec by blast
  from assms(3) obtain j g' where "sv' = sv\<lparr>sv_journal := j, sv_gate := g'\<rparr>" "g' \<in> {sv_gate sv, mark_blocking ?k ?s (sv_gate sv)}"
    "(journal_step sha)\<^sup>*\<^sup>* (sv_journal sv) j" by (auto simp: unconfirmed_def)
  with g sp show ?thesis by (intro service_inv_steps [OF inv, of j g']) auto
qed

lemma sent_inv:
  assumes inv: "service_inv ord sha sv" and "admitted a eid sv c"
    and "sent_effect sha a eid c routing req (meanwhile a CallPayload sv) (r, sv')" and sha: "attempt_sha sha a"
  shows "service_inv ord sha sv'"
proof -
  let ?k = "dc_stream_key c" and ?s = "dc_stream_sequence c" and ?g = "sv_gate sv"
  let ?h = "mark_in_flight ?k ?s ?g"
  obtain en where en: "find_envelope (lj_db (sv_journal sv)) eid = Some en" "?k = se_stream_key en" "?s = se_stream_sequence en"
    "seq_ok ?s" "?s = gate_next ?g ?k"
    by (rule admitted_next [OF inv assms(2)])
  have "gate_ok ?g" using inv by (simp add: service_inv_def)
  note sp = code_gate.start_spec [OF this en(4,5)]
  have s0: "?s = gate_next ?h ?k" using sp en(5) by simp
  note hold = code_gate.hold_spec [OF conjunct1 [OF sp] en(4) s0] and complete = code_gate.complete_spec [OF conjunct1 [OF sp] en(4) s0]
  let ?sv = "meanwhile a CallPayload sv"
  from assms(3) obtain j g' where sv': "sv' = ?sv\<lparr>sv_journal := j, sv_gate := g', sv_sent := sv_sent sv @ [req]\<rparr>"
    and more: "(journal_step sha)\<^sup>*\<^sup>* (sv_journal ?sv) j"
    and g': "g' \<in> {?h, mark_blocking ?k ?s ?h} \<or>
      confirmed_send a eid c routing req ?sv r j \<and> g' = mark_completed ?k ?s ?h"
    by (auto simp: sent_effect_def Let_def)
  have steps: "(journal_step sha)\<^sup>*\<^sup>* (sv_journal sv) j" by (rule rtranclp_trans [OF meanwhile_steps [OF sha] more])
  from g' show ?thesis
  proof
    assume "g' \<in> {?h, mark_blocking ?k ?s ?h}"
    with sp hold sv' show ?thesis by (intro service_inv_steps [OF inv steps, of g']) auto
  next
    assume c: "confirmed_send a eid c routing req ?sv r j \<and> g' = mark_completed ?k ?s ?h"
    then have "\<exists>p q. replicated_at (lj_db j) eid p q" by (auto simp: confirmed_send_def dest: confirm_replicated_at)
    moreover have reach: "journal_reach sha (sv_journal sv)" using inv by (simp add: service_inv_def)
    have "find_envelope (lj_db j) eid = Some en"
      using journal_steps_facts [OF steps journal_reach_inv [OF reach] journal_reach_events_ok [OF reach]] en(1) by simp
    ultimately have "delivered (lj_db j) ?k ?s" using en(2,3) deliveredI by (auto simp: replicated_at_def)
    with c complete sp en(5) sv' show ?thesis by (intro service_inv_steps [OF inv steps, of g']) (auto split: if_splits)
  qed
qed

lemma attempt_inv:
  assumes inv: "service_inv ord sha sv" and sha: "attempt_sha sha a" and att: "attempt_delivery a eid sv = (r, sv')"
  shows "service_inv ord sha sv'"
  using sha att
proof (cases rule: attempt_cases)
  case idle
  with inv show ?thesis by simp
next
  case known
  with known_inv [OF inv] show ?thesis by blast
next
  case held
  with held_inv [OF inv] show ?thesis by blast
next
  case sent
  with sent_inv [OF inv] sha show ?thesis by blast
qed


subsection \<open>Recovery\<close>

lemma recover_cases:
  assumes "recover e sv = (r, sv')"
  obtains "sv' = sv" "r \<noteq> Done (Inr ())"
  | ps where "scan_delivery_gate_states_db e 10000 (lj_db (sv_journal sv)) = ScanOk ps" "r = Done (Inr ())"
      "sv' = sv\<lparr>sv_gate := recover_from_scan (map recovered_state ps) (sv_gate sv)\<rparr>"
proof -
  obtain x j where scan: "scan_delivery_gate_states e 10000 (sv_journal sv) = (x, j)" by fastforce
  then have j: "j = sv_journal sv" and x: "x = Panicked \<or> x = Done (scan_delivery_gate_states_db e 10000 (lj_db (sv_journal sv)))"
    by (auto simp: scan_delivery_gate_states_def with_conn_def split: if_splits)
  show ?thesis
  proof (cases "\<exists>ps. x = Done (ScanOk ps)")
    case True
    then obtain ps where "x = Done (ScanOk ps)" by blast
    with assms scan j x show ?thesis by (intro that(2) [of ps]) (auto simp: recover_def)
  next
    case False
    with assms scan j show ?thesis
      by (intro that(1)) (auto simp: recover_def split: outcome.splits delivery_scan_result.splits)
  qed
qed

text \<open>A scanned delivery names a stored event with a delivery row, in the state the scan reports.\<close>

lemma scanned_delivery:
  assumes "scan_delivery_gate_states_db e limit d = ScanOk ps" "keys_ok d" "p \<in> set ps"
  obtains en row where "find_envelope d (pd_event_id p) = Some en" "find_delivery d (pd_event_id p) = Some row"
    "pd_journal_sequence p = se_journal_sequence en" "pd_stream_key p = se_stream_key en"
    "pd_stream_sequence p = se_stream_sequence en" "pd_delivery_status p = dr_delivery_status row"
proof -
  have "reports e d p" using gate_scan_rows(2) [OF assms(1)] assms(3) by (simp add: list_all_iff)
  then obtain row en where row: "row \<in> set (db_deliveries d)" "dr_event_id row = pd_event_id p" "pd_delivery_status p = dr_delivery_status row"
    and en: "find_envelope d (pd_event_id p) = Some en" "pd_stream_key p = se_stream_key en" "pd_stream_sequence p = se_stream_sequence en"
      "pd_journal_sequence p = se_journal_sequence en"
    unfolding reports_def by blast
  have "find_delivery d (pd_event_id p) = Some row"
    using select_row_distinct [of dr_event_id "db_deliveries d" row] row(1,2) assms(2) by (simp add: keys_ok_def)
  with en row(3) that show ?thesis by blast
qed

lemma scan_replicated:
  assumes "scan_delivery_gate_states_db e limit d = ScanOk ps" "keys_ok d" "p \<in> set ps" "pd_delivery_status p = ''REPLICATED''"
  shows "delivered d (pd_stream_key p) (pd_stream_sequence p)"
proof -
  obtain en row where en: "find_envelope d (pd_event_id p) = Some en" "find_delivery d (pd_event_id p) = Some row"
    "pd_journal_sequence p = se_journal_sequence en" "pd_stream_key p = se_stream_key en"
    "pd_stream_sequence p = se_stream_sequence en" "pd_delivery_status p = dr_delivery_status row"
    by (rule scanned_delivery [OF assms(1-3)])
  from deliveredI [OF en(1,2)] en(4-6) assms(4) show ?thesis by simp
qed

text \<open>With a delivery, the scan of a journal without gaps reports the deliveries of all its predecessors.\<close>

lemma scan_predecessor:
  assumes "scan_delivery_gate_states_db e limit d = ScanOk ps" "journal_inv d" "deliveries_gapless d"
    and "p \<in> set ps" "1 \<le> q" "q < pd_stream_sequence p"
  obtains p' where "p' \<in> set ps" "pd_stream_key p' = pd_stream_key p" "pd_stream_sequence p' = q"
proof -
  have keys: "keys_ok d" and seqs: "sequences_ok d" using assms(2) by (simp_all add: journal_inv_def)
  obtain en row where en: "find_envelope d (pd_event_id p) = Some en" "find_delivery d (pd_event_id p) = Some row"
    "pd_journal_sequence p = se_journal_sequence en" "pd_stream_key p = se_stream_key en"
    "pd_stream_sequence p = se_stream_sequence en" "pd_delivery_status p = dr_delivery_status row"
    by (rule scanned_delivery [OF assms(1) keys assms(4)])
  have "find_delivery d (pd_event_id p) \<noteq> None" "q < se_stream_sequence en" using en(2,5) assms(6) by simp_all
  then obtain eid' en' where en': "find_envelope d eid' = Some en'" "same_stream en en'" "se_stream_sequence en' = q"
    "find_delivery d eid' \<noteq> None" using assms(3,5) en(1) unfolding deliveries_gapless_def by blast
  obtain row' where row': "row' \<in> set (db_deliveries d)" "dr_event_id row' = eid'" using en'(4) by (auto dest: select_row_Some_in)
  have "en \<in> set (db_envelopes d)" "en' \<in> set (db_envelopes d)" using en(1) en'(1) by (auto dest: select_row_Some_in)
  then have "se_journal_sequence en' < pd_journal_sequence p" using stream_order(1) [OF seqs _ _ en'(2)] en(3,5) en'(3) assms(6) by simp
  then obtain p' where p': "p' \<in> set ps" "pd_event_id p' = eid'"
    using gate_scan_prefix [OF assms(1,4) row'(1)] en'(1) row'(2) by metis
  obtain en'' row'' where "find_envelope d (pd_event_id p') = Some en''" "find_delivery d (pd_event_id p') = Some row''"
    "pd_journal_sequence p' = se_journal_sequence en''" "pd_stream_key p' = se_stream_key en''"
    "pd_stream_sequence p' = se_stream_sequence en''" "pd_delivery_status p' = dr_delivery_status row''"
    by (rule scanned_delivery [OF assms(1) keys p'(1)])
  with en' en(4) p' that show ?thesis by (simp add: same_stream_def)
qed

lemma recovered_seqs:
  "s \<in> set (replicated_seqs (map recovered_state ps) k) \<longleftrightarrow>
     (\<exists>p \<in> set ps. pd_stream_key p = k \<and> pd_stream_sequence p = s \<and> pd_delivery_status p = ''REPLICATED'')"
  "s \<in> set (blocking_seqs (map recovered_state ps) k) \<longleftrightarrow>
     (\<exists>p \<in> set ps. pd_stream_key p = k \<and> pd_stream_sequence p = s \<and> pd_delivery_status p \<noteq> ''REPLICATED'')"
  by (auto simp: replicated_seqs_def blocking_seqs_def filter_map comp_def recovered_state_def)

lemma recovered_delivered:
  assumes scan: "scan_delivery_gate_states_db e limit d = ScanOk ps" and inv: "journal_inv d" "deliveries_gapless d"
    and q: "1 \<le> q" "q < gate_next (recover_from_scan (map recovered_state ps) g) k"
  shows "delivered d k q"
proof -
  let ?st = "map recovered_state ps"
  let ?R = "set (replicated_seqs ?st k)" and ?B = "set (blocking_seqs ?st k)"
  have keys: "keys_ok d" using inv(1) by (simp add: journal_inv_def)
  have free: "list_all (\<lambda>r. \<not> rs_in_flight r) ?st" by (simp add: list_all_iff recovered_state_def)
  have held: "q \<notin> ?B"
    using q(2) Min_le [of ?B q] by (auto simp: recover_next [OF free] split: if_splits)
  have "\<exists>p \<in> set ps. pd_stream_key p = k \<and> q \<le> pd_stream_sequence p"
  proof (cases "blocking_seqs ?st k = []")
    case True
    have "Max (insert 0 ?R) \<in> insert 0 ?R" by (rule Max_in) simp_all
    with True q have "Max (insert 0 ?R) \<in> ?R" "q \<le> Max (insert 0 ?R)" by (auto simp: recover_next [OF free])
    then show ?thesis unfolding recovered_seqs by auto
  next
    case False
    then have "Min ?B \<in> ?B" "q \<le> Min ?B" using q(2) Min_in [of ?B] by (auto simp: recover_next [OF free])
    then show ?thesis unfolding recovered_seqs by auto
  qed
  then obtain p where p: "p \<in> set ps" "pd_stream_key p = k" "q \<le> pd_stream_sequence p" by blast
  obtain p' where p': "p' \<in> set ps" "pd_stream_key p' = k" "pd_stream_sequence p' = q"
  proof (cases "q = pd_stream_sequence p")
    case False
    with p(3) have "q < pd_stream_sequence p" by simp
    from scan_predecessor [OF scan inv p(1) q(1) this] p(2) that show ?thesis by metis
  qed (use p that in blast)
  then have "pd_delivery_status p' = ''REPLICATED''" using held unfolding recovered_seqs by blast
  from scan_replicated [OF scan keys p'(1) this] p' show ?thesis by simp
qed

lemma recover_inv:
  assumes inv: "service_inv ord sha sv" and rec: "recover e sv = (r, sv')"
    and gapless: "ord \<Longrightarrow> deliveries_gapless (lj_db (sv_journal sv))"
  shows "service_inv ord sha sv'"
  using rec
proof (cases rule: recover_cases)
  case (2 ps)
  let ?g = "recover_from_scan (map recovered_state ps) (sv_gate sv)" and ?d = "lj_db (sv_journal sv)"
  have reach: "journal_reach sha (sv_journal sv)" using inv by (simp add: service_inv_def)
  then have ji: "journal_inv ?d" by (rule journal_reach_inv)
  then have "keys_ok ?d" by (simp add: journal_inv_def)
  then have "seq_ok (pd_stream_sequence p)" if "p \<in> set ps" for p
    using scanned_delivery [OF 2(1) _ that] stream_sequence_ok [OF reach] by metis
  then have "gate_ok ?g" by (intro recover_gate_ok) (simp add: list_all_iff recovered_state_def)
  moreover have "ord \<longrightarrow> (\<forall>k q. 1 \<le> q \<and> q < gate_next ?g k \<longrightarrow> delivered ?d k q)"
    using recovered_delivered [OF 2(1) ji gapless] by blast
  ultimately show ?thesis using inv 2(3) by (simp add: service_inv_def)
qed (use inv in simp)

lemma other_inv:
  assumes "service_inv ord sha sv" "journal_step sha (sv_journal sv) j"
  shows "service_inv ord sha (sv\<lparr>sv_journal := j\<rparr>)"
proof -
  have "(journal_step sha)\<^sup>*\<^sup>* (sv_journal sv) j" "gate_ok (sv_gate sv)" using assms by (auto simp: service_inv_def)
  then show ?thesis by (intro service_inv_steps [OF assms(1), of j "sv_gate sv"]) simp_all
qed

lemma shutdown_inv: "service_inv ord sha sv \<Longrightarrow> service_inv ord sha (service_shutdown sv)"
  by (simp add: service_inv_def service_shutdown_def)

lemma start_inv: "journal_reach sha j \<Longrightarrow> service_inv ord sha (new_service j profile)"
  by (auto simp: service_inv_def new_service_def gate_next_def stream_next_def new_gate_def gate_entry_def fresh_stream_def)
    (simp add: gate_ok_def gate_entry_def)

lemma service_step_inv: "service_step sha sv sv' \<Longrightarrow> service_inv False sha sv \<Longrightarrow> service_inv False sha sv'"
  by (induction rule: service_step.induct) (blast intro: attempt_inv recover_inv shutdown_inv other_inv)+

lemma service_reach_inv: "service_reach sha sv \<Longrightarrow> service_inv False sha sv"
  by (induction rule: service_reach.induct) (blast intro: start_inv service_step_inv)+

lemma ordered_reach_inv: "ordered_reach sha sv \<Longrightarrow> service_inv True sha sv"
  by (induction rule: ordered_reach.induct) (blast intro: start_inv attempt_inv recover_inv shutdown_inv other_inv)+

lemma service_steps_reach: "(service_step sha)\<^sup>*\<^sup>* sv sv' \<Longrightarrow> service_reach sha sv \<Longrightarrow> service_reach sha sv'"
  by (induction rule: rtranclp_induct) (auto intro: stepped)

text \<open>Every step of the service is a sequence of journal steps.\<close>

lemma attempt_journal_steps:
  assumes "attempt_sha sha a" "attempt_delivery a eid sv = (r, sv')"
  shows "(journal_step sha)\<^sup>*\<^sup>* (sv_journal sv) (sv_journal sv')"
  using assms
proof (cases rule: attempt_cases)
  case (sent c routing payload)
  then have "(journal_step sha)\<^sup>*\<^sup>* (sv_journal (meanwhile a CallPayload sv)) (sv_journal sv')" by (auto simp: sent_effect_def Let_def)
  then show ?thesis by (rule rtranclp_trans [OF meanwhile_steps [OF assms(1)]])
qed (auto simp: unconfirmed_def)

lemma service_step_journal: "service_step sha sv sv' \<Longrightarrow> (journal_step sha)\<^sup>*\<^sup>* (sv_journal sv) (sv_journal sv')"
proof (induction rule: service_step.induct)
  case (sv_attempt a eid sv r sv')
  then show ?case by (rule attempt_journal_steps)
next
  case (sv_recover e sv r sv')
  from sv_recover(1) show ?case by (cases rule: recover_cases) auto
qed (auto simp: service_shutdown_def)

lemma replicated_at_step: "db_step sha d d' \<Longrightarrow> replicated_at d eid p q \<Longrightarrow> replicated_at d' eid p q"
  unfolding replicated_at_def by (elim exE conjE) (drule (2) db_step_replicated, auto simp: same_replication_def)

lemma replicated_at_steps:
  "(journal_step sha)\<^sup>*\<^sup>* j j' \<Longrightarrow> journal_reach sha j \<Longrightarrow> replicated_at (lj_db j) eid p q \<Longrightarrow> replicated_at (lj_db j') eid p q"
proof (induction rule: rtranclp_induct)
  case (step y z)
  then have "journal_inv (lj_db y)" using journal_steps_reach journal_reach_inv by blast
  with step journal_step_db replicated_at_step show ?case by blast
qed

text \<open>The payload read in an attempt is the one stored with the event, whatever happened in between.\<close>

lemma payload_meanwhile:
  assumes inv: "service_inv ord sha sv" and sha: "attempt_sha sha a" and en: "find_envelope (lj_db (sv_journal sv)) eid = Some en"
    and "cleared a eid sv c routing payload"
  obtains b where "find_payload (lj_db (sv_journal sv)) eid = Some b" "pb_payload b = payload"
    "se_payload_digest en = bytes_of (sha payload)"
proof -
  have reach: "journal_reach sha (sv_journal sv)" using inv by (simp add: service_inv_def)
  obtain b where b: "find_payload (lj_db (sv_journal sv)) eid = Some b" "se_payload_digest en = bytes_of (sha (pb_payload b))"
    using journal_reach_payloads_ok [OF reach] en unfolding payloads_ok_def by blast
  have "find_payload (lj_db (sv_journal (meanwhile a CallPayload sv))) eid = Some b"
    using journal_steps_facts [OF meanwhile_steps [OF sha] journal_reach_inv [OF reach] journal_reach_events_ok [OF reach]] b(1) by blast
  with assms(4) have "pb_payload b = payload" by (auto simp: cleared_def read_payload_Found)
  with b show ?thesis by (intro that [of b]) simp_all
qed

subsection \<open>What the service promises\<close>

text \<open>The gate can tell the streams of the journal apart: no two of them share a stream key.\<close>

definition stream_keys_separate :: "db \<Rightarrow> bool" where
  "stream_keys_separate d \<longleftrightarrow>
     (\<forall>en \<in> set (db_envelopes d). \<forall>en' \<in> set (db_envelopes d). se_stream_key en' = se_stream_key en \<longrightarrow> same_stream en en')"

text \<open>A stored event of a stream whose sequence is delivered under the key of the stream is replicated.\<close>

lemma delivered_in_stream:
  assumes "journal_inv d" "stream_keys_separate d" "find_envelope d eid = Some en" "find_envelope d eid' = Some en'" "same_stream en en'"
    and "delivered d (se_stream_key en) (se_stream_sequence en')"
  obtains row where "find_delivery d eid' = Some row" "dr_delivery_status row = ''REPLICATED''"
proof -
  from assms(6) obtain x ex row where x: "find_envelope d x = Some ex" "se_stream_key ex = se_stream_key en"
    "se_stream_sequence ex = se_stream_sequence en'" and row: "find_delivery d x = Some row" "dr_delivery_status row = ''REPLICATED''"
    by (auto simp: delivered_def)
  have mem: "ex \<in> set (db_envelopes d)" "en' \<in> set (db_envelopes d)" and ids: "se_event_id ex = x" "se_event_id en' = eid'"
    using x(1) assms(4) by (auto dest: select_row_Some_in)
  have "se_stream_key en' = se_stream_key ex" using x(2) assms(5) by (simp add: same_stream_def)
  then have "same_stream ex en'" using assms(2) mem by (simp add: stream_keys_separate_def)
  then have "en' = ex" using stream_order(2) [of d ex en'] mem assms(1) x(3) by (simp add: journal_inv_def)
  with ids row that show ?thesis by simp
qed

text \<open>
  C6: in-order delivery, from the journal to the producer. Take a service that was started and then made
  attempts, was shut down, saw calls of other users of the journal, and recovered where no delivery row
  lacked the row of a predecessor in its stream. Whenever it hands a request to the producer, it hands
  out exactly one, for an accepted event, with the event's stored and verified payload, under a safe
  profile and while not shut down; and where no two streams of the journal share a stream key, every
  stored event of the same stream (installation, namespace, type and key) with a smaller sequence already
  has a \<^verbatim>\<open>REPLICATED\<close> delivery row. Other users may call the journal between the calls of the attempt too.
\<close>

theorem send_waits_for_predecessors:
  assumes "ordered_reach sha sv" "attempt_sha sha a" "attempt_delivery a eid sv = (r, sv')" "sv_sent sv' \<noteq> sv_sent sv"
  shows "\<exists>req en b. sv_sent sv' = sv_sent sv @ [req] \<and> sq_event_id req = eid \<and>
    find_envelope (lj_db (sv_journal sv)) eid = Some en \<and> find_payload (lj_db (sv_journal sv)) eid = Some b \<and>
    sq_payload req = pb_payload b \<and> se_payload_digest en = bytes_of (sha (sq_payload req)) \<and>
    is_profile_safe_for_delivery (sv_profile sv) = Inr () \<and> \<not> sv_shutdown sv \<and>
    (stream_keys_separate (lj_db (sv_journal sv)) \<longrightarrow>
      (\<forall>eid' en'. find_envelope (lj_db (sv_journal sv)) eid' = Some en' \<longrightarrow> same_stream en en' \<longrightarrow>
         se_stream_sequence en' < se_stream_sequence en \<longrightarrow>
         (\<exists>row. find_delivery (lj_db (sv_journal sv)) eid' = Some row \<and> dr_delivery_status row = ''REPLICATED'')))"
  using assms(2,3)
proof (cases rule: attempt_cases)
  case (sent c routing payload)
  let ?req = "send_request_of eid (sv_profile sv) routing payload" and ?d = "lj_db (sv_journal sv)"
  have inv: "service_inv True sha sv" by (rule ordered_reach_inv [OF assms(1)])
  have reach: "journal_reach sha (sv_journal sv)" using inv by (simp add: service_inv_def)
  obtain en where en: "find_envelope ?d eid = Some en" "dc_stream_key c = se_stream_key en"
    "dc_stream_sequence c = se_stream_sequence en" "dc_stream_sequence c = gate_next (sv_gate sv) (dc_stream_key c)"
    by (rule admitted_next [OF inv sent(1)])
  have "sv_sent sv' = sv_sent sv @ [?req]" using sent(3) by (auto simp: sent_effect_def Let_def)
  moreover obtain b where "find_payload ?d eid = Some b" "pb_payload b = payload"
    "se_payload_digest en = bytes_of (sha payload)" by (rule payload_meanwhile [OF inv assms(2) en(1) sent(2)])
  moreover have "is_profile_safe_for_delivery (sv_profile sv) = Inr ()" "\<not> sv_shutdown sv"
    using sent(2) by (auto simp: cleared_def pre_send_checks_def Let_def split: sum.splits if_splits)
  moreover have "\<exists>row. find_delivery ?d eid' = Some row \<and> dr_delivery_status row = ''REPLICATED''"
    if "stream_keys_separate ?d" "find_envelope ?d eid' = Some en'" "same_stream en en'" "se_stream_sequence en' < se_stream_sequence en"
    for eid' en'
  proof -
    have "1 \<le> se_stream_sequence en'" using stream_sequence_ok [OF reach that(2)] by (simp add: seq_ok_def)
    then have "delivered ?d (se_stream_key en) (se_stream_sequence en')" using inv en(2-4) that(4) by (simp add: service_inv_def)
    with delivered_in_stream [OF journal_reach_inv [OF reach] that(1) en(1) that(2,3)] show ?thesis by blast
  qed
  ultimately show ?thesis using en(1) by (intro exI [of _ ?req] exI [of _ en] exI [of _ b]) (simp add: send_request_of_def)
next
  case (held c)
  then have "sv_sent sv' = sv_sent sv" by (auto simp: unconfirmed_def)
  with assms(4) show ?thesis by simp
qed (use assms(4) in simp_all)

text \<open>An answer \<^verbatim>\<open>Replicated\<close> agrees with the journal when it is given.\<close>

lemma replicated_answer_at:
  assumes "attempt_sha sha a" "attempt_delivery a eid sv = (Done (OutReplicated p q), sv')"
  shows "replicated_at (lj_db (sv_journal sv')) eid p q"
  using assms
proof (cases rule: attempt_cases)
  case (known c p' q')
  from known(1) have "load_delivery_candidate (at_env a CallCandidate) (lj_db (sv_journal sv)) eid = CandidateFound c"
    by (simp add: admitted_def)
  then have "load_delivery_state (at_env a CallCandidate) (lj_db (sv_journal sv)) eid = DeliveryFound (dc_delivery_state c)"
    by (rule candidate_Found)
  with known show ?thesis by (auto simp: replicated_at_def load_delivery_Found) (simp_all add: delivery_row_of_def)
next
  case (sent c routing payload)
  then obtain succ cas where
    "confirm_replicated_delivery (at_env a CallConfirm) eid (ds_delivery_revision (dc_delivery_state c))
      (confirmation_of (sv_profile sv) routing succ) (at_other a CallConfirm (at_other a CallPayload (sv_journal sv)))
      = (Done cas, sv_journal sv')"
    "cas \<in> {Updated, AlreadyConfirmed}" "ss_partition succ = p" "ss_offset succ = q"
    by (auto simp: sent_effect_def confirmed_send_def Let_def)
  from confirm_replicated_at [OF this(1,2)] this(3,4) show ?thesis by (simp add: confirmation_of_def)
qed (auto simp: unconfirmed_def)

lemma replicated_at_service_steps:
  assumes "(service_step sha)\<^sup>*\<^sup>* sv sv'" "service_reach sha sv" "replicated_at (lj_db (sv_journal sv)) eid p q"
  shows "replicated_at (lj_db (sv_journal sv')) eid p q"
  using assms(1)
proof (induction rule: rtranclp_induct)
  case (step x y)
  from step.hyps(1) assms(2) have inv: "service_inv False sha x" by (rule service_reach_inv [OF service_steps_reach])
  have "(journal_step sha)\<^sup>*\<^sup>* (sv_journal x) (sv_journal y)" by (rule service_step_journal [OF step.hyps(2)])
  then show ?case using step.IH inv by (auto simp: service_inv_def intro: replicated_at_steps)
qed (rule assms(3))

text \<open>
  C7: an answer \<^verbatim>\<open>Replicated\<close> is durable. When an attempt answers \<^verbatim>\<open>Replicated\<close> with a partition and an
  offset, the delivery row of the event is \<^verbatim>\<open>REPLICATED\<close> with that partition and offset, and stays so
  whatever the service, other users of the journal and engine failures do next.
\<close>

theorem replicated_answer_is_durable:
  assumes "service_reach sha sv" "attempt_sha sha a" "attempt_delivery a eid sv = (Done (OutReplicated p q), sv')"
    and "(service_step sha)\<^sup>*\<^sup>* sv' sv''"
  shows "replicated_at (lj_db (sv_journal sv'')) eid p q"
  using assms(4)
proof (rule replicated_at_service_steps)
  show "service_reach sha sv'" using assms(1-3) by (auto intro: stepped sv_attempt)
  show "replicated_at (lj_db (sv_journal sv')) eid p q" by (rule replicated_answer_at [OF assms(2,3)])
qed

text \<open>
  C8: a replicated event is never sent again. After an attempt answered \<^verbatim>\<open>Replicated\<close> for an event, no later
  attempt on it hands anything to the producer, whether by the same service, by one that was started anew
  or by another one on the same journal, with any engine failures and any calls of others in between; and if it
  is answered \<^verbatim>\<open>Replicated\<close> again, then with the same partition and offset.
\<close>

theorem replicated_event_is_never_resent:
  assumes "service_reach sha sv" "attempt_sha sha a" "attempt_delivery a eid sv = (Done (OutReplicated p q), sv')"
    and "(journal_step sha)\<^sup>*\<^sup>* (sv_journal sv') (sv_journal w)"
    and "attempt_sha sha b" "attempt_delivery b eid w = (r, w')"
  shows "sv_sent w' = sv_sent w \<and> (\<forall>p' q'. r = Done (OutReplicated p' q') \<longrightarrow> p' = p \<and> q' = q)"
proof -
  have reach: "journal_reach sha (sv_journal sv')"
    using service_reach_inv [of sha sv'] assms(1-3) by (auto simp: service_inv_def intro: stepped sv_attempt)
  note then_at = replicated_at_steps [OF _ reach replicated_answer_at [OF assms(2,3)]]
  have before: "replicated_at (lj_db (sv_journal w)) eid p q" by (rule then_at [OF assms(4)])
  have "(journal_step sha)\<^sup>*\<^sup>* (sv_journal sv') (sv_journal w')"
    using assms(4) attempt_journal_steps [OF assms(5,6)] by (rule rtranclp_trans)
  then have after: "replicated_at (lj_db (sv_journal w')) eid p q" by (rule then_at)
  have "sv_sent w' = sv_sent w" using assms(5,6)
  proof (cases rule: attempt_cases)
    case (sent c routing payload)
    then have "load_delivery_candidate (at_env b CallCandidate) (lj_db (sv_journal w)) eid = CandidateFound c"
      by (simp add: admitted_def)
    then have "load_delivery_state (at_env b CallCandidate) (lj_db (sv_journal w)) eid = DeliveryFound (dc_delivery_state c)"
      by (rule candidate_Found)
    with before have "ds_delivery_status (dc_delivery_state c) = ''REPLICATED''"
      by (auto simp: replicated_at_def load_delivery_Found delivery_row_of_def)
    with sent(2) show ?thesis by (simp add: cleared_def)
  qed (auto simp: unconfirmed_def)
  moreover have "p' = p \<and> q' = q" if "r = Done (OutReplicated p' q')" for p' q'
    using replicated_answer_at [OF assms(5)] assms(6) that after by (auto simp: replicated_at_def) (metis option.inject)+
  ultimately show ?thesis by blast
qed

end
