(* ===== verification/Kafka_Progress.thy ===== *)
theory Kafka_Progress
  imports Kafka_Ordering
begin

text \<open>
  Progress of the delivery service and the witnesses of its properties: without failures the next
  delivery of a stream is sent and confirmed; the failures after which a stream makes no progress.
\<close>

subsection \<open>Progress\<close>

text \<open>An attempt without calls of other users in between, and one without engine failures as well.\<close>

definition undisturbed :: "attempt_env \<Rightarrow> bool" where
  "undisturbed a \<longleftrightarrow> (\<forall>c. at_other a c = (\<lambda>j. j))"

definition attempt_faultless :: "attempt_env \<Rightarrow> bool" where
  "attempt_faultless a \<longleftrightarrow> undisturbed a \<and> (\<forall>c. no_faults (at_env a c))"

lemma meanwhile_undisturbed: "undisturbed a \<Longrightarrow> meanwhile a c sv = sv"
  by (simp add: undisturbed_def meanwhile_def)

lemma candidate_succeeds:
  assumes "journal_reach sha j" "no_faults e" "env_sha e = sha" "find_envelope (lj_db j) eid = Some en"
    "load_delivery_state e (lj_db j) eid = DeliveryFound s"
  obtains c where "load_delivery_candidate e (lj_db j) eid = CandidateFound c" "dc_delivery_state c = s"
proof -
  have ok: "envelope_ok e en" using journal_reach_events_ok [OF assms(1)] assms(3,4) by (auto simp: events_ok_def)
  then obtain ec where ec: "se_envelope_checksum en = bytes_of ec" by (auto simp: envelope_ok_iff)
  with recompute_matches [OF assms(4), of e ec] ok assms(2) have "recompute_envelope_checksum_from_row e (lj_db j) eid = Inr ec"
    by (simp add: no_faults_def)
  with ec assms that show ?thesis by (simp add: load_delivery_candidate_def)
qed

lemma attempt_is_allowed:
  "admitted a eid sv c \<Longrightarrow> \<not> lj_poisoned (sv_journal sv) \<Longrightarrow> attempt_delivery a eid sv = allowed_stage a eid c sv"
  by (simp add: attempt_delivery_def admitted_def journal_call_def get_delivery_candidate_def with_conn_def
      gate_stage_def arith_call_def)

lemma attempt_poisoned:
  "admitted a eid sv c \<Longrightarrow> lj_poisoned (sv_journal sv) \<Longrightarrow> attempt_delivery a eid sv = (Panicked, sv)"
  by (simp add: attempt_delivery_def admitted_def journal_call_def get_delivery_candidate_def with_conn_def)

lemma attempt_is_send:
  assumes "admitted a eid sv c" "cleared a eid sv c routing payload" "\<not> lj_poisoned (sv_journal sv)"
    and "undisturbed a"
  shows "attempt_delivery a eid sv = send_stage a eid c routing payload sv"
proof -
  have "attempt_delivery a eid sv = allowed_stage a eid c sv" by (rule attempt_is_allowed [OF assms(1,3)])
  also have "\<dots> = payload_stage a eid c routing sv"
    using assms(2) by (simp add: allowed_stage_def cleared_def Let_def)
  also have "\<dots> = send_stage a eid c routing payload sv"
    using assms(2-4) by (simp add: payload_stage_def cleared_def journal_call_def read_verified_payload_def with_conn_def
        meanwhile_undisturbed undisturbed_def)
  finally show ?thesis .
qed

lemma attempt_send_confirmed:
  assumes "admitted a eid sv c" "cleared a eid sv c routing payload" "\<not> lj_poisoned (sv_journal sv)" "undisturbed a"
    and "at_send a (send_request_of eid (sv_profile sv) routing payload) = Inr succ"
    and "confirm_replicated_delivery_db (at_env a CallConfirm) eid (ds_delivery_revision (dc_delivery_state c))
      (confirmation_of (sv_profile sv) routing succ) (lj_db (sv_journal sv)) = (Done Updated, d)"
  shows "attempt_delivery a eid sv = (Done (OutReplicated (ss_partition succ) (ss_offset succ)),
    sv\<lparr>sv_journal := (sv_journal sv)\<lparr>lj_db := d\<rparr>,
       sv_gate := mark_completed (dc_stream_key c) (dc_stream_sequence c)
         (mark_in_flight (dc_stream_key c) (dc_stream_sequence c) (sv_gate sv)),
       sv_sent := sv_sent sv @ [send_request_of eid (sv_profile sv) routing payload]\<rparr>)"
  using assms(3,5,6) unfolding attempt_is_send [OF assms(1-4)]
  by (simp add: send_stage_def handle_success_def journal_call_def confirm_replicated_delivery_def with_conn_def answer_def
      meanwhile_undisturbed [OF assms(4)])

lemma pre_send_checks_Inr:
  assumes "pre_send_checks sha profile c = Inr routing"
  shows "resolve_routing sha (routing_input_of c) = Inr routing" "is_profile_safe_for_delivery profile = Inr ()"
    "ds_routing_fingerprint (dc_delivery_state c) = Some (rr_routing_checksum routing)"
    "ds_profile_id (dc_delivery_state c) = Some (kp_profile_id profile)"
    "ds_profile_version (dc_delivery_state c) = Some (kp_profile_version profile)"
    "ds_kafka_topic (dc_delivery_state c) = Some (rr_topic routing)"
  using assms by (auto simp: pre_send_checks_def Let_def split: sum.splits if_splits)

text \<open>
  The service is up and the delivery of \<open>eid\<close> waits at the next sequence of its stream: it is stored and
  verifies, is neither replicated nor blocked, passes the checks, and its revisions can be counted on.
\<close>

definition awaits :: "attempt_env \<Rightarrow> string \<Rightarrow> delivery_service \<Rightarrow> delivery_candidate \<Rightarrow> routing_resolution \<Rightarrow> bool" where
  "awaits a eid sv c routing \<longleftrightarrow> \<not> sv_shutdown sv \<and> \<not> lj_poisoned (sv_journal sv) \<and>
     load_delivery_candidate (at_env a CallCandidate) (lj_db (sv_journal sv)) eid = CandidateFound c \<and>
     ds_delivery_status (dc_delivery_state c) \<notin> {''REPLICATED'', ''DELIVERY_BLOCKED''} \<and>
     pre_send_checks (at_sha a) (sv_profile sv) c = Inr routing \<and>
     dc_stream_sequence c = gate_next (sv_gate sv) (dc_stream_key c) \<and> \<not> gate_busy (sv_gate sv) (dc_stream_key c) \<and>
     gate_room (sv_gate sv) (dc_stream_key c) \<and> in_i64 (ds_delivery_revision (dc_delivery_state c) + 1) \<and>
     (\<exists>l. find_lifecycle (lj_db (sv_journal sv)) eid = Some l \<and> in_i64 (ls_revision l + 1))"

lemma next_delivery_effect:
  assumes reach: "service_reach sha sv" and a: "attempt_sha sha a" "attempt_faultless a"
    and wait: "awaits a eid sv c routing"
    and ack: "\<And>req. at_send a req = Inr \<lparr>ss_topic = sq_topic req, ss_partition = p req, ss_offset = q req\<rparr>"
  obtains payload d req where "read_verified_payload_impl (at_env a CallPayload) (lj_db (sv_journal sv)) eid = PayloadFound payload"
    "req = send_request_of eid (sv_profile sv) routing payload"
    "confirm_replicated_delivery_db (at_env a CallConfirm) eid (ds_delivery_revision (dc_delivery_state c))
       (confirmation_of (sv_profile sv) routing \<lparr>ss_topic = rr_topic routing, ss_partition = p req, ss_offset = q req\<rparr>)
       (lj_db (sv_journal sv)) = (Done Updated, d)"
    "replicated_at d eid (p req) (q req)"
    "attempt_delivery a eid sv = (Done (OutReplicated (p req) (q req)), sv\<lparr>sv_journal := (sv_journal sv)\<lparr>lj_db := d\<rparr>,
       sv_gate := mark_completed (dc_stream_key c) (dc_stream_sequence c)
         (mark_in_flight (dc_stream_key c) (dc_stream_sequence c) (sv_gate sv)), sv_sent := sv_sent sv @ [req]\<rparr>)"
proof -
  let ?d = "lj_db (sv_journal sv)" and ?k = "dc_stream_key c" and ?s = "dc_stream_sequence c"
  have up: "\<not> sv_shutdown sv" "\<not> lj_poisoned (sv_journal sv)"
    and c: "load_delivery_candidate (at_env a CallCandidate) ?d eid = CandidateFound c"
      "ds_delivery_status (dc_delivery_state c) \<notin> {''REPLICATED'', ''DELIVERY_BLOCKED''}"
      "pre_send_checks sha (sv_profile sv) c = Inr routing"
    and turn: "?s = gate_next (sv_gate sv) ?k" "\<not> gate_busy (sv_gate sv) ?k" "gate_room (sv_gate sv) ?k"
    and rev: "in_i64 (ds_delivery_revision (dc_delivery_state c) + 1)" "\<exists>l. find_lifecycle ?d eid = Some l \<and> in_i64 (ls_revision l + 1)"
    using wait a(1) by (simp_all add: awaits_def attempt_sha_def)
  have jr: "journal_reach sha (sv_journal sv)" and g: "gate_ok (sv_gate sv)"
    using service_reach_inv [OF reach] by (simp_all add: service_inv_def)
  have e: "no_faults (at_env a x)" "env_sha (at_env a x) = sha" for x using a by (simp_all add: attempt_faultless_def attempt_sha_def)
  obtain en where en: "find_envelope ?d eid = Some en" "?k = se_stream_key en" "?s = se_stream_sequence en"
    and ld: "load_delivery_state (at_env a CallCandidate) ?d eid = DeliveryFound (dc_delivery_state c)"
    using c(1) by (rule candidate_Found)
  have s: "seq_ok ?s" using stream_sequence_ok [OF jr en(1)] en(3) by simp
  have adm: "admitted a eid sv c" using up(1) c(1) code_gate.allowed_next [OF g turn(3)] turn s by (simp add: admitted_def)
  obtain payload where pl: "read_verified_payload_impl (at_env a CallPayload) ?d eid = PayloadFound payload"
    by (rule payload_found [OF jr e en(1)])
  have clr: "cleared a eid sv c routing payload" using up(1) c pl a by (simp add: cleared_def attempt_sha_def attempt_faultless_def undisturbed_def)
  define req where "req = send_request_of eid (sv_profile sv) routing payload"
  let ?succ = "\<lparr>ss_topic = rr_topic routing, ss_partition = p req, ss_offset = q req\<rparr>"
  have "sq_topic req = rr_topic routing" by (simp add: req_def send_request_of_def)
  then have succ: "at_send a (send_request_of eid (sv_profile sv) routing payload) = Inr ?succ" using ack [of req] by (simp add: req_def)
  obtain st l where st: "get_status_impl (at_env a CallConfirm) ?d eid = StatusFound st" "find_lifecycle ?d eid = Some l" "describes st en l"
    by (rule status_found [OF journal_reach_inv [OF jr] journal_reach_events_ok [OF jr] e en(1)])
  have ld': "load_delivery_state (at_env a CallConfirm) ?d eid = DeliveryFound (dc_delivery_state c)"
    using ld e by (simp add: load_delivery_Found no_faults_def delivery_ok_def compute_delivery_checksum_def)
  obtain d where d: "confirm_replicated_delivery_db (at_env a CallConfirm) eid (ds_delivery_revision (dc_delivery_state c))
      (confirmation_of (sv_profile sv) routing ?succ) ?d = (Done Updated, d)"
    using confirm_succeeds [OF e(1) _ ld' _ st(1), of "ds_delivery_revision (dc_delivery_state c)" "confirmation_of (sv_profile sv) routing ?succ"]
      journal_reach_inv [OF jr] c(2) pre_send_checks_Inr [OF c(3)] rev st(2,3)
    by (auto simp: journal_inv_def confirm_guards_Inr confirmation_of_def describes_def)
  have rep: "replicated_at d eid (p req) (q req)"
    using confirm_replicated_at [of "at_env a CallConfirm" eid "ds_delivery_revision (dc_delivery_state c)"
        "confirmation_of (sv_profile sv) routing ?succ" "sv_journal sv" Updated "(sv_journal sv)\<lparr>lj_db := d\<rparr>"] up(2) d
    by (simp add: confirm_replicated_delivery_def with_conn_def confirmation_of_def)
  from attempt_send_confirmed [OF adm clr up(2) _ succ d] a(2) show ?thesis
    by (intro that [OF pl req_def d rep]) (simp add: req_def attempt_faultless_def)
qed

text \<open>After a confirmed send the stream is at its next sequence, with nothing in flight; other streams are as before.\<close>

lemma gate_after_delivery:
  assumes "gate_ok g" "seq_ok s" "s = gate_next g k"
  shows "gate_next (mark_completed k s (mark_in_flight k s g)) = (gate_next g)(k := s + 1)"
    "gate_busy (mark_completed k s (mark_in_flight k s g)) = (gate_busy g)(k := False)"
    "gate_room (mark_completed k s (mark_in_flight k s g)) k \<longleftrightarrow> in_i64 (s + 1)"
proof -
  note st = code_gate.start_spec [OF assms]
  have "s = gate_next (mark_in_flight k s g) k" using st assms(3) by simp
  from code_gate.complete_spec [OF conjunct1 [OF st] assms(2) this] st
  show "gate_next (mark_completed k s (mark_in_flight k s g)) = (gate_next g)(k := s + 1)"
    "gate_busy (mark_completed k s (mark_in_flight k s g)) = (gate_busy g)(k := False)" by simp_all
  show "gate_room (mark_completed k s (mark_in_flight k s g)) k \<longleftrightarrow> in_i64 (s + 1)"
    by (simp add: gate_room_def mark_completed_def Let_def)
qed

lemma candidate_sequence_ok:
  assumes "service_reach sha sv" "load_delivery_candidate e (lj_db (sv_journal sv)) eid = CandidateFound c"
  shows "gate_ok (sv_gate sv)" "seq_ok (dc_stream_sequence c)"
proof -
  obtain en where "find_envelope (lj_db (sv_journal sv)) eid = Some en" "dc_stream_sequence c = se_stream_sequence en"
    using assms(2) by (rule candidate_Found)
  with service_reach_inv [OF assms(1)] stream_sequence_ok [of sha "sv_journal sv" eid en]
  show "gate_ok (sv_gate sv)" "seq_ok (dc_stream_sequence c)" by (simp_all add: service_inv_def)
qed

text \<open>One attempt on the next delivery of a stream, without failures, makes progress.\<close>

lemma next_delivery:
  assumes reach: "service_reach sha sv" and a: "attempt_sha sha a" "attempt_faultless a"
    and wait: "awaits a eid sv c routing"
    and ack: "\<And>req. at_send a req = Inr \<lparr>ss_topic = sq_topic req, ss_partition = p, ss_offset = q\<rparr>"
  shows "\<exists>sv'. attempt_delivery a eid sv = (Done (OutReplicated p q), sv') \<and>
    gate_next (sv_gate sv') (dc_stream_key c) = dc_stream_sequence c + 1 \<and>
    length (sv_sent sv') = Suc (length (sv_sent sv)) \<and> replicated_at (lj_db (sv_journal sv')) eid p q"
proof (rule next_delivery_effect [OF reach a wait ack])
  have c: "load_delivery_candidate (at_env a CallCandidate) (lj_db (sv_journal sv)) eid = CandidateFound c"
    "dc_stream_sequence c = gate_next (sv_gate sv) (dc_stream_key c)" using wait by (simp_all add: awaits_def)
  note g = gate_after_delivery [OF candidate_sequence_ok [OF reach c(1)] c(2)]
  fix d req
  assume "replicated_at d eid p q"
    "attempt_delivery a eid sv = (Done (OutReplicated p q), sv\<lparr>sv_journal := (sv_journal sv)\<lparr>lj_db := d\<rparr>,
       sv_gate := mark_completed (dc_stream_key c) (dc_stream_sequence c)
         (mark_in_flight (dc_stream_key c) (dc_stream_sequence c) (sv_gate sv)), sv_sent := sv_sent sv @ [req]\<rparr>)"
  then show ?thesis by (simp add: g)
qed

subsection \<open>A sample service\<close>

definition sample_kafka_profile :: kafka_production_profile where
  "sample_kafka_profile = \<lparr>kp_profile_id = ''prof'', kp_profile_version = 1, kp_replication_factor = 5, kp_min_insync_replicas = 5,
     kp_required_acks = ''all'', kp_enable_idempotence = True, kp_delivery_timeout_ms = 1, kp_request_timeout_ms = 1,
     kp_linger_ms = 0, kp_max_in_flight_requests_per_connection = 1, kp_compression = ''none'', kp_retention_ms = 1,
     kp_retention_bytes = 1, kp_cleanup_policy = ''delete'', kp_unclean_leader_election = False,
     kp_topic_deletion_policy = ''PROTECTED''\<rparr>"

definition sample_attempt :: attempt_env where
  "sample_attempt = \<lparr>at_env = (\<lambda>_. sample_env), at_other = (\<lambda>_ j. j), at_sha = env_sha sample_env,
     at_send = (\<lambda>req. Inr \<lparr>ss_topic = sq_topic req, ss_partition = 0, ss_offset = 7\<rparr>), at_now_ms = 1000, at_checks = True\<rparr>"

definition sample_routing_input :: routing_input where
  "sample_routing_input = \<lparr>ri_installation_id = ''i'', ri_namespace = ''n'', ri_logical_stream_type = ''t'',
     ri_stream_key = ''k'', ri_event_type = ''et'', ri_routing_version = 1\<rparr>"

definition sample_routing :: routing_resolution where
  "sample_routing = \<lparr>rr_topic = ''craftrelay.i.n.events'', rr_partition_key = join_nul [''i'', ''n'', ''t'', ''k''],
     rr_routing_checksum = env_sha sample_env (str_bytes (routing_canonical sample_routing_input)), rr_routing_version = 1\<rparr>"

lemma sample_attempt_ok: "attempt_sha (env_sha sample_env) sample_attempt" "attempt_faultless sample_attempt"
  by (simp_all add: attempt_sha_def attempt_faultless_def undisturbed_def sample_attempt_def)

lemma sample_kafka_profile_safe: "is_profile_safe_for_delivery sample_kafka_profile = Inr ()"
  by (simp add: is_profile_safe_for_delivery_def validate_p0_production_profile_def validate_production_base_def
      validate_kafka_profile_def production_base_profile_def sample_kafka_profile_def)

lemma sample_resolve: "resolve_routing (env_sha sample_env) sample_routing_input = Inr sample_routing"
  by (simp add: resolve_routing_def sample_routing_def) (simp add: sample_routing_input_def)

text \<open>Accepting an event of the sample stream and creating its delivery makes it a candidate that passes the checks.\<close>

definition sample_stream_request :: "accept_request \<Rightarrow> bool" where
  "sample_stream_request req \<longleftrightarrow> aq_installation_id req = ''i'' \<and> aq_namespace req = ''n'' \<and> aq_logical_stream_type req = ''t'' \<and>
     aq_stream_key req = ''k'' \<and> aq_event_type req = ''et'' \<and> aq_routing_version req = 1 \<and> in_i32 (aq_schema_version req)"

definition sample_pending_state :: "string \<Rightarrow> delivery_state_record" where
  "sample_pending_state eid = stored sample_env (pending_record sample_env eid (rr_routing_checksum sample_routing) ''prof'' 1
     (rr_topic sample_routing))"

lemma delivery_added:
  assumes reach: "journal_reach (env_sha sample_env) j" and req: "sample_stream_request req"
    and acc: "accept sample_env req j = (Done (AcceptAccepted a), j1)"
  obtains j' c js where "(journal_step (env_sha sample_env))\<^sup>*\<^sup>* j j'" "\<not> lj_poisoned j'"
    "load_delivery_candidate sample_env (lj_db j') (aq_event_id req) = CandidateFound c"
    "dc_delivery_state c = sample_pending_state (aq_event_id req)" "dc_stream_key c = ''k''" "dc_stream_sequence c = ac_stream_sequence a"
    "pre_send_checks (env_sha sample_env) sample_kafka_profile c = Inr sample_routing"
    "\<exists>l. find_lifecycle (lj_db j') (aq_event_id req) = Some l \<and> in_i64 (ls_revision l + 1)"
    "db_envelopes (lj_db j') = db_envelopes (lj_db j) @ [new_envelope_row sample_env req js (ac_stream_sequence a)]"
    "lj_config j' = lj_config j" "\<not> lj_shutdown j'"
proof -
  let ?sha = "env_sha sample_env" and ?eid = "aq_event_id req"
  let ?s = "sample_pending_state ?eid"
  have rng: "in_i32 (aq_schema_version req)" using req by (simp add: sample_stream_request_def)
  note step1 = step_accept [OF refl rng acc]
  have reach1: "journal_reach ?sha j1" by (rule again [OF reach step1])
  obtain js ss where abs: "event_absent (lj_db j) ?eid" and db: "lj_db j1 = record_attempt sample_env (event_added sample_env req js ss (lj_db j))
      ?eid ''NEWLY_ACCEPTED'' None" and a: "a = \<lparr>ac_event_id = ?eid, ac_journal_sequence = js, ac_stream_sequence = ss,
        ac_lifecycle_revision = 1, ac_envelope_checksum = accept_envelope_checksum sample_env req js ss, ac_delivery_status = LocalAccepted\<rparr>"
    by (rule accept_insert_Accepted [OF accept_Accepted [OF acc]])
  let ?row = "new_envelope_row sample_env req js ss"
  have en: "find_envelope (lj_db j1) ?eid = Some ?row" "find_lifecycle (lj_db j1) ?eid = Some (new_lifecycle_row sample_env req)"
    unfolding db by (simp_all add: find_event_added [OF abs])
  have "keys_ok (lj_db j)" using journal_reach_inv [OF reach] by (simp add: journal_inv_def)
  then have "find_delivery (lj_db j) ?eid = None" using abs by (auto simp: event_absent_def select_row_None keys_ok_def simp del: set_map)
  then have none: "find_delivery (lj_db j1) ?eid = None" by (simp add: db event_added_def)
  from create_succeeds [OF no_faults_sample _ none] en(1) obtain d where
    d: "create_delivery_pending_db sample_env ?eid (rr_routing_checksum sample_routing) ''prof'' 1 (rr_topic sample_routing) (lj_db j1) =
      (Done Updated, d)" by blast
  note d_eq = create_Updated(3) [OF d]
  have st: "\<not> lj_poisoned j1" "\<not> lj_shutdown j1" "lj_config j1 = lj_config j"
    using accept_Accepted_state [OF acc] acc by (auto elim!: accept_cases)
  let ?j = "j1\<lparr>lj_db := d\<rparr>"
  have "create_delivery_pending sample_env ?eid (rr_routing_checksum sample_routing) ''prof'' 1 (rr_topic sample_routing) j1 =
      (Done Updated, ?j)" using d st(1) by (simp add: create_delivery_pending_def with_conn_def)
  note step2 = step_create [OF refl this]
  have steps: "(journal_step ?sha)\<^sup>*\<^sup>* j ?j" using step1 step2 by (meson converse_rtranclp_into_rtranclp r_into_rtranclp)
  have "dr_event_id (delivery_row_of ?s) = ?eid" by (simp add: delivery_row_of_def sample_pending_state_def stored_def pending_record_def)
  then have row: "find_delivery d ?eid = Some (delivery_row_of ?s)" using none by (simp add: d_eq select_row_append sample_pending_state_def)
  have "delivery_ok sample_env ?s" unfolding sample_pending_state_def
    by (rule pending_record_ok) (simp_all add: sample_routing_def in_i32_def i32_max_def)
  with row have ld: "load_delivery_state sample_env (lj_db ?j) ?eid = DeliveryFound ?s" by (simp add: load_delivery_Found)
  have en': "find_envelope (lj_db ?j) ?eid = Some ?row" using en by (simp add: d_eq)
  obtain c where c: "load_delivery_candidate sample_env (lj_db ?j) ?eid = CandidateFound c" "dc_delivery_state c = ?s"
    by (rule candidate_succeeds [OF again [OF reach1 step2] no_faults_sample refl en' ld])
  have f: "dc_stream_key c = ''k''" "dc_stream_sequence c = ss" "routing_input_of c = sample_routing_input"
    using c(1) by (rule candidate_Found, use en' req in \<open>simp add: new_envelope_row_def sample_stream_request_def sample_routing_input_def\<close>)+
  have "pre_send_checks ?sha sample_kafka_profile c = Inr sample_routing"
    using sample_resolve unfolding pre_send_checks_def f(3) c(2) Let_def
    by (simp add: sample_kafka_profile_safe sample_pending_state_def stored_def pending_record_def) (simp add: sample_kafka_profile_def)
  moreover have "find_lifecycle (lj_db ?j) ?eid = Some (new_lifecycle_row sample_env req)" using en(2) by (simp add: d_eq)
  moreover have "db_envelopes (lj_db ?j) = db_envelopes (lj_db j) @ [?row]" by (simp add: d_eq db event_added_def)
  ultimately show ?thesis using c f st
    by (intro that [OF steps, of c js]) (simp_all add: a new_lifecycle_row_def in_i64_def i64_max_def)
qed

text \<open>The first event of the sample stream with a pending delivery, and a fresh service on its journal.\<close>

lemma sample_service:
  obtains j c js where "ordered_reach (env_sha sample_env) (new_service j sample_kafka_profile)" "\<not> lj_poisoned j"
    "load_delivery_candidate sample_env (lj_db j) ''e1'' = CandidateFound c" "dc_delivery_state c = sample_pending_state ''e1''"
    "dc_stream_key c = ''k''" "dc_stream_sequence c = 1"
    "pre_send_checks (env_sha sample_env) sample_kafka_profile c = Inr sample_routing"
    "\<exists>l. find_lifecycle (lj_db j) ''e1'' = Some l \<and> in_i64 (ls_revision l + 1)"
    "db_envelopes (lj_db j) = [new_envelope_row sample_env sample_request js 1]" "lj_config j = default_journal_config" "\<not> lj_shutdown j"
proof -
  obtain j1 where acc: "accept sample_env sample_request sample_journal = (Done (AcceptAccepted sample_accepted), j1)"
    using sample_accept by blast
  have start: "journal_reach (env_sha sample_env) sample_journal" by (rule fresh) (simp add: sample_journal_def)
  have req: "sample_stream_request sample_request" by (simp add: sample_stream_request_def sample_request_def in_i32_def i32_max_def)
  have "aq_event_id sample_request = ''e1''" "ac_stream_sequence sample_accepted = 1" "db_envelopes (lj_db sample_journal) = []"
    "lj_config sample_journal = default_journal_config"
    by (simp_all add: sample_request_def sample_accepted_def sample_journal_def empty_db_def)
  with delivery_added [OF start req acc] show ?thesis
    by (metis append_Nil that ordered_start journal_steps_reach [OF _ start])
qed

lemma sample_ack: "at_send sample_attempt req = Inr \<lparr>ss_topic = sq_topic req, ss_partition = 0, ss_offset = 7\<rparr>"
  by (simp add: sample_attempt_def)

lemma ordered_service_reach: "ordered_reach sha sv \<Longrightarrow> service_reach sha sv"
  by (induction rule: ordered_reach.induct) (blast intro: started stepped service_step.intros)+

lemma ordered_others:
  "(journal_step sha)\<^sup>*\<^sup>* (sv_journal sv) j \<Longrightarrow> ordered_reach sha sv \<Longrightarrow> ordered_reach sha (sv\<lparr>sv_journal := j\<rparr>)"
proof (induction rule: rtranclp_induct)
  case (step y z)
  from ordered_other [OF step.IH [OF step.prems], of z] step.hyps(2) show ?case by simp
qed simp

lemma sample_pending_simps [simp]:
  "ds_delivery_status (sample_pending_state eid) = ''DELIVERY_PENDING''" "ds_delivery_revision (sample_pending_state eid) = 1"
  "ds_attempt_count (sample_pending_state eid) = 0"
  by (simp_all add: sample_pending_state_def stored_def pending_record_def)

text \<open>The first delivery of the sample stream is next on a fresh service.\<close>

lemma sample_ready:
  obtains sv c js where "ordered_reach (env_sha sample_env) sv" "awaits sample_attempt ''e1'' sv c sample_routing"
    "sv_sent sv = []" "sv_profile sv = sample_kafka_profile" "sv_gate sv = new_gate" "dc_stream_key c = ''k''" "dc_stream_sequence c = 1"
    "db_envelopes (lj_db (sv_journal sv)) = [new_envelope_row sample_env sample_request js 1]"
    "lj_config (sv_journal sv) = default_journal_config" "\<not> lj_shutdown (sv_journal sv)"
proof -
  obtain j c js where j: "ordered_reach (env_sha sample_env) (new_service j sample_kafka_profile)" "\<not> lj_poisoned j"
    "load_delivery_candidate sample_env (lj_db j) ''e1'' = CandidateFound c" "dc_delivery_state c = sample_pending_state ''e1''"
    "dc_stream_key c = ''k''" "dc_stream_sequence c = 1"
    "pre_send_checks (env_sha sample_env) sample_kafka_profile c = Inr sample_routing"
    "\<exists>l. find_lifecycle (lj_db j) ''e1'' = Some l \<and> in_i64 (ls_revision l + 1)"
    and db: "db_envelopes (lj_db j) = [new_envelope_row sample_env sample_request js 1]" "lj_config j = default_journal_config"
      "\<not> lj_shutdown j" by (rule sample_service)
  have fresh: "gate_next new_gate k = 1" "\<not> gate_busy new_gate k" "gate_room new_gate k" for k
    by (simp_all add: gate_next_def stream_next_def gate_busy_def gate_room_def new_gate_def gate_entry_def fresh_stream_def
        in_i64_def i64_max_def)
  have "awaits sample_attempt ''e1'' (new_service j sample_kafka_profile) c sample_routing"
    using j fresh by (simp add: awaits_def new_service_def sample_attempt_def in_i64_def i64_max_def)
  then show ?thesis using j(1,5,6) db by (intro that [of "new_service j sample_kafka_profile" c js]) (simp_all add: new_service_def)
qed

lemma sample_delivery:
  obtains sv sv' where "service_reach (env_sha sample_env) sv"
    "attempt_delivery sample_attempt ''e1'' sv = (Done (OutReplicated 0 7), sv')" "sv_sent sv = []" "length (sv_sent sv') = 1"
proof (rule sample_ready)
  fix sv c
  assume r: "ordered_reach (env_sha sample_env) sv" "awaits sample_attempt ''e1'' sv c sample_routing" "sv_sent sv = []"
  from next_delivery [OF ordered_service_reach [OF r(1)] sample_attempt_ok r(2) sample_ack] that ordered_service_reach [OF r(1)] r(3)
  show ?thesis by auto
qed

text \<open>
  The second delivery of the sample stream: the first is replicated, then another user of the journal
  accepts the second event and creates its delivery.
\<close>

definition second_request :: accept_request where
  "second_request = sample_request\<lparr>aq_event_id := ''e2'', aq_producer_operation_sequence := 2\<rparr>"

lemma second_accepted:
  assumes reach: "journal_reach (env_sha sample_env) j" "\<not> lj_poisoned j" "\<not> lj_shutdown j" "lj_config j = default_journal_config"
    and db: "db_envelopes (lj_db j) = [new_envelope_row sample_env sample_request js 1]"
  obtains a j' where "accept sample_env second_request j = (Done (AcceptAccepted a), j')" "ac_stream_sequence a = 2"
proof -
  have e2: "aq_event_id second_request = ''e2''" "length (aq_payload second_request) = 2" "aq_installation_id second_request = ''i''"
    "aq_producer_operation_sequence second_request = 2" "stream_key_of second_request = stream_key_of sample_request"
    by (simp_all add: second_request_def sample_request_def stream_key_of_def)
  have "find_envelope (lj_db j) ''e2'' = None" by (simp add: db select_row_None) (simp add: sample_request_def)
  moreover have "producer_ahead (lj_db j) second_request"
    unfolding producer_ahead_def producer_rows_def db by (auto simp: e2 new_envelope_row_def) (simp add: sample_request_def)
  ultimately obtain a j' where acc: "accept sample_env second_request j = (Done (AcceptAccepted a), j')"
    using accept_fresh [OF journal_reach_inv [OF reach(1)] no_faults_sample reach(2,3), of second_request]
    by (auto simp: e2 db reach(4) default_journal_config_def in_i64_def i64_max_def)
  have "ac_stream_sequence a = 2"
    using accepted_sequences(2) [OF acc journal_reach_inv [OF reach(1)]] by (simp add: stream_rows_def db e2)
  with acc that show ?thesis by blast
qed

lemma sample_second:
  obtains sv c en1 en2 where "ordered_reach (env_sha sample_env) sv" "awaits sample_attempt ''e2'' sv c sample_routing"
    "find_envelope (lj_db (sv_journal sv)) ''e1'' = Some en1" "find_envelope (lj_db (sv_journal sv)) ''e2'' = Some en2"
    "same_stream en2 en1" "se_stream_sequence en1 = 1" "se_stream_sequence en2 = 2" "stream_keys_separate (lj_db (sv_journal sv))"
proof (rule sample_ready)
  let ?sha = "env_sha sample_env"
  fix sv c js
  assume sv: "ordered_reach ?sha sv" and wait: "awaits sample_attempt ''e1'' sv c sample_routing" and prof: "sv_profile sv = sample_kafka_profile"
    and c: "dc_stream_key c = ''k''" "dc_stream_sequence c = 1" and db: "db_envelopes (lj_db (sv_journal sv)) = [new_envelope_row sample_env sample_request js 1]"
    and up: "lj_config (sv_journal sv) = default_journal_config" "\<not> lj_shutdown (sv_journal sv)"
  have reach: "service_reach ?sha sv" by (rule ordered_service_reach [OF sv])
  have w: "load_delivery_candidate (at_env sample_attempt CallCandidate) (lj_db (sv_journal sv)) ''e1'' = CandidateFound c"
    "\<not> sv_shutdown sv" "\<not> lj_poisoned (sv_journal sv)" "dc_stream_sequence c = gate_next (sv_gate sv) (dc_stream_key c)"
    using wait by (simp_all add: awaits_def)
  let ?g = "mark_completed ''k'' 1 (mark_in_flight ''k'' 1 (sv_gate sv))"
  obtain d req where conf: "confirm_replicated_delivery_db (at_env sample_attempt CallConfirm) ''e1'' (ds_delivery_revision (dc_delivery_state c))
       (confirmation_of (sv_profile sv) sample_routing \<lparr>ss_topic = rr_topic sample_routing, ss_partition = 0, ss_offset = 7\<rparr>)
       (lj_db (sv_journal sv)) = (Done Updated, d)"
    and att: "attempt_delivery sample_attempt ''e1'' sv = (Done (OutReplicated 0 7), sv\<lparr>sv_journal := (sv_journal sv)\<lparr>lj_db := d\<rparr>,
       sv_gate := ?g, sv_sent := sv_sent sv @ [req]\<rparr>)" (is "_ = (_, ?sv1)")
    by (rule next_delivery_effect [OF reach sample_attempt_ok wait sample_ack]) (simp only: c)
  note gate = gate_after_delivery [OF candidate_sequence_ok [OF reach w(1)] w(4), unfolded c]
  have sv1: "ordered_reach ?sha ?sv1" by (rule ordered_attempt [OF sv sample_attempt_ok(1) att])
  have reach1: "journal_reach ?sha (sv_journal ?sv1)" using ordered_reach_inv [OF sv1] by (simp add: service_inv_def)
  have db1: "db_envelopes d = [new_envelope_row sample_env sample_request js 1]"
    by (rule confirm_Updated [OF conf]) (cases d, use db in \<open>simp add: transitioned_def\<close>)
  obtain a j2 where acc: "accept sample_env second_request (sv_journal ?sv1) = (Done (AcceptAccepted a), j2)" "ac_stream_sequence a = 2"
    by (rule second_accepted [OF reach1]) (use w up db1 in simp_all)
  have req2: "sample_stream_request second_request" "aq_event_id second_request = ''e2''"
    by (simp_all add: sample_stream_request_def second_request_def sample_request_def in_i32_def i32_max_def)
  obtain j' c' js' where steps: "(journal_step ?sha)\<^sup>*\<^sup>* (sv_journal ?sv1) j'"
    and j': "\<not> lj_poisoned j'" "load_delivery_candidate sample_env (lj_db j') ''e2'' = CandidateFound c'"
    "dc_delivery_state c' = sample_pending_state ''e2''" "dc_stream_key c' = ''k''" "dc_stream_sequence c' = 2"
    "pre_send_checks ?sha sample_kafka_profile c' = Inr sample_routing"
    "\<exists>l. find_lifecycle (lj_db j') ''e2'' = Some l \<and> in_i64 (ls_revision l + 1)"
    and db2: "db_envelopes (lj_db j') = db_envelopes (lj_db (sv_journal ?sv1)) @ [new_envelope_row sample_env second_request js' 2]"
    by (rule delivery_added [OF reach1 req2(1) acc(1)]) (simp add: req2(2) acc(2))
  let ?sv2 = "?sv1\<lparr>sv_journal := j'\<rparr>"
  let ?row1 = "new_envelope_row sample_env sample_request js 1" and ?row2 = "new_envelope_row sample_env second_request js' 2"
  have sv2: "ordered_reach ?sha ?sv2" by (rule ordered_others [OF steps sv1])
  have "awaits sample_attempt ''e2'' ?sv2 c' sample_routing"
    using j' w(2) gate prof by (simp add: awaits_def sample_attempt_def in_i64_def i64_max_def)
  moreover have "stream_keys_separate (lj_db (sv_journal ?sv2))"
    by (simp add: stream_keys_separate_def db1 db2 same_stream_def new_envelope_row_def second_request_def)
  moreover have "find_envelope (lj_db (sv_journal ?sv2)) ''e1'' = Some ?row1" "find_envelope (lj_db (sv_journal ?sv2)) ''e2'' = Some ?row2"
    using db2 db1 req2(2) by (simp_all add: select_row_def) (simp_all add: sample_request_def)
  moreover have "same_stream ?row2 ?row1" by (simp add: same_stream_def new_envelope_row_def second_request_def)
  ultimately show ?thesis using sv2 by (intro that [of ?sv2 c' ?row1 ?row2]) simp_all
qed

theorem send_waits_for_predecessors_witness:
  "\<exists>sv sv' req row. attempt_delivery sample_attempt ''e2'' sv = (Done (OutReplicated 0 7), sv') \<and>
     sv_sent sv' = sv_sent sv @ [req] \<and> sq_event_id req = ''e2'' \<and>
     find_delivery (lj_db (sv_journal sv)) ''e1'' = Some row \<and> dr_delivery_status row = ''REPLICATED''"
proof (rule sample_second)
  fix sv c en1 en2
  assume s: "ordered_reach (env_sha sample_env) sv" "awaits sample_attempt ''e2'' sv c sample_routing"
    and en: "find_envelope (lj_db (sv_journal sv)) ''e1'' = Some en1" "find_envelope (lj_db (sv_journal sv)) ''e2'' = Some en2"
      "same_stream en2 en1" "se_stream_sequence en1 = 1" "se_stream_sequence en2 = 2" "stream_keys_separate (lj_db (sv_journal sv))"
  from next_delivery [OF ordered_service_reach [OF s(1)] sample_attempt_ok s(2) sample_ack] obtain sv' where
    att: "attempt_delivery sample_attempt ''e2'' sv = (Done (OutReplicated 0 7), sv')" and "length (sv_sent sv') = Suc (length (sv_sent sv))"
    by blast
  then have "sv_sent sv' \<noteq> sv_sent sv" by auto
  from send_waits_for_predecessors [OF s(1) sample_attempt_ok(1) att this] en att show ?thesis by fastforce
qed

theorem replicated_answer_is_durable_witness:
  "\<exists>sv sv'. attempt_delivery sample_attempt ''e1'' sv = (Done (OutReplicated 0 7), sv') \<and>
     replicated_at (lj_db (sv_journal (service_shutdown sv'))) ''e1'' 0 7"
proof -
  obtain sv sv' where s: "service_reach (env_sha sample_env) sv"
    "attempt_delivery sample_attempt ''e1'' sv = (Done (OutReplicated 0 7), sv')" by (rule sample_delivery)
  have "(service_step (env_sha sample_env))\<^sup>*\<^sup>* sv' (service_shutdown sv')" by (rule r_into_rtranclp) (rule sv_shutdown)
  from replicated_answer_is_durable [OF s(1) sample_attempt_ok(1) s(2) this] s(2) show ?thesis by blast
qed

theorem replicated_event_is_never_resent_witness:
  "\<exists>sv sv' r w'. attempt_delivery sample_attempt ''e1'' sv = (Done (OutReplicated 0 7), sv') \<and>
     attempt_delivery sample_attempt ''e1'' (new_service (sv_journal sv') sample_kafka_profile) = (r, w') \<and> sv_sent w' = []"
proof -
  obtain sv sv' where s: "service_reach (env_sha sample_env) sv"
    "attempt_delivery sample_attempt ''e1'' sv = (Done (OutReplicated 0 7), sv')" by (rule sample_delivery)
  let ?w = "new_service (sv_journal sv') sample_kafka_profile"
  obtain r w' where w: "attempt_delivery sample_attempt ''e1'' ?w = (r, w')" by fastforce
  have "(journal_step (env_sha sample_env))\<^sup>*\<^sup>* (sv_journal sv') (sv_journal ?w)" by (simp add: new_service_def)
  from replicated_event_is_never_resent [OF s(1) sample_attempt_ok(1) s(2) this sample_attempt_ok(1) w] s(2) w
  show ?thesis by (intro exI [of _ sv] exI [of _ sv'] exI [of _ r] exI [of _ w']) (simp add: new_service_def)
qed

subsection \<open>A failure that is not recorded\<close>

lemma persist_block_error_gate:
  "persist_block_before_send a eid k s rv reason sv = (Done (OutError m), sv') \<Longrightarrow> sv_gate sv' = sv_gate sv"
  by (auto simp: persist_block_before_send_def journal_call_def answer_def split: prod.splits outcome.splits if_splits)

lemma handle_failure_error_gate:
  assumes "handle_failure a eid c routing err sv = (Done (OutError m), sv')"
  shows "sv_gate sv' = sv_gate sv"
proof -
  have retry: "sv_gate sv' = sv_gate sv" if "schedule_retry a eid c decision sv = (Done (OutError m), sv')" for decision sv
    using that persist_block_error_gate
    by (auto simp: schedule_retry_def block_after_failure_def journal_call_def answer_def
        split: retry_decision.splits prod.splits outcome.splits if_splits)
  have "sv_gate sv' = sv_gate sv" if "block_after_failure a eid c reason sv = (Done (OutError m), sv')" for reason sv
    using that persist_block_error_gate by (simp add: block_after_failure_def)
  with retry assms show ?thesis
    by (fastforce simp: handle_failure_def journal_call_def arith_call_def split: prod.splits outcome.splits if_splits)
qed

lemma gate_check_flying: "gate_flying g k s \<Longrightarrow> gate_check chk g k s' \<noteq> Done GateAllowed"
  by (auto simp: gate_flying_def gate_check_entry fresh_stream_def gate_entry_def bind_outcome_eq_Done split: option.splits)

text \<open>
  C23: a failed send whose failure could not be recorded holds its stream. If the producer refuses a
  request and the attempt ends in an \<^verbatim>\<open>Error\<close> answer because the journal did not take the failure, the
  gate still counts the send as in flight, so it admits no sequence of that stream any more; only
  recovery clears it.
\<close>

theorem unrecorded_failure_holds_stream:
  assumes "attempt_sha sha a" "attempt_delivery a eid sv = (Done (OutError m), sv')"
    and "sv_sent sv' = sv_sent sv @ [req]" "at_send a req = Inl err"
  shows "\<exists>c. load_delivery_candidate (at_env a CallCandidate) (lj_db (sv_journal sv)) eid = CandidateFound c \<and>
    (\<forall>chk s. gate_check chk (sv_gate sv') (dc_stream_key c) s \<noteq> Done GateAllowed)"
  using assms(1,2)
proof (cases rule: attempt_cases)
  case (sent c routing payload)
  let ?req = "send_request_of eid (sv_profile sv) routing payload"
  let ?sv1 = "(meanwhile a CallPayload sv)\<lparr>sv_gate := mark_in_flight (dc_stream_key c) (dc_stream_sequence c) (sv_gate sv),
    sv_sent := sv_sent sv @ [?req]\<rparr>"
  have req: "req = ?req" using sent(3) assms(3) by (auto simp: sent_effect_def Let_def)
  have "handle_failure a eid c routing err ?sv1 = (Done (OutError m), sv')"
    using sent(4) assms(4) req by (simp add: send_stage_def)
  then have "sv_gate sv' = sv_gate ?sv1" by (rule handle_failure_error_gate)
  then have "gate_flying (sv_gate sv') (dc_stream_key c) (dc_stream_sequence c)" by (simp add: gate_flying_def mark_in_flight_def)
  with gate_check_flying sent(1) show ?thesis by (auto simp: admitted_def)
qed (use assms(3) in \<open>auto simp: unconfirmed_def\<close>)

definition failing_attempt :: attempt_env where
  "failing_attempt = sample_attempt\<lparr>at_env := (\<lambda>c. if c = CallRecord then sample_env\<lparr>env_fault := (\<lambda>_. Some ''disk I/O error'')\<rparr>
     else sample_env), at_send := (\<lambda>_. Inl BrokerUnavailable)\<rparr>"

theorem unrecorded_failure_holds_stream_witness:
  "\<exists>sv m sv'. attempt_delivery failing_attempt ''e1'' sv = (Done (OutError m), sv') \<and>
     gate_check True (sv_gate sv') ''k'' 1 \<noteq> Done GateAllowed"
proof -
  obtain j c js where j: "ordered_reach (env_sha sample_env) (new_service j sample_kafka_profile)" "\<not> lj_poisoned j"
    "load_delivery_candidate sample_env (lj_db j) ''e1'' = CandidateFound c" "dc_delivery_state c = sample_pending_state ''e1''"
    "dc_stream_key c = ''k''" "dc_stream_sequence c = 1"
    "pre_send_checks (env_sha sample_env) sample_kafka_profile c = Inr sample_routing" by (rule sample_service)
  let ?sv = "new_service j sample_kafka_profile"
  have jr: "journal_reach (env_sha sample_env) j" using ordered_reach_inv [OF j(1)] by (simp add: service_inv_def new_service_def)
  obtain en where en: "find_envelope (lj_db j) ''e1'' = Some en" using j(3) by (rule candidate_Found)
  obtain payload where pl: "read_verified_payload_impl sample_env (lj_db j) ''e1'' = PayloadFound payload"
    by (rule payload_found [OF jr no_faults_sample refl en])
  have adm: "admitted failing_attempt ''e1'' ?sv c"
    using j by (simp add: admitted_def new_service_def failing_attempt_def gate_check_def new_gate_def)
  have clr: "cleared failing_attempt ''e1'' ?sv c sample_routing payload"
    using j pl by (simp add: cleared_def new_service_def failing_attempt_def sample_attempt_def)
  have "\<exists>m sv'. attempt_delivery failing_attempt ''e1'' ?sv = (Done (OutError m), sv') \<and>
      sv_sent sv' = sv_sent ?sv @ [send_request_of ''e1'' sample_kafka_profile sample_routing payload]"
    using j(2,4) by (subst attempt_is_send [OF adm clr])
      (simp_all add: undisturbed_def sample_attempt_def meanwhile_def new_service_def send_stage_def handle_failure_def failing_attempt_def arith_call_def journal_call_def
        record_delivery_attempt_def record_delivery_attempt_db_def with_conn_def cas_try_def cas_sql_def sql_def
        in_i32_def i32_max_def Let_def)
  then obtain m sv' where att: "attempt_delivery failing_attempt ''e1'' ?sv = (Done (OutError m), sv')"
    "sv_sent sv' = sv_sent ?sv @ [send_request_of ''e1'' sample_kafka_profile sample_routing payload]" by blast
  have "attempt_sha (env_sha sample_env) failing_attempt" by (simp add: attempt_sha_def failing_attempt_def sample_attempt_def)
  moreover have "at_send failing_attempt req = Inl BrokerUnavailable" for req by (simp add: failing_attempt_def)
  ultimately obtain c' where "load_delivery_candidate (at_env failing_attempt CallCandidate) (lj_db (sv_journal ?sv)) ''e1'' = CandidateFound c'"
    and held: "\<forall>chk s. gate_check chk (sv_gate sv') (dc_stream_key c') s \<noteq> Done GateAllowed"
    using unrecorded_failure_holds_stream [OF _ att] by blast
  then have "dc_stream_key c' = ''k''" using j(3,5) by (simp add: failing_attempt_def new_service_def)
  with held att(1) show ?thesis by metis
qed


subsection \<open>Deliveries that do not match\<close>

lemma block_delivery_answered:
  assumes "block_delivery e eid rv reason j = (Done Updated, j')"
  shows "\<exists>r. find_delivery (lj_db j') eid = Some r \<and> dr_delivery_status r = ''DELIVERY_BLOCKED'' \<and> dr_blocked_reason r = Some reason"
proof -
  from assms have "block_delivery_db e eid rv reason (lj_db j) = (Done Updated, lj_db j')"
    by (auto simp: block_delivery_def elim: with_conn_cases)
  then show ?thesis
    by (rule block_Updated) (auto simp: transitioned_def stored_def blocked_record_def delivery_row_of_def)
qed

text \<open>
  What a delivery has to agree with: the routing of its event is supported, the row carries the checksum
  and topic of that routing and the id and version of the service's profile, and the profile is safe.
\<close>

definition delivery_matches :: "(bytes \<Rightarrow> checksum) \<Rightarrow> kafka_production_profile \<Rightarrow> envelope_row \<Rightarrow> delivery_row \<Rightarrow> bool" where
  "delivery_matches sha profile en row \<longleftrightarrow>
     (\<exists>routing. resolve_routing sha \<lparr>ri_installation_id = se_installation_id en, ri_namespace = se_namespace en,
          ri_logical_stream_type = se_logical_stream_type en, ri_stream_key = se_stream_key en,
          ri_event_type = se_event_type en, ri_routing_version = se_routing_version en\<rparr> = Inr routing \<and>
        dr_routing_fingerprint row = Some (bytes_of (rr_routing_checksum routing)) \<and> dr_kafka_topic row = Some (rr_topic routing)) \<and>
     dr_profile_id row = Some (kp_profile_id profile) \<and> dr_profile_version row = Some (kp_profile_version profile) \<and>
     is_profile_safe_for_delivery profile = Inr ()"

lemma pre_send_checks_match:
  assumes "load_delivery_candidate e d eid = CandidateFound c" "find_envelope d eid = Some en" "find_delivery d eid = Some row"
    and "pre_send_checks sha profile c = Inr routing"
  shows "delivery_matches sha profile en row"
proof -
  obtain en' where en': "find_envelope d eid = Some en'" "load_delivery_state e d eid = DeliveryFound (dc_delivery_state c)"
    "routing_input_of c = \<lparr>ri_installation_id = se_installation_id en', ri_namespace = se_namespace en',
       ri_logical_stream_type = se_logical_stream_type en', ri_stream_key = se_stream_key en',
       ri_event_type = se_event_type en', ri_routing_version = se_routing_version en'\<rparr>" using assms(1) by (rule candidate_Found)
  have "en' = en" "row = delivery_row_of (dc_delivery_state c)" using en'(1,2) assms(2,3) by (simp_all add: load_delivery_Found)
  then show ?thesis using pre_send_checks_Inr [OF assms(4)] en'(3) by (auto simp: delivery_matches_def delivery_row_of_def)
qed

text \<open>The attempt on a delivery that the gate admits and the checks refuse, without failures.\<close>

lemma refused_delivery_is_blocked:
  assumes reach: "journal_reach sha (sv_journal sv)" and a: "attempt_sha sha a" "attempt_faultless a" and up: "\<not> lj_poisoned (sv_journal sv)"
    and adm: "admitted a eid sv c" "ds_delivery_status (dc_delivery_state c) \<notin> {''REPLICATED'', ''DELIVERY_BLOCKED''}"
    and mis: "pre_send_checks (at_sha a) (sv_profile sv) c = Inl reason"
    and rev: "in_i64 (ds_delivery_revision (dc_delivery_state c) + 1)"
      "\<exists>l. find_lifecycle (lj_db (sv_journal sv)) eid = Some l \<and> in_i64 (ls_revision l + 1)"
  shows "fst (attempt_delivery a eid sv) = Done (OutBlocked reason)"
proof -
  let ?d = "lj_db (sv_journal sv)" and ?e = "at_env a CallBlock"
  have e: "no_faults (at_env a x)" "env_sha (at_env a x) = sha" for x using a by (simp_all add: attempt_faultless_def attempt_sha_def)
  obtain en where en: "find_envelope ?d eid = Some en"
    and ld: "load_delivery_state (at_env a CallCandidate) ?d eid = DeliveryFound (dc_delivery_state c)"
    using adm(1) unfolding admitted_def by (meson candidate_Found)
  have ld': "load_delivery_state ?e ?d eid = DeliveryFound (dc_delivery_state c)"
    using ld e by (simp add: load_delivery_Found no_faults_def delivery_ok_def compute_delivery_checksum_def)
  obtain st l where st: "get_status_impl ?e ?d eid = StatusFound st" "find_lifecycle ?d eid = Some l" "describes st en l"
    by (rule status_found [OF journal_reach_inv [OF reach] journal_reach_events_ok [OF reach] e en])
  have "keys_ok ?d" using journal_reach_inv [OF reach] by (simp add: journal_inv_def)
  from block_succeeds [OF e(1) this ld' _ st(1) refl rev(1), of reason] adm(2) rev(2) st(2,3)
  obtain d where "block_delivery_db ?e eid (ds_delivery_revision (dc_delivery_state c)) reason ?d = (Done Updated, d)"
    by (auto simp: describes_def)
  then have "block_delivery ?e eid (ds_delivery_revision (dc_delivery_state c)) reason (sv_journal sv) =
      (Done Updated, (sv_journal sv)\<lparr>lj_db := d\<rparr>)" using up by (simp add: block_delivery_def with_conn_def)
  moreover have "meanwhile a CallBlock sv = sv" using a(2) by (simp add: attempt_faultless_def meanwhile_undisturbed)
  ultimately show ?thesis using adm(2) mis unfolding attempt_is_allowed [OF adm(1) up]
    by (simp add: allowed_stage_def persist_block_before_send_def journal_call_def answer_def Let_def)
qed

lemma refused_answer_is_recorded:
  assumes "attempt_delivery a eid sv = (Done (OutBlocked reason), sv')" "find_delivery (lj_db (sv_journal sv)) eid = Some row"
    and "dr_delivery_status row \<noteq> ''DELIVERY_BLOCKED''"
    and refused: "\<And>c routing. load_delivery_candidate (at_env a CallCandidate) (lj_db (sv_journal sv)) eid = CandidateFound c \<Longrightarrow>
      pre_send_checks (at_sha a) (sv_profile sv) c \<noteq> Inr routing"
  shows "\<exists>row'. find_delivery (lj_db (sv_journal sv')) eid = Some row' \<and> dr_delivery_status row' = ''DELIVERY_BLOCKED'' \<and>
    dr_blocked_reason row' = Some reason"
  using assms(1)
proof (cases rule: attempt_admission)
  case (2 c)
  then have c: "load_delivery_candidate (at_env a CallCandidate) (lj_db (sv_journal sv)) eid = CandidateFound c" by (simp add: admitted_def)
  then have "load_delivery_state (at_env a CallCandidate) (lj_db (sv_journal sv)) eid = DeliveryFound (dc_delivery_state c)"
    by (rule candidate_Found)
  then have "ds_delivery_status (dc_delivery_state c) \<noteq> ''DELIVERY_BLOCKED''"
    using assms(2,3) by (auto simp: load_delivery_Found delivery_row_of_def)
  moreover obtain why where "pre_send_checks (at_sha a) (sv_profile sv) c = Inl why"
    using refused [OF c] by (cases "pre_send_checks (at_sha a) (sv_profile sv) c") auto
  ultimately have "persist_block_before_send a eid (dc_stream_key c) (dc_stream_sequence c)
      (ds_delivery_revision (dc_delivery_state c)) why sv = (Done (OutBlocked reason), sv')"
    using 2(2) by (auto simp: allowed_stage_def answer_def Let_def split: if_splits option.splits)
  then show ?thesis
    by (auto simp: persist_block_before_send_def journal_call_def answer_def dest: block_delivery_answered
        split: prod.splits outcome.splits if_splits)
qed blast

text \<open>
  C21: a delivery that does not match is never sent. If the delivery row of an event does not agree with the
  event's routing or the service's profile, or the profile is not safe, an attempt on it hands nothing to the
  producer, whatever fails and whatever other users do; if it is answered \<^verbatim>\<open>Blocked\<close> and the row was not blocked
  before, the row is \<^verbatim>\<open>DELIVERY_BLOCKED\<close> with the reason of the answer. Where nothing fails, the service is up, the
  gate admits the sequence, the row verifies, is neither replicated nor blocked, and the revisions can be counted
  on, the attempt is answered \<^verbatim>\<open>Blocked\<close>.
\<close>

theorem mismatched_delivery_is_not_sent:
  assumes sha: "attempt_sha sha a" and att: "attempt_delivery a eid sv = (r, sv')"
    and en: "find_envelope (lj_db (sv_journal sv)) eid = Some en" and row: "find_delivery (lj_db (sv_journal sv)) eid = Some row"
    and mis: "\<not> delivery_matches sha (sv_profile sv) en row"
  shows "sv_sent sv' = sv_sent sv \<and>
    (\<forall>reason. r = Done (OutBlocked reason) \<longrightarrow> dr_delivery_status row \<noteq> ''DELIVERY_BLOCKED'' \<longrightarrow>
      (\<exists>row'. find_delivery (lj_db (sv_journal sv')) eid = Some row' \<and> dr_delivery_status row' = ''DELIVERY_BLOCKED'' \<and>
        dr_blocked_reason row' = Some reason)) \<and>
    (journal_reach sha (sv_journal sv) \<and> attempt_faultless a \<and> \<not> sv_shutdown sv \<and> \<not> lj_poisoned (sv_journal sv) \<and>
      gate_check (at_checks a) (sv_gate sv) (se_stream_key en) (se_stream_sequence en) = Done GateAllowed \<and>
      (\<exists>s. load_delivery_state (at_env a CallCandidate) (lj_db (sv_journal sv)) eid = DeliveryFound s) \<and>
      dr_delivery_status row \<notin> {''REPLICATED'', ''DELIVERY_BLOCKED''} \<and> in_i64 (dr_delivery_revision row + 1) \<and>
      (\<exists>l. find_lifecycle (lj_db (sv_journal sv)) eid = Some l \<and> in_i64 (ls_revision l + 1)) \<longrightarrow>
     (\<exists>reason. r = Done (OutBlocked reason)))"
proof -
  let ?d = "lj_db (sv_journal sv)" and ?e = "at_env a CallCandidate"
  have at: "at_sha a = sha" "env_sha ?e = sha" using sha by (simp_all add: attempt_sha_def)
  have refused: "pre_send_checks (at_sha a) (sv_profile sv) c \<noteq> Inr routing"
    if "load_delivery_candidate ?e ?d eid = CandidateFound c" for c routing
    using pre_send_checks_match [OF that en row] mis at(1) by metis
  have "sv_sent sv' = sv_sent sv" using sha att
  proof (cases rule: attempt_cases)
    case (sent c routing payload)
    with refused show ?thesis by (simp add: admitted_def cleared_def)
  qed (auto simp: unconfirmed_def)
  moreover have "\<exists>row'. find_delivery (lj_db (sv_journal sv')) eid = Some row' \<and> dr_delivery_status row' = ''DELIVERY_BLOCKED'' \<and>
      dr_blocked_reason row' = Some reason" if "r = Done (OutBlocked reason)" "dr_delivery_status row \<noteq> ''DELIVERY_BLOCKED''" for reason
    using refused_answer_is_recorded [OF _ row that(2)] refused att that(1) by blast
  moreover have "\<exists>reason. r = Done (OutBlocked reason)"
    if reach: "journal_reach sha (sv_journal sv)" and ok: "attempt_faultless a" and up: "\<not> sv_shutdown sv" "\<not> lj_poisoned (sv_journal sv)"
      and gate: "gate_check (at_checks a) (sv_gate sv) (se_stream_key en) (se_stream_sequence en) = Done GateAllowed"
      and ld: "load_delivery_state ?e ?d eid = DeliveryFound s"
      and st: "dr_delivery_status row \<notin> {''REPLICATED'', ''DELIVERY_BLOCKED''}" "in_i64 (dr_delivery_revision row + 1)"
      and l: "\<exists>l. find_lifecycle ?d eid = Some l \<and> in_i64 (ls_revision l + 1)" for s
  proof -
    have "no_faults ?e" using ok by (simp add: attempt_faultless_def)
    then obtain c where c: "load_delivery_candidate ?e ?d eid = CandidateFound c" "dc_delivery_state c = s"
      using candidate_succeeds [OF reach _ at(2) en ld] by blast
    obtain en' where "find_envelope ?d eid = Some en'" "dc_stream_key c = se_stream_key en'" "dc_stream_sequence c = se_stream_sequence en'"
      using c(1) by (rule candidate_Found)
    with gate up(1) c(1) en have adm: "admitted a eid sv c" by (simp add: admitted_def)
    obtain reason where why: "pre_send_checks (at_sha a) (sv_profile sv) c = Inl reason"
      using refused [OF c(1)] by (cases "pre_send_checks (at_sha a) (sv_profile sv) c") auto
    have s: "ds_delivery_status (dc_delivery_state c) = dr_delivery_status row" "ds_delivery_revision (dc_delivery_state c) = dr_delivery_revision row"
      using ld row c(2) by (auto simp: load_delivery_Found delivery_row_of_def)
    from refused_delivery_is_blocked [OF reach sha ok up(2) adm _ why] s st l att show ?thesis by simp
  qed
  ultimately show ?thesis by blast
qed

text \<open>The sample delivery was created for version 1 of the profile; a service with version 2 blocks it.\<close>

theorem mismatched_delivery_is_not_sent_witness:
  "\<exists>sv sv' reason row. attempt_delivery sample_attempt ''e1'' sv = (Done (OutBlocked reason), sv') \<and> sv_sent sv' = [] \<and>
     find_delivery (lj_db (sv_journal sv')) ''e1'' = Some row \<and> dr_delivery_status row = ''DELIVERY_BLOCKED'' \<and>
     dr_blocked_reason row = Some reason"
proof (rule sample_service)
  fix j c js
  assume j: "ordered_reach (env_sha sample_env) (new_service j sample_kafka_profile)" "\<not> lj_poisoned j"
    "load_delivery_candidate sample_env (lj_db j) ''e1'' = CandidateFound c" "dc_delivery_state c = sample_pending_state ''e1''"
    "dc_stream_key c = ''k''" "dc_stream_sequence c = 1" "\<exists>l. find_lifecycle (lj_db j) ''e1'' = Some l \<and> in_i64 (ls_revision l + 1)"
  let ?sv = "new_service j (sample_kafka_profile\<lparr>kp_profile_version := 2\<rparr>)" and ?s = "sample_pending_state ''e1''"
  let ?row = "delivery_row_of ?s"
  obtain en where en: "find_envelope (lj_db j) ''e1'' = Some en" "se_stream_key en = ''k''" "se_stream_sequence en = 1"
    and ld: "load_delivery_state sample_env (lj_db j) ''e1'' = DeliveryFound ?s" using candidate_Found [OF j(3)] j(4-6) by metis
  have row: "find_delivery (lj_db j) ''e1'' = Some ?row" using ld by (simp add: load_delivery_Found)
  have fields: "dr_delivery_status ?row = ''DELIVERY_PENDING''" "dr_delivery_revision ?row = 1" "dr_profile_version ?row = Some 1"
    by (simp_all add: delivery_row_of_def) (simp add: sample_pending_state_def stored_def pending_record_def)
  have mis: "\<not> delivery_matches (env_sha sample_env) (sample_kafka_profile\<lparr>kp_profile_version := 2\<rparr>) en ?row"
    by (simp add: delivery_matches_def fields)
  obtain r sv' where att: "attempt_delivery sample_attempt ''e1'' ?sv = (r, sv')" by fastforce
  have parts: "sv_journal ?sv = j" "sv_gate ?sv = new_gate" "\<not> sv_shutdown ?sv" "sv_sent ?sv = []"
    "sv_profile ?sv = sample_kafka_profile\<lparr>kp_profile_version := 2\<rparr>" by (simp_all add: new_service_def)
  have reach: "journal_reach (env_sha sample_env) j" using ordered_reach_inv [OF j(1)] by (simp add: service_inv_def new_service_def)
  have gate: "gate_check (at_checks sample_attempt) new_gate ''k'' 1 = Done GateAllowed" by (simp add: gate_check_def new_gate_def)
  have env: "at_env sample_attempt CallCandidate = sample_env" by (simp add: sample_attempt_def)
  note th = mismatched_delivery_is_not_sent [OF sample_attempt_ok(1) att, unfolded parts, OF en(1) row mis]
  have "\<exists>s. load_delivery_state (at_env sample_attempt CallCandidate) (lj_db j) ''e1'' = DeliveryFound s" using ld env by simp
  with th reach sample_attempt_ok(2) j(2,7) gate obtain reason where r: "r = Done (OutBlocked reason)"
    by (auto simp: en(2,3) fields in_i64_def i64_max_def new_service_def)
  with th att fields show ?thesis by fastforce
qed

end
