(* ===== verification/Kafka_Stream.thy ===== *)
theory Kafka_Stream
  imports Kafka_Progress
begin

text \<open>
  A whole stream: the attempts of the delivery service one after the other, over journal, gate and
  producer. Without failures the pending deliveries of a stream reach the producer in the order of
  their stream sequences, each once and with its stored payload, and all end up replicated.
\<close>

text \<open>A caller that attempts the deliveries of a list in order.\<close>

fun deliver_all :: "attempt_env \<Rightarrow> string list \<Rightarrow> delivery_service \<Rightarrow> delivery_outcome outcome list \<times> delivery_service" where
  "deliver_all a [] sv = ([], sv)"
| "deliver_all a (eid # eids) sv =
     (let (r, sv1) = attempt_delivery a eid sv; (rs, sv2) = deliver_all a eids sv1 in (r # rs, sv2))"

text \<open>
  The delivery of \<open>eid\<close> waits at sequence \<open>s\<close> of stream key \<open>k\<close>: it is stored and verifies, is neither
  replicated nor blocked, and its routing and profile are those of the service.
\<close>

definition deliverable :: "(bytes \<Rightarrow> checksum) \<Rightarrow> env \<Rightarrow> kafka_production_profile \<Rightarrow> db \<Rightarrow> string \<Rightarrow> i64 \<Rightarrow> string \<Rightarrow> bool" where
  "deliverable sha e profile d k s eid \<longleftrightarrow>
     (\<exists>c routing. load_delivery_candidate e d eid = CandidateFound c \<and> dc_stream_key c = k \<and> dc_stream_sequence c = s \<and>
        ds_delivery_status (dc_delivery_state c) \<notin> {''REPLICATED'', ''DELIVERY_BLOCKED''} \<and>
        pre_send_checks sha profile c = Inr routing \<and> in_i64 (ds_delivery_revision (dc_delivery_state c) + 1) \<and>
        (\<exists>l. find_lifecycle d eid = Some l \<and> in_i64 (ls_revision l + 1)))"

definition sent_for :: "db \<Rightarrow> string \<Rightarrow> send_request \<Rightarrow> bool" where
  "sent_for d eid req \<longleftrightarrow> sq_event_id req = eid \<and> (\<exists>b. find_payload d eid = Some b \<and> pb_payload b = sq_payload req)"

lemma load_delivery_candidate_cong:
  assumes "find_delivery d' eid = find_delivery d eid" "find_envelope d' eid = find_envelope d eid"
  shows "load_delivery_candidate e d' eid = load_delivery_candidate e d eid"
proof -
  have "load_delivery_state e d' eid = load_delivery_state e d eid" by (simp only: load_delivery_state_def assms)
  moreover have "recompute_envelope_checksum_from_row e d' eid = recompute_envelope_checksum_from_row e d eid"
    by (simp only: recompute_envelope_checksum_from_row_def assms)
  ultimately show ?thesis by (simp only: load_delivery_candidate_def assms)
qed

text \<open>Confirming one delivery leaves the others deliverable and every payload as it is.\<close>

lemma confirm_frame:
  assumes "confirm_replicated_delivery_db e' eid rv conf d = (Done Updated, d')"
  shows "eid' \<noteq> eid \<Longrightarrow> deliverable sha e profile d' k s eid' = deliverable sha e profile d k s eid'"
    "eid' \<noteq> eid \<Longrightarrow> find_delivery d' eid' = find_delivery d eid'" "db_payloads d' = db_payloads d"
proof -
  obtain s' where tr: "transitioned e' eid s' ''REPLICATED'' d d'" by (rule confirm_Updated [OF assms])
  then have same: "db_envelopes d' = db_envelopes d" "db_payloads d' = db_payloads d"
    by (cases d; cases d'; simp add: transitioned_def)+
  show "db_payloads d' = db_payloads d" by (rule same)
  assume "eid' \<noteq> eid"
  with tr have other: "find_delivery d' eid' = find_delivery d eid'" "find_lifecycle d' eid' = find_lifecycle d eid'"
    by (simp_all add: transitioned_def)
  with same(1) load_delivery_candidate_cong [where d = d and d' = d' and eid = eid' and e = e]
  show "deliverable sha e profile d' k s eid' = deliverable sha e profile d k s eid'" by (simp add: deliverable_def)
  show "find_delivery d' eid' = find_delivery d eid'" by (rule other(1))
qed

lemma deliverable_unique: "deliverable sha e profile d k s eid \<Longrightarrow> deliverable sha e profile d k s' eid \<Longrightarrow> s = s'"
  by (auto simp: deliverable_def)

text \<open>What \<open>deliver_all\<close> does to the deliveries of \<open>eids\<close>: requests, gate, rows.\<close>

definition stream_delivered ::
    "(send_request \<Rightarrow> i32) \<Rightarrow> (send_request \<Rightarrow> i64) \<Rightarrow> string \<Rightarrow> string list \<Rightarrow> send_request list \<Rightarrow> delivery_service \<Rightarrow> delivery_service \<Rightarrow> bool" where
  "stream_delivered p q k eids reqs sv sv' \<longleftrightarrow>
     sv_sent sv' = sv_sent sv @ reqs \<and> list_all2 (sent_for (lj_db (sv_journal sv))) eids reqs \<and>
     gate_next (sv_gate sv') k = gate_next (sv_gate sv) k + int (length eids) \<and>
     list_all2 (\<lambda>eid req. replicated_at (lj_db (sv_journal sv')) eid (p req) (q req)) eids reqs \<and>
     (\<forall>eid. eid \<notin> set eids \<longrightarrow> find_delivery (lj_db (sv_journal sv')) eid = find_delivery (lj_db (sv_journal sv)) eid)"

text \<open>One attempt on the delivery that waits at the next sequence of its stream.\<close>

lemma deliver_next:
  assumes "service_reach sha sv" "attempt_sha sha a" "attempt_faultless a" "\<not> sv_shutdown sv" "\<not> lj_poisoned (sv_journal sv)"
    and "deliverable sha (at_env a CallCandidate) (sv_profile sv) (lj_db (sv_journal sv)) k (gate_next (sv_gate sv) k) eid"
      "\<not> gate_busy (sv_gate sv) k" "gate_room (sv_gate sv) k"
    and ack: "\<And>req. at_send a req = Inr \<lparr>ss_topic = sq_topic req, ss_partition = p req, ss_offset = q req\<rparr>"
  obtains req sv1 where "attempt_delivery a eid sv = (Done (OutReplicated (p req) (q req)), sv1)" "service_reach sha sv1"
    "stream_delivered p q k [eid] [req] sv sv1" "\<not> gate_busy (sv_gate sv1) k"
    "in_i64 (gate_next (sv_gate sv1) k) \<longrightarrow> gate_room (sv_gate sv1) k" "sv_profile sv1 = sv_profile sv" "\<not> sv_shutdown sv1" "\<not> lj_poisoned (sv_journal sv1)"
    "db_payloads (lj_db (sv_journal sv1)) = db_payloads (lj_db (sv_journal sv))"
    "\<forall>eid' s. eid' \<noteq> eid \<longrightarrow> deliverable sha (at_env a CallCandidate) (sv_profile sv) (lj_db (sv_journal sv1)) k s eid' =
       deliverable sha (at_env a CallCandidate) (sv_profile sv) (lj_db (sv_journal sv)) k s eid'"
proof -
  obtain c routing where wait: "awaits a eid sv c routing" and k: "dc_stream_key c = k"
    using assms by (auto simp: deliverable_def awaits_def attempt_sha_def)
  then have c: "load_delivery_candidate (at_env a CallCandidate) (lj_db (sv_journal sv)) eid = CandidateFound c"
    "dc_stream_sequence c = gate_next (sv_gate sv) (dc_stream_key c)" by (simp_all add: awaits_def)
  note gate = gate_after_delivery [OF candidate_sequence_ok [OF assms(1) c(1)] c(2)]
  obtain payload d req where r: "read_verified_payload_impl (at_env a CallPayload) (lj_db (sv_journal sv)) eid = PayloadFound payload"
    "req = send_request_of eid (sv_profile sv) routing payload"
    and conf: "confirm_replicated_delivery_db (at_env a CallConfirm) eid (ds_delivery_revision (dc_delivery_state c))
       (confirmation_of (sv_profile sv) routing \<lparr>ss_topic = rr_topic routing, ss_partition = p req, ss_offset = q req\<rparr>)
       (lj_db (sv_journal sv)) = (Done Updated, d)"
    and rep: "replicated_at d eid (p req) (q req)"
    and att: "attempt_delivery a eid sv = (Done (OutReplicated (p req) (q req)), sv\<lparr>sv_journal := (sv_journal sv)\<lparr>lj_db := d\<rparr>,
       sv_gate := mark_completed (dc_stream_key c) (dc_stream_sequence c)
         (mark_in_flight (dc_stream_key c) (dc_stream_sequence c) (sv_gate sv)), sv_sent := sv_sent sv @ [req]\<rparr>)"
    by (rule next_delivery_effect [OF assms(1-3) wait ack])
  note frame = confirm_frame [OF conf]
  have "sent_for (lj_db (sv_journal sv)) eid req" using r by (auto simp: sent_for_def send_request_of_def read_payload_Found)
  then show ?thesis
    using rep gate c(2) k assms(4,5) frame service_reach.stepped [OF assms(1) sv_attempt [OF assms(2) att]]
    by (intro that [OF att]) (simp_all add: stream_delivered_def)
qed

lemma stream_delivered_Cons:
  assumes "stream_delivered p q k [eid] [req] sv sv1" "stream_delivered p q k eids reqs sv1 sv2" "eid \<notin> set eids"
    "db_payloads (lj_db (sv_journal sv1)) = db_payloads (lj_db (sv_journal sv))"
  shows "stream_delivered p q k (eid # eids) (req # reqs) sv sv2"
  using assms by (auto simp: stream_delivered_def sent_for_def [abs_def] replicated_at_def)

lemma deliver_all_in_order:
  assumes "service_reach sha sv" "attempt_sha sha a" "attempt_faultless a" "\<not> sv_shutdown sv" "\<not> lj_poisoned (sv_journal sv)"
    and "\<And>i. i < length eids \<Longrightarrow>
      deliverable sha (at_env a CallCandidate) (sv_profile sv) (lj_db (sv_journal sv)) k (gate_next (sv_gate sv) k + int i) (eids ! i)"
    and "\<not> gate_busy (sv_gate sv) k" "eids \<noteq> [] \<Longrightarrow> gate_room (sv_gate sv) k"
    and ack: "\<And>req. at_send a req = Inr \<lparr>ss_topic = sq_topic req, ss_partition = p req, ss_offset = q req\<rparr>"
  shows "\<exists>reqs sv'. deliver_all a eids sv = (map (\<lambda>req. Done (OutReplicated (p req) (q req))) reqs, sv') \<and>
    stream_delivered p q k eids reqs sv sv'"
  using assms(1,4-8)
proof (induction eids arbitrary: sv)
  case Nil
  then show ?case by (simp add: stream_delivered_def)
next
  case (Cons eid eids)
  let ?E = "at_env a CallCandidate"
  have now: "deliverable sha ?E (sv_profile sv) (lj_db (sv_journal sv)) k (gate_next (sv_gate sv) k) eid" using Cons.prems(4) [of 0] by simp
  have room: "gate_room (sv_gate sv) k" using Cons.prems(6) by simp
  obtain req sv1 where one: "attempt_delivery a eid sv = (Done (OutReplicated (p req) (q req)), sv1)" "service_reach sha sv1"
    "stream_delivered p q k [eid] [req] sv sv1" "\<not> gate_busy (sv_gate sv1) k"
    "in_i64 (gate_next (sv_gate sv1) k) \<longrightarrow> gate_room (sv_gate sv1) k" "sv_profile sv1 = sv_profile sv" "\<not> sv_shutdown sv1" "\<not> lj_poisoned (sv_journal sv1)"
    "db_payloads (lj_db (sv_journal sv1)) = db_payloads (lj_db (sv_journal sv))"
    "\<forall>eid' s. eid' \<noteq> eid \<longrightarrow> deliverable sha ?E (sv_profile sv) (lj_db (sv_journal sv1)) k s eid' =
       deliverable sha ?E (sv_profile sv) (lj_db (sv_journal sv)) k s eid'"
    by (rule deliver_next [OF Cons.prems(1) assms(2,3) Cons.prems(2,3) now Cons.prems(5) room ack])
  have later: "deliverable sha ?E (sv_profile sv) (lj_db (sv_journal sv)) k (gate_next (sv_gate sv) k + int (Suc i)) (eids ! i)"
    if "i < length eids" for i using Cons.prems(4) [of "Suc i"] that by simp
  have "eids ! i \<noteq> eid" if "i < length eids" for i using deliverable_unique [OF now, of "gate_next (sv_gate sv) k + int (Suc i)"] later [OF that] by auto
  then have new: "eid \<notin> set eids" "\<And>i. i < length eids \<Longrightarrow> eids ! i \<noteq> eid" by (auto simp: in_set_conv_nth)
  have nxt: "gate_next (sv_gate sv1) k = gate_next (sv_gate sv) k + 1" using one(3) by (simp add: stream_delivered_def)
  have "deliverable sha ?E (sv_profile sv1) (lj_db (sv_journal sv1)) k (gate_next (sv_gate sv1) k + int i) (eids ! i)"
    if "i < length eids" for i using later [OF that] one(10) new(2) [OF that] by (simp add: one(6) nxt ac_simps)
  note next_ready = this
  have "gate_room (sv_gate sv1) k" if "eids \<noteq> []"
  proof -
    from next_ready [of 0] that obtain c where "load_delivery_candidate ?E (lj_db (sv_journal sv1)) (eids ! 0) = CandidateFound c"
      "dc_stream_sequence c = gate_next (sv_gate sv1) k" by (auto simp: deliverable_def)
    with candidate_sequence_ok(2) [OF one(2)] one(5) show ?thesis by (metis seq_ok_def)
  qed
  from Cons.IH [OF one(2,7,8) next_ready one(4) this] obtain reqs sv2 where
    rest: "deliver_all a eids sv1 = (map (\<lambda>req. Done (OutReplicated (p req) (q req))) reqs, sv2)" "stream_delivered p q k eids reqs sv1 sv2"
    by blast
  from stream_delivered_Cons [OF one(3) rest(2) new(1) one(9)] one(1) rest(1) show ?case
    by (intro exI [of _ "req # reqs"] exI [of _ sv2]) simp
qed

text \<open>
  C9: a stream is delivered in order. In a reachable service that is up, let the deliveries of a list
  wait at consecutive sequences of one stream, starting at the gate's next one, with nothing in
  flight and the highest completed sequence not the greatest \<^verbatim>\<open>i64\<close> (as after it \<^verbatim>\<open>check\<close> overflows). Without engine failures and calls of other users in between, and with a producer that acknowledges every request, attempting
  them in order answers \<^verbatim>\<open>Replicated\<close> for each; the producer got exactly one request per event, in
  the order of the stream, with the stored payload; the gate has moved behind the last of them; and
  every delivery row is replicated at its acknowledged offset, while other rows are untouched.
\<close>

theorem stream_is_delivered_in_order:
  assumes "service_reach sha sv" "attempt_sha sha a" "attempt_faultless a" "\<not> sv_shutdown sv" "\<not> lj_poisoned (sv_journal sv)"
    and "\<And>i. i < length eids \<Longrightarrow>
      deliverable sha (at_env a CallCandidate) (sv_profile sv) (lj_db (sv_journal sv)) k (gate_next (sv_gate sv) k + int i) (eids ! i)"
    and "\<not> gate_busy (sv_gate sv) k" "gate_room (sv_gate sv) k"
    and "\<And>req. at_send a req = Inr \<lparr>ss_topic = sq_topic req, ss_partition = p req, ss_offset = q req\<rparr>"
  shows "\<exists>reqs sv'. deliver_all a eids sv = (map (\<lambda>req. Done (OutReplicated (p req) (q req))) reqs, sv') \<and>
    sv_sent sv' = sv_sent sv @ reqs \<and> list_all2 (sent_for (lj_db (sv_journal sv))) eids reqs \<and>
    gate_next (sv_gate sv') k = gate_next (sv_gate sv) k + int (length eids) \<and>
    list_all2 (\<lambda>eid req. replicated_at (lj_db (sv_journal sv')) eid (p req) (q req)) eids reqs \<and>
    (\<forall>eid. eid \<notin> set eids \<longrightarrow> find_delivery (lj_db (sv_journal sv')) eid = find_delivery (lj_db (sv_journal sv)) eid)"
  using deliver_all_in_order [OF assms(1-8) assms(9)] unfolding stream_delivered_def .

theorem stream_is_delivered_in_order_witness:
  "\<exists>sv sv' req. service_reach (env_sha sample_env) sv \<and>
     deliver_all sample_attempt [''e1''] sv = ([Done (OutReplicated 0 7)], sv') \<and> sv_sent sv' = sv_sent sv @ [req] \<and> sq_event_id req = ''e1''"
proof (rule sample_ready)
  fix sv c
  assume o: "ordered_reach (env_sha sample_env) sv" and wait: "awaits sample_attempt ''e1'' sv c sample_routing"
  have r: "service_reach (env_sha sample_env) sv" by (rule ordered_service_reach [OF o])
  have w: "\<not> sv_shutdown sv" "\<not> lj_poisoned (sv_journal sv)" "\<not> gate_busy (sv_gate sv) (dc_stream_key c)" "gate_room (sv_gate sv) (dc_stream_key c)"
    using wait by (simp_all add: awaits_def)
  have "at_sha sample_attempt = env_sha sample_env" using sample_attempt_ok(1) by (simp add: attempt_sha_def)
  then have "deliverable (env_sha sample_env) (at_env sample_attempt CallCandidate) (sv_profile sv) (lj_db (sv_journal sv))
      (dc_stream_key c) (gate_next (sv_gate sv) (dc_stream_key c) + int i) ([''e1''] ! i)" if "i < length [''e1'']" for i
    using that wait by (auto simp: deliverable_def awaits_def)
  from stream_is_delivered_in_order [OF r sample_attempt_ok w(1,2) this w(3,4), where p = "\<lambda>_. 0" and q = "\<lambda>_. 7"] sample_ack r
  show ?thesis by (auto simp: sent_for_def list_all2_Cons1 simp del: deliver_all.simps)
qed

end
