(* ===== verification/Bench_Candidate.thy ===== *)
theory Bench_Candidate
  imports Journal_Integrity
begin

text \<open>
  The storage candidates of \<^verbatim>\<open>craftrelay-journal-bench\<close> (\<^verbatim>\<open>candidate.rs\<close>) and the synthetic events they
  write (\<^verbatim>\<open>ingress.rs\<close>): batches bounded by records and bytes, one transaction per batch, either in
  one database or in segments that roll over.

  Counters and lengths (\<^verbatim>\<open>u32\<close>, \<^verbatim>\<open>u64\<close>, \<^verbatim>\<open>usize\<close>) are natural numbers: they count records and bytes
  held in memory. Engine failures come from \<open>bn_fault\<close>, indexed by the position of the event (or of
  the first event of the batch, for the statements around it). Every \<^verbatim>\<open>expect\<close> is a panic.
\<close>

subsection \<open>Synthetic events\<close>

definition MAX_PAYLOAD_BYTES :: nat where "MAX_PAYLOAD_BYTES = 1048576"
definition DEFAULT_CHANNEL_CAPACITY :: nat where "DEFAULT_CHANNEL_CAPACITY = 4096"
definition MAX_BOUNDED_ERRORS :: nat where "MAX_BOUNDED_ERRORS = 64"

record synthetic_event =
  sy_event_id :: string
  sy_installation_id :: string
  sy_producer_id :: string
  sy_namespace :: string
  sy_logical_stream :: string
  sy_schema_version :: i32
  sy_payload :: bytes
  sy_payload_digest :: checksum
  sy_request_fingerprint :: checksum
  sy_payload_ref_id :: string
  sy_metadata_count :: nat

text \<open>\<^verbatim>\<open>{:0kx}\<close> of a number below $16^k$.\<close>

fun hex_fixed :: "nat \<Rightarrow> nat \<Rightarrow> string" where
  "hex_fixed 0 n = []"
| "hex_fixed (Suc k) n = hex_fixed k (n div 16) @ [hex_digit (n mod 16)]"

text \<open>The loop over the bytes of the payload; \<open>state\<close> is a \<^verbatim>\<open>u64\<close>.\<close>

fun payload_bytes_from :: "64 word \<Rightarrow> nat \<Rightarrow> bytes" where
  "payload_bytes_from state 0 = []"
| "payload_bytes_from state (Suc n) =
     (let state' = state * 6364136223846793005 + 1 in
      ucast (drop_bit 33 state') # payload_bytes_from state' n)"

definition deterministic_payload :: "64 word \<Rightarrow> nat \<Rightarrow> bytes" where
  "deterministic_payload seed sz = payload_bytes_from seed (min sz MAX_PAYLOAD_BYTES)"

definition generate_event ::
    "(bytes \<Rightarrow> checksum) \<Rightarrow> nat \<Rightarrow> string \<Rightarrow> string \<Rightarrow> string \<Rightarrow> nat \<Rightarrow> synthetic_event" where
  "generate_event sha index installation_id producer_id namespace payload_bytes =
     (let event_id = ''01890f3e-'' @ hex_fixed 4 (index div 2 ^ 32 mod 2 ^ 16) @ ''-7cc2-98c8-'' @
            hex_fixed 12 (index mod 2 ^ 48);
          logical_stream = namespace @ ''.stream-'' @ show_nat (index mod 8);
          payload = deterministic_payload (of_nat index) payload_bytes in
      \<lparr>sy_event_id = event_id, sy_installation_id = installation_id, sy_producer_id = producer_id,
       sy_namespace = namespace, sy_logical_stream = logical_stream, sy_schema_version = 1,
       sy_payload = payload, sy_payload_digest = sha payload,
       sy_request_fingerprint = sha (str_bytes (join_nul [event_id, namespace, logical_stream])),
       sy_payload_ref_id = installation_id @ ''/'' @ event_id, sy_metadata_count = 1\<rparr>)"

definition PER_EVENT_OVERHEAD_BYTES :: nat where "PER_EVENT_OVERHEAD_BYTES = 512"

definition estimated_transaction_bytes :: "synthetic_event \<Rightarrow> nat" where
  "estimated_transaction_bytes event = length (sy_payload event) + PER_EVENT_OVERHEAD_BYTES"

subsection \<open>Configuration and results\<close>

record candidate_config =
  cc_name :: string
  cc_journal_mode :: string
  cc_synchronous :: string
  cc_busy_timeout_ms :: nat
  cc_wal_autocheckpoint :: nat
  cc_page_size :: "nat option"
  cc_max_records_per_tx :: nat
  cc_max_bytes_per_tx :: nat
  cc_segment_rollover_records :: "nat option"
  cc_unsafe_mode :: bool

definition monolithic_config :: candidate_config where
  "monolithic_config = \<lparr>cc_name = ''monolithic'', cc_journal_mode = ''WAL'', cc_synchronous = ''FULL'',
     cc_busy_timeout_ms = 5000, cc_wal_autocheckpoint = 1000, cc_page_size = None, cc_max_records_per_tx = 64,
     cc_max_bytes_per_tx = 1048576, cc_segment_rollover_records = None, cc_unsafe_mode = False\<rparr>"

definition segmented_config :: candidate_config where
  "segmented_config = \<lparr>cc_name = ''segmented'', cc_journal_mode = ''WAL'', cc_synchronous = ''FULL'',
     cc_busy_timeout_ms = 5000, cc_wal_autocheckpoint = 1000, cc_page_size = None, cc_max_records_per_tx = 64,
     cc_max_bytes_per_tx = 1048576, cc_segment_rollover_records = Some 500, cc_unsafe_mode = False\<rparr>"

definition is_segmented :: "candidate_config \<Rightarrow> bool" where
  "is_segmented config \<longleftrightarrow> cc_segment_rollover_records config \<noteq> None"

definition candidate_label :: "candidate_config \<Rightarrow> string" where
  "candidate_label config = cc_name config @ (if cc_unsafe_mode config then '' [UNSAFE-BENCHMARK-ONLY]'' else [])"

record write_result =
  wr_journal_sequence :: i64
  wr_stream_sequence :: i64
  wr_envelope_checksum :: checksum

record write_batch_metrics =
  wm_committed_transactions :: nat
  wm_failed_transactions :: nat
  wm_written_records :: nat
  wm_failed_records :: nat
  wm_max_observed_batch_size :: nat
  wm_total_batch_records :: nat

definition default_metrics :: write_batch_metrics where
  "default_metrics = \<lparr>wm_committed_transactions = 0, wm_failed_transactions = 0, wm_written_records = 0,
     wm_failed_records = 0, wm_max_observed_batch_size = 0, wm_total_batch_records = 0\<rparr>"

subsection \<open>Tables and environment\<close>

record bench_envelope_row =
  be_journal_sequence :: i64
  be_event_id :: string
  be_installation_id :: string
  be_producer_id :: string
  be_namespace :: string
  be_logical_stream :: string
  be_stream_sequence :: i64
  be_schema_version :: i32
  be_payload_digest :: bytes
  be_request_fingerprint :: bytes
  be_envelope_checksum :: bytes
  be_payload_ref_id :: string
  be_payload_length :: i64
  be_received_at_ms :: i64

record bench_lifecycle_row =
  bl_event_id :: string
  bl_revision :: i64
  bl_snapshot_checksum :: bytes
  bl_delivery_status :: string
  bl_local_durable_at_ms :: i64

record bench_db =
  bd_envelopes :: "bench_envelope_row list"
  bd_payloads :: "payload_row list"
  bd_lifecycles :: "bench_lifecycle_row list"
  bd_stream_heads :: "stream_head_row list"

definition empty_bench_db :: bench_db where
  "empty_bench_db = \<lparr>bd_envelopes = [], bd_payloads = [], bd_lifecycles = [], bd_stream_heads = []\<rparr>"

datatype bench_point =
    BenchBegin | BenchCommit | BenchMaxSequence | BenchHeadQuery | BenchHeadUpsert | BenchEnvelope | BenchPayload
  | BenchLifecycle

record bench_env =
  bn_sha :: "bytes \<Rightarrow> checksum"
  bn_fault :: "nat \<Rightarrow> bench_point \<Rightarrow> string option"
  bn_reject :: "bench_point \<Rightarrow> string"
  bn_open_ok :: "nat \<Rightarrow> bool"
  bn_pragma_ok :: "nat \<Rightarrow> string \<Rightarrow> bool"
  bn_now_ms :: i64
  bn_overflow_checks :: bool

text \<open>A statement at position \<open>n\<close>: failed by the engine, refused by a constraint, or done.\<close>

definition bench_sql :: "bench_env \<Rightarrow> nat \<Rightarrow> bench_point \<Rightarrow> 'a option \<Rightarrow> string + 'a" where
  "bench_sql e n p v =
     (case bn_fault e n p of
        Some m \<Rightarrow> Inl m
      | None \<Rightarrow> (case v of None \<Rightarrow> Inl (bn_reject e p) | Some x \<Rightarrow> Inr x))"

subsection \<open>Writing one event\<close>

text \<open>\<^verbatim>\<open>query_row(..).ok()\<close> turns an engine error into a missing head; the upsert is expected to succeed.\<close>

definition allocate_bench_stream :: "bench_env \<Rightarrow> nat \<Rightarrow> bench_db \<Rightarrow> string \<Rightarrow> (i64 \<times> bench_db) outcome" where
  "allocate_bench_stream e n d stream_key =
     (let existing = (if bn_fault e n BenchHeadQuery = None
                      then map_option sh_head_sequence (select_row sh_stream_key stream_key (bd_stream_heads d)) else None) in
      bind_outcome (arith_i64 (bn_overflow_checks e) ((case existing of None \<Rightarrow> 0 | Some h \<Rightarrow> h) + 1)) (\<lambda>next.
        if bn_fault e n BenchHeadUpsert = None
        then Done (next, d\<lparr>bd_stream_heads := upsert_row sh_stream_key
               \<lparr>sh_stream_key = stream_key, sh_head_sequence = next\<rparr> (bd_stream_heads d)\<rparr>)
        else Panicked))"

definition bench_envelope_checksum :: "bench_env \<Rightarrow> synthetic_event \<Rightarrow> i64 \<Rightarrow> i64 \<Rightarrow> checksum" where
  "bench_envelope_checksum e event journal_seq stream_seq =
     bn_sha e (str_bytes (sy_installation_id event) @ [0] @ str_bytes (sy_event_id event) @ [0] @
       be_i64 journal_seq @ be_i64 stream_seq @ bytes_of (sy_payload_digest event))"

definition bench_envelope_of ::
    "bench_env \<Rightarrow> synthetic_event \<Rightarrow> i64 \<Rightarrow> i64 \<Rightarrow> checksum \<Rightarrow> bench_envelope_row" where
  "bench_envelope_of e event journal_seq stream_seq envelope_checksum =
     \<lparr>be_journal_sequence = journal_seq, be_event_id = sy_event_id event,
      be_installation_id = sy_installation_id event, be_producer_id = sy_producer_id event,
      be_namespace = sy_namespace event, be_logical_stream = sy_logical_stream event,
      be_stream_sequence = stream_seq, be_schema_version = sy_schema_version event,
      be_payload_digest = bytes_of (sy_payload_digest event),
      be_request_fingerprint = bytes_of (sy_request_fingerprint event),
      be_envelope_checksum = bytes_of envelope_checksum, be_payload_ref_id = sy_payload_ref_id event,
      be_payload_length = int (length (sy_payload event)), be_received_at_ms = bn_now_ms e\<rparr>"

definition write_three_rows ::
    "bench_env \<Rightarrow> nat \<Rightarrow> synthetic_event \<Rightarrow> i64 \<Rightarrow> i64 \<Rightarrow> checksum \<Rightarrow> bench_db \<Rightarrow> string + bench_db" where
  "write_three_rows e n event journal_seq stream_seq envelope_checksum d =
     bind_res (bench_sql e n BenchEnvelope
       (if journal_seq \<in> set (map be_journal_sequence (bd_envelopes d)) then None
        else map_option (\<lambda>rows. d\<lparr>bd_envelopes := rows\<rparr>)
          (insert_row be_event_id (bench_envelope_of e event journal_seq stream_seq envelope_checksum) (bd_envelopes d)))) (\<lambda>d1.
     bind_res (bench_sql e n BenchPayload
       (map_option (\<lambda>rows. d1\<lparr>bd_payloads := rows\<rparr>)
         (insert_row pb_event_id
           \<lparr>pb_event_id = sy_event_id event, pb_payload = sy_payload event,
            pb_payload_digest = bytes_of (sy_payload_digest event)\<rparr> (bd_payloads d1)))) (\<lambda>d2.
     bench_sql e n BenchLifecycle
       (map_option (\<lambda>rows. d2\<lparr>bd_lifecycles := rows\<rparr>)
         (insert_row bl_event_id
           \<lparr>bl_event_id = sy_event_id event, bl_revision = 1,
            bl_snapshot_checksum = bytes_of (bn_sha e (str_bytes (join_nul [show_int journal_seq, ''LOCAL_ACCEPTED_SYNTHETIC'']))),
            bl_delivery_status = ''LOCAL_ACCEPTED_SYNTHETIC'', bl_local_durable_at_ms = bn_now_ms e\<rparr>
           (bd_lifecycles d2)))))"

text \<open>\<^verbatim>\<open>COALESCE(MAX(journal_sequence), 0) + 1\<close>, read as an \<^verbatim>\<open>i64\<close>.\<close>

definition next_journal_sequence :: "bench_env \<Rightarrow> nat \<Rightarrow> bench_db \<Rightarrow> string + i64" where
  "next_journal_sequence e n d =
     (let next = max_sequence (map be_journal_sequence (bd_envelopes d)) + 1 in
      bench_sql e n BenchMaxSequence (if in_i64 next then Some next else None))"

definition write_event_in_tx ::
    "bench_env \<Rightarrow> nat \<Rightarrow> synthetic_event \<Rightarrow> bench_db \<Rightarrow> (string + write_result \<times> bench_db) outcome" where
  "write_event_in_tx e n event d =
     (case next_journal_sequence e n d of
        Inl m \<Rightarrow> Done (Inl m)
      | Inr journal_sequence \<Rightarrow>
          bind_outcome (allocate_bench_stream e n d (sy_logical_stream event)) (\<lambda>(stream_sequence, d1).
            let checksum = bench_envelope_checksum e event journal_sequence stream_sequence in
            Done (case write_three_rows e n event journal_sequence stream_sequence checksum d1 of
                Inl m \<Rightarrow> Inl m
              | Inr d2 \<Rightarrow> Inr (\<lparr>wr_journal_sequence = journal_sequence, wr_stream_sequence = stream_sequence,
                            wr_envelope_checksum = checksum\<rparr>, d2))))"

subsection \<open>Batches\<close>

text \<open>The loop of \<^verbatim>\<open>next_batch_end\<close>.\<close>

function batch_scan :: "synthetic_event list \<Rightarrow> nat \<Rightarrow> nat \<Rightarrow> nat \<Rightarrow> nat \<Rightarrow> nat \<Rightarrow> nat \<Rightarrow> nat" where
  "batch_scan events max_records max_bytes hard_end count bytes pos =
     (if pos < hard_end then
        let event_bytes = estimated_transaction_bytes (events ! pos) in
        if count > 0 \<and> (count \<ge> max_records \<or> bytes + event_bytes > max_bytes) then pos
        else batch_scan events max_records max_bytes hard_end (count + 1) (bytes + event_bytes) (pos + 1)
      else pos)"
  by pat_completeness auto

termination
  by (relation "measure (\<lambda>(events, max_records, max_bytes, hard_end, count, bytes, pos). hard_end - pos)") auto

declare batch_scan.simps [simp del]

definition next_batch_end :: "synthetic_event list \<Rightarrow> nat \<Rightarrow> nat \<Rightarrow> nat \<Rightarrow> nat \<Rightarrow> nat" where
  "next_batch_end events start max_records max_bytes hard_end = batch_scan events max_records max_bytes hard_end 0 0 start"

text \<open>The estimated size of a range of events.\<close>

definition batch_bytes :: "synthetic_event list \<Rightarrow> nat" where
  "batch_bytes events = sum_list (map estimated_transaction_bytes events)"


definition event_range :: "synthetic_event list \<Rightarrow> nat \<Rightarrow> nat \<Rightarrow> synthetic_event list" where
  "event_range events i j = take (j - i) (drop i events)"

lemma batch_bytes_simps [simp]: "batch_bytes [] = 0" "batch_bytes (x # xs) = estimated_transaction_bytes x + batch_bytes xs"
  by (simp_all add: batch_bytes_def)

lemma event_range_Cons: "i < j \<Longrightarrow> j \<le> length events \<Longrightarrow> event_range events i j = events ! i # event_range events (Suc i) j"
  by (simp add: event_range_def take_Cons' Cons_nth_drop_Suc [symmetric])

lemma event_range_refl [simp]: "event_range events i i = []"
  by (simp add: event_range_def)

lemma length_event_range: "j \<le> length events \<Longrightarrow> length (event_range events i j) = j - i"
  by (simp add: event_range_def)

text \<open>The invariant of the scan: what it returns from any point of the loop.\<close>

lemma batch_scan_bounds:
  assumes "pos \<le> hard_end" "hard_end \<le> length events"
  shows "pos \<le> batch_scan events mr mb hard_end c b pos \<and> batch_scan events mr mb hard_end c b pos \<le> hard_end \<and>
    (c = 0 \<and> pos < hard_end \<longrightarrow> pos < batch_scan events mr mb hard_end c b pos)"
  using assms
proof (induction events mr mb hard_end c b pos rule: batch_scan.induct)
  case (1 events mr mb hard_end c b pos)
  let ?next = "batch_scan events mr mb hard_end (c + 1) (b + estimated_transaction_bytes (events ! pos)) (pos + 1)"
  show ?case
  proof (cases "pos < hard_end \<and> \<not> (c > 0 \<and> (c \<ge> mr \<or> b + estimated_transaction_bytes (events ! pos) > mb))")
    case True
    then have eq: "batch_scan events mr mb hard_end c b pos = ?next" by (subst batch_scan.simps) (auto simp: Let_def)
    have "pos + 1 \<le> ?next \<and> ?next \<le> hard_end" using 1 True by (auto simp: Let_def)
    then show ?thesis unfolding eq by linarith
  next
    case False
    with 1(2,3) show ?thesis by (subst (1 2 3) batch_scan.simps) (auto simp: Let_def)
  qed
qed

lemma batch_scan_limits:
  assumes "pos \<le> hard_end" "hard_end \<le> length events" "c \<le> max 1 mr" "b \<le> mb \<or> c \<le> 1"
  defines "p \<equiv> batch_scan events mr mb hard_end c b pos"
  shows "c + (p - pos) \<le> max 1 mr \<and> (b + batch_bytes (event_range events pos p) \<le> mb \<or> c + (p - pos) \<le> 1) \<and>
    (p = hard_end \<or> c + (p - pos) \<ge> mr \<or> b + batch_bytes (event_range events pos p) + estimated_transaction_bytes (events ! p) > mb)"
  using assms(1-4) unfolding p_def
proof (induction events mr mb hard_end c b pos rule: batch_scan.induct)
  case (1 events mr mb hard_end c b pos)
  let ?eb = "estimated_transaction_bytes (events ! pos)"
  let ?next = "batch_scan events mr mb hard_end (c + 1) (b + ?eb) (pos + 1)"
  show ?case
  proof (cases "pos < hard_end \<and> \<not> (c > 0 \<and> (c \<ge> mr \<or> b + ?eb > mb))")
    case True
    then have eq: "batch_scan events mr mb hard_end c b pos = ?next" by (subst batch_scan.simps) (auto simp: Let_def)
    have bnd: "pos + 1 \<le> ?next" "?next \<le> hard_end"
      using batch_scan_bounds [of "pos + 1" hard_end events mr mb "c + 1" "b + ?eb"] True 1(3) by simp_all
    have ih: "c + 1 + (?next - (pos + 1)) \<le> max 1 mr \<and>
        (b + ?eb + batch_bytes (event_range events (pos + 1) ?next) \<le> mb \<or> c + 1 + (?next - (pos + 1)) \<le> 1) \<and>
        (?next = hard_end \<or> c + 1 + (?next - (pos + 1)) \<ge> mr \<or>
          b + ?eb + batch_bytes (event_range events (pos + 1) ?next) + estimated_transaction_bytes (events ! ?next) > mb)"
      by (rule 1(1) [OF _ refl]) (use True 1(2-5) in auto)
    have "event_range events pos ?next = events ! pos # event_range events (pos + 1) ?next"
      using event_range_Cons [of pos ?next events] bnd 1(3) by simp
    then have bytes: "b + ?eb + batch_bytes (event_range events (pos + 1) ?next) = b + batch_bytes (event_range events pos ?next)" by simp
    have count: "c + 1 + (?next - (pos + 1)) = c + (?next - pos)" using bnd(1) by linarith
    show ?thesis using ih unfolding eq bytes count .
  next
    case False
    then have "batch_scan events mr mb hard_end c b pos = pos" by (subst batch_scan.simps) (auto simp: Let_def)
    with False 1(2,4,5) show ?thesis by auto
  qed
qed

text \<open>
  C30: group commit limits. A batch starts where it should, is never empty and never exceeds the hard
  end; it holds at most the configured number of records and bytes (a single event that is too large
  forms a batch of its own); and it is maximal: it ends at the hard end, at the record limit, or
  because the next event would exceed the byte limit.
\<close>

theorem next_batch_end_spec:
  fixes max_records max_bytes :: nat
  assumes "start < hard_end" "hard_end \<le> length events"
  defines "p \<equiv> next_batch_end events start max_records max_bytes hard_end"
  shows "start < p \<and> p \<le> hard_end \<and> p - start \<le> max 1 max_records \<and>
    (batch_bytes (event_range events start p) \<le> max_bytes \<or> p = start + 1) \<and>
    (p = hard_end \<or> p - start \<ge> max_records \<or>
      batch_bytes (event_range events start p) + estimated_transaction_bytes (events ! p) > max_bytes)"
proof -
  have "start < p" "p \<le> hard_end"
    using batch_scan_bounds [of start hard_end events max_records max_bytes 0 0] assms by (simp_all add: next_batch_end_def)
  moreover note batch_scan_limits [of start hard_end events 0 max_records 0 max_bytes]
  ultimately show ?thesis using assms(1,2) by (auto simp: p_def next_batch_end_def)
qed

definition sample_event :: "nat \<Rightarrow> synthetic_event" where
  "sample_event i = generate_event (\<lambda>bs. fill_checksum (of_nat (length bs))) i ''i'' ''p'' ''n'' 4"

theorem next_batch_end_spec_witness:
  "1 < next_batch_end (map sample_event [0..<5]) 1 2 2000 5 \<and> next_batch_end (map sample_event [0..<5]) 1 2 2000 5 \<le> 3"
  using next_batch_end_spec [of 1 5 "map sample_event [0..<5]" 2 2000] by (simp, linarith)

lemma next_batch_end_progress:
  assumes "i < hard_end" "hard_end \<le> length events"
  shows "i < next_batch_end events i mr mb hard_end" "next_batch_end events i mr mb hard_end \<le> hard_end"
  using batch_scan_bounds [of i hard_end events mr mb 0 0] assms by (simp_all add: next_batch_end_def)

subsection \<open>The monolithic candidate\<close>

record monolithic_candidate =
  mc_db :: bench_db
  mc_config :: candidate_config
  mc_db_path :: "string option"

type_synonym write_results = "(string + write_result) list"

definition commit_metrics :: "nat \<Rightarrow> write_batch_metrics \<Rightarrow> write_batch_metrics" where
  "commit_metrics n m = m\<lparr>wm_committed_transactions := wm_committed_transactions m + 1,
     wm_written_records := wm_written_records m + n, wm_total_batch_records := wm_total_batch_records m + n,
     wm_max_observed_batch_size := (if n > wm_max_observed_batch_size m then n else wm_max_observed_batch_size m)\<rparr>"

definition fail_metrics :: "nat \<Rightarrow> write_batch_metrics \<Rightarrow> write_batch_metrics" where
  "fail_metrics n m = m\<lparr>wm_failed_transactions := wm_failed_transactions m + 1, wm_failed_records := wm_failed_records m + n\<rparr>"

text \<open>The loop over the events of one batch; the first error ends it.\<close>

fun write_mono_events ::
    "bench_env \<Rightarrow> nat \<Rightarrow> synthetic_event list \<Rightarrow> bench_db \<Rightarrow> write_result list \<Rightarrow> (string + write_result list \<times> bench_db) outcome" where
  "write_mono_events e n [] d batch_results = Done (Inr (batch_results, d))"
| "write_mono_events e n (event # rest) d batch_results =
     bind_outcome (write_event_in_tx e n event d) (\<lambda>r.
       case r of
         Inl m \<Rightarrow> Done (Inl m)
       | Inr (wr, d') \<Rightarrow> write_mono_events e (Suc n) rest d' (batch_results @ [wr]))"

definition rolled_back :: "string \<Rightarrow> synthetic_event list \<Rightarrow> write_results" where
  "rolled_back what batch = map (\<lambda>event. Inl (what @ '' rolled back for event '' @ sy_event_id event)) batch"

text \<open>One transaction: the results of the batch and the database it leaves; a dropped transaction rolls back.\<close>

definition write_mono_batch ::
    "bench_env \<Rightarrow> nat \<Rightarrow> synthetic_event list \<Rightarrow> bench_db \<Rightarrow> (string + write_result list) outcome \<times> bench_db" where
  "write_mono_batch e i batch d =
     (if bn_fault e i BenchBegin \<noteq> None then (Panicked, d)
      else case write_mono_events e i batch d [] of
          Panicked \<Rightarrow> (Panicked, d)
        | Done (Inl m) \<Rightarrow> (Done (Inl m), d)
        | Done (Inr (rs, d')) \<Rightarrow> if bn_fault e i BenchCommit \<noteq> None then (Panicked, d) else (Done (Inr rs), d'))"

function mono_loop ::
    "bench_env \<Rightarrow> candidate_config \<Rightarrow> synthetic_event list \<Rightarrow> nat \<Rightarrow> bench_db \<Rightarrow> write_results \<Rightarrow> write_batch_metrics
       \<Rightarrow> (write_results \<times> write_batch_metrics) outcome \<times> bench_db" where
  "mono_loop e config events i d results metrics =
     (if i < length events then
        let batch_end = next_batch_end events i (cc_max_records_per_tx config) (cc_max_bytes_per_tx config) (length events);
            batch = event_range events i batch_end in
        case write_mono_batch e i batch d of
          (Panicked, d') \<Rightarrow> (Panicked, d')
        | (Done (Inr rs), d') \<Rightarrow> mono_loop e config events batch_end d' (results @ map Inr rs) (commit_metrics (length rs) metrics)
        | (Done (Inl m), d') \<Rightarrow>
            mono_loop e config events batch_end d' (results @ rolled_back ''batch'' batch) (fail_metrics (length batch) metrics)
      else (Done (results, metrics), d))"
  by pat_completeness auto

termination
  by (relation "measure (\<lambda>(e, config, events, i, d, results, metrics). length events - i)")
    (auto simp: next_batch_end_progress intro!: diff_less_mono2)

declare mono_loop.simps [simp del]

definition mono_write_batch ::
    "bench_env \<Rightarrow> synthetic_event list \<Rightarrow> monolithic_candidate \<Rightarrow> (write_results \<times> write_batch_metrics) outcome \<times> monolithic_candidate" where
  "mono_write_batch e events c =
     (let (r, d) = mono_loop e (mc_config c) events 0 (mc_db c) [] default_metrics in (r, c\<lparr>mc_db := d\<rparr>))"

text \<open>
  Opening expects the connection, each pragma and the schema to work for the \<open>k\<close>-th database of the
  run (\<open>bn_open_ok\<close>, \<open>bn_pragma_ok\<close>); the file of a run is new.
\<close>

definition bench_pragmas :: "candidate_config \<Rightarrow> string list" where
  "bench_pragmas config =
     [''PRAGMA journal_mode = '' @ cc_journal_mode config @ '';'',
      ''PRAGMA synchronous = '' @ cc_synchronous config @ '';'',
      ''PRAGMA busy_timeout = '' @ show_nat (cc_busy_timeout_ms config) @ '';'',
      ''PRAGMA wal_autocheckpoint = '' @ show_nat (cc_wal_autocheckpoint config) @ '';''] @
     (case cc_page_size config of None \<Rightarrow> [] | Some ps \<Rightarrow> [''PRAGMA page_size = '' @ show_nat ps @ '';'']) @
     [''PRAGMA foreign_keys = ON;'']"

definition init_db :: "bench_env \<Rightarrow> nat \<Rightarrow> candidate_config \<Rightarrow> bench_db outcome" where
  "init_db e k config =
     (if bn_open_ok e k \<and> list_all (bn_pragma_ok e k) (bench_pragmas config) then Done empty_bench_db else Panicked)"

definition opens_always :: "bench_env \<Rightarrow> bool" where
  "opens_always e \<longleftrightarrow> (\<forall>k. bn_open_ok e k) \<and> (\<forall>k s. bn_pragma_ok e k s)"

lemma init_db_opens: "opens_always e \<Longrightarrow> init_db e k config = Done empty_bench_db"
  by (simp add: init_db_def opens_always_def list_all_iff)

definition mono_open :: "bench_env \<Rightarrow> string \<Rightarrow> candidate_config \<Rightarrow> monolithic_candidate outcome" where
  "mono_open e path config =
     bind_outcome (init_db e 0 config) (\<lambda>d. Done \<lparr>mc_db = d, mc_config = config, mc_db_path = Some path\<rparr>)"

definition mono_open_in_memory :: "bench_env \<Rightarrow> candidate_config \<Rightarrow> monolithic_candidate outcome" where
  "mono_open_in_memory e config =
     bind_outcome (init_db e 0 config) (\<lambda>d. Done \<lparr>mc_db = d, mc_config = config, mc_db_path = None\<rparr>)"

text \<open>\<open>mode\<close> is what SQLite answers to the query (\<open>None\<close> when it fails).\<close>

definition mono_journal_mode :: "string option \<Rightarrow> monolithic_candidate \<Rightarrow> string" where
  "mono_journal_mode mode c = (case mode of None \<Rightarrow> [] | Some m \<Rightarrow> m)"

text \<open>\<^verbatim>\<open>SELECT COUNT(*)\<close>; a failing query would count as zero.\<close>

definition mono_record_count :: "monolithic_candidate \<Rightarrow> nat" where
  "mono_record_count c = length (bd_envelopes (mc_db c))"


subsection \<open>Accounting\<close>

definition event_ids :: "bench_db \<Rightarrow> string list" where
  "event_ids d = map be_event_id (bd_envelopes d)"

fun is_ok :: "'e + 'a \<Rightarrow> bool" where
  "is_ok (Inl _) = False"
| "is_ok (Inr _) = True"

text \<open>The ids of the events whose result is a success, in order.\<close>

definition written_ids :: "synthetic_event list \<Rightarrow> write_results \<Rightarrow> string list" where
  "written_ids events results = map (sy_event_id \<circ> fst) (filter (is_ok \<circ> snd) (zip events results))"

lemma bench_sql_Inr: "bench_sql e n p v = Inr x \<longleftrightarrow> bn_fault e n p = None \<and> v = Some x"
  by (auto simp: bench_sql_def split: option.splits)

lemma write_three_rows_Inr:
  assumes "write_three_rows e n event js ss c d = Inr d'"
  shows "bd_envelopes d' = bd_envelopes d @ [bench_envelope_of e event js ss c]" "bd_stream_heads d' = bd_stream_heads d"
    "js \<notin> set (map be_journal_sequence (bd_envelopes d))" "sy_event_id event \<notin> set (event_ids d)"
  using assms by (auto simp: write_three_rows_def bind_res_eq_Inr bench_sql_Inr insert_row_Some select_row_None event_ids_def
      bench_envelope_of_def split: if_splits)

lemma allocate_bench_stream_Done:
  "allocate_bench_stream e n d k = Done (s, d') \<Longrightarrow> bd_envelopes d' = bd_envelopes d \<and> bd_payloads d' = bd_payloads d \<and>
     bd_lifecycles d' = bd_lifecycles d"
  by (auto simp: allocate_bench_stream_def bind_outcome_eq_Done Let_def split: if_splits)

lemma write_event_in_tx_Inr:
  assumes "write_event_in_tx e n event d = Done (Inr (wr, d'))"
  shows "event_ids d' = event_ids d @ [sy_event_id event]"
    "map be_journal_sequence (bd_envelopes d') = map be_journal_sequence (bd_envelopes d) @ [wr_journal_sequence wr]"
    "wr_journal_sequence wr = max_sequence (map be_journal_sequence (bd_envelopes d)) + 1"
proof -
  let ?js = "max_sequence (map be_journal_sequence (bd_envelopes d)) + 1"
  have "next_journal_sequence e n d = Inr ?js"
    using assms by (auto simp: write_event_in_tx_def next_journal_sequence_def bench_sql_def Let_def split: option.splits if_splits)
  moreover from this assms obtain ss d1 where al: "allocate_bench_stream e n d (sy_logical_stream event) = Done (ss, d1)"
    by (cases "allocate_bench_stream e n d (sy_logical_stream event)") (auto simp: write_event_in_tx_def)
  ultimately have w: "write_three_rows e n event ?js ss (bench_envelope_checksum e event ?js ss) d1 = Inr d'"
    and wr: "wr_journal_sequence wr = ?js"
    using assms by (cases "write_three_rows e n event ?js ss (bench_envelope_checksum e event ?js ss) d1",
        auto simp: write_event_in_tx_def Let_def)+
  from write_three_rows_Inr(1) [OF w] allocate_bench_stream_Done [OF al] wr
  show "event_ids d' = event_ids d @ [sy_event_id event]"
    "map be_journal_sequence (bd_envelopes d') = map be_journal_sequence (bd_envelopes d) @ [wr_journal_sequence wr]"
    "wr_journal_sequence wr = ?js" by (simp_all add: event_ids_def bench_envelope_of_def)
qed

lemma write_mono_events_Inr:
  "write_mono_events e n events d acc = Done (Inr (rs, d')) \<Longrightarrow>
     \<exists>new. rs = acc @ new \<and> length new = length events \<and> event_ids d' = event_ids d @ map sy_event_id events"
proof (induction events arbitrary: n d acc)
  case (Cons event events)
  then obtain wr d1 where w: "write_event_in_tx e n event d = Done (Inr (wr, d1))"
    and rest: "write_mono_events e (Suc n) events d1 (acc @ [wr]) = Done (Inr (rs, d'))"
    by (cases "write_event_in_tx e n event d"; cases "case write_event_in_tx e n event d of Done r \<Rightarrow> r | Panicked \<Rightarrow> Inl []") auto
  from Cons.IH [OF rest] write_event_in_tx_Inr(1) [OF w] show ?case by (auto intro: exI [of _ "wr # _"])
qed simp

lemma write_mono_batch_Done:
  assumes "write_mono_batch e i batch d = (Done r, d')"
  shows "case r of Inl _ \<Rightarrow> d' = d | Inr rs \<Rightarrow> length rs = length batch \<and> event_ids d' = event_ids d @ map sy_event_id batch"
  using assms write_mono_events_Inr [of e i batch d "[]"]
  by (auto simp: write_mono_batch_def split: if_splits outcome.splits sum.splits)

text \<open>What holds after \<open>i\<close> events of a run that started from the ids \<open>ids0\<close>.\<close>

definition accounted :: "string list \<Rightarrow> synthetic_event list \<Rightarrow> nat \<Rightarrow> string list \<Rightarrow> write_results \<Rightarrow> write_batch_metrics \<Rightarrow> bool" where
  "accounted ids0 events i ids results metrics \<longleftrightarrow> i \<le> length events \<and> length results = i \<and>
     ids = ids0 @ written_ids (take i events) results \<and> wm_written_records metrics = length (filter is_ok results) \<and>
     wm_total_batch_records metrics = wm_written_records metrics \<and> wm_written_records metrics + wm_failed_records metrics = i"

lemma written_ids_append:
  "length xs = length rs \<Longrightarrow> written_ids (xs @ ys) (rs @ ts) = written_ids xs rs @ written_ids ys ts"
  by (simp add: written_ids_def)

lemma written_ids_all: "length rs = length ys \<Longrightarrow> written_ids ys (map Inr rs) = map sy_event_id ys"
proof (induction ys arbitrary: rs)
  case (Cons y ys)
  then show ?case by (cases rs) (auto simp: written_ids_def)
qed (simp add: written_ids_def)

lemma written_ids_none: "written_ids ys (rolled_back what ys) = []"
  by (induction ys) (simp_all add: written_ids_def rolled_back_def)

lemma length_written_ids: "length results = length events \<Longrightarrow> length (written_ids events results) = length (filter is_ok results)"
  unfolding written_ids_def by (induction results events rule: list_induct2) auto

lemma take_event_range: "i \<le> j \<Longrightarrow> take j events = take i events @ event_range events i j"
  by (metis event_range_def le_add_diff_inverse take_add)

lemma accounted_commit:
  assumes "accounted ids0 events i ids results metrics" "i \<le> j" "j \<le> length events" "length rs = j - i"
    "ids' = ids @ map sy_event_id (event_range events i j)"
  shows "accounted ids0 events j ids' (results @ map Inr rs) (commit_metrics (length rs) metrics)"
proof -
  have len: "length (event_range events i j) = length rs" using assms(3,4) by (simp add: length_event_range)
  have "written_ids (take j events) (results @ map Inr rs) = written_ids (take i events) results @ map sy_event_id (event_range events i j)"
    using assms(1,2) len by (simp add: take_event_range written_ids_append written_ids_all accounted_def)
  then show ?thesis using assms by (simp add: accounted_def commit_metrics_def) linarith
qed

lemma accounted_rollback:
  assumes "accounted ids0 events i ids results metrics" "i \<le> j" "j \<le> length events"
  shows "accounted ids0 events j ids (results @ rolled_back what (event_range events i j))
    (fail_metrics (length (event_range events i j)) metrics)"
proof -
  have "written_ids (take j events) (results @ rolled_back what (event_range events i j)) = written_ids (take i events) results"
    using assms(1,2) by (simp add: take_event_range written_ids_append written_ids_none accounted_def)
  moreover have "filter is_ok (rolled_back what ys) = []" "length (rolled_back what ys) = length ys" for ys
    by (simp_all add: rolled_back_def filter_empty_conv)
  ultimately show ?thesis using assms by (simp add: accounted_def fail_metrics_def length_event_range) linarith
qed

lemma mono_loop_accounted:
  assumes "mono_loop e config events i d results metrics = (Done (results', metrics'), d')"
    "accounted ids0 events i (event_ids d) results metrics"
  shows "accounted ids0 events (length events) (event_ids d') results' metrics'"
  using assms
proof (induction e config events i d results metrics rule: mono_loop.induct)
  case (1 e config events i d results metrics)
  let ?j = "next_batch_end events i (cc_max_records_per_tx config) (cc_max_bytes_per_tx config) (length events)"
  show ?case
  proof (cases "i < length events")
    case False
    with 1(3,4) show ?thesis by (auto simp: mono_loop.simps [of e config events i] accounted_def)
  next
    case True
    obtain r d1 where b: "write_mono_batch e i (event_range events i ?j) d = (Done r, d1)"
      using 1(3) True by (subst (asm) mono_loop.simps) (auto simp: Let_def split: prod.splits outcome.splits)
    have j: "i \<le> ?j" "?j \<le> length events" using next_batch_end_progress [of i "length events" events] True by (simp_all add: less_imp_le)
    note w = write_mono_batch_Done [OF b]
    show ?thesis
    proof (cases r)
      case (Inl m)
      then have eq: "mono_loop e config events i d results metrics =
          mono_loop e config events ?j d1 (results @ rolled_back ''batch'' (event_range events i ?j))
            (fail_metrics (length (event_range events i ?j)) metrics)"
        using b True by (subst mono_loop.simps) (simp add: Let_def)
      from w Inl have "event_ids d1 = event_ids d" by simp
      with accounted_rollback [OF 1(4) j, of "''batch''"] have acc: "accounted ids0 events ?j (event_ids d1)
          (results @ rolled_back ''batch'' (event_range events i ?j)) (fail_metrics (length (event_range events i ?j)) metrics)" by simp
      from 1(3) have loop: "mono_loop e config events ?j d1 (results @ rolled_back ''batch'' (event_range events i ?j))
          (fail_metrics (length (event_range events i ?j)) metrics) = (Done (results', metrics'), d')" unfolding eq .
      show ?thesis by (rule 1(1) [OF True refl refl b [symmetric] refl Inl loop acc])
    next
      case (Inr rs)
      then have eq: "mono_loop e config events i d results metrics =
          mono_loop e config events ?j d1 (results @ map Inr rs) (commit_metrics (length rs) metrics)"
        using b True by (subst mono_loop.simps) (simp add: Let_def)
      from w Inr j(2) have "length rs = ?j - i" "event_ids d1 = event_ids d @ map sy_event_id (event_range events i ?j)"
        by (simp_all add: length_event_range)
      then have acc: "accounted ids0 events ?j (event_ids d1) (results @ map Inr rs) (commit_metrics (length rs) metrics)"
        by (rule accounted_commit [OF 1(4) j])
      from 1(3) have loop: "mono_loop e config events ?j d1 (results @ map Inr rs) (commit_metrics (length rs) metrics) =
          (Done (results', metrics'), d')" unfolding eq .
      show ?thesis by (rule 1(2) [OF True refl refl b [symmetric] refl Inr loop acc])
    qed
  qed
qed


lemma mono_write_batch_accounted:
  assumes "mono_write_batch e events c = (Done (results, metrics), c')"
  shows "accounted (event_ids (mc_db c)) events (length events) (event_ids (mc_db c')) results metrics"
proof -
  obtain d where loop: "mono_loop e (mc_config c) events 0 (mc_db c) [] default_metrics = (Done (results, metrics), d)" and "mc_db c' = d"
    using assms by (auto simp: mono_write_batch_def Let_def split: prod.splits)
  have "accounted (event_ids (mc_db c)) events 0 (event_ids (mc_db c)) [] default_metrics"
    by (simp add: accounted_def written_ids_def default_metrics_def)
  from mono_loop_accounted [OF loop this] \<open>mc_db c' = d\<close> show ?thesis by simp
qed

text \<open>
  Nothing is lost or written twice by a batched write. When \<^verbatim>\<open>write_batch\<close> of the monolithic
  candidate returns, there is one result per event; the rows that were added are exactly those of the
  events with a successful result, in the order of the events; and the metrics count them: written
  records are the successful results, and written and failed records add up to the events.
\<close>

theorem mono_write_batch_accounts:
  assumes "mono_write_batch e events c = (Done (results, metrics), c')"
  shows "length results = length events \<and>
    event_ids (mc_db c') = event_ids (mc_db c) @ written_ids events results \<and>
    wm_written_records metrics = length (filter is_ok results) \<and>
    wm_written_records metrics + wm_failed_records metrics = length events"
  using mono_write_batch_accounted [OF assms] by (simp add: accounted_def)

subsection \<open>Runs without failures do not panic\<close>

definition bench_faultless :: "bench_env \<Rightarrow> bool" where
  "bench_faultless e \<longleftrightarrow> (\<forall>n p. bn_fault e n p = None) \<and> opens_always e \<and> \<not> bn_overflow_checks e"

lemma allocate_no_panic: "bench_faultless e \<Longrightarrow> allocate_bench_stream e n d k \<noteq> Panicked"
  by (simp add: allocate_bench_stream_def bench_faultless_def arith_i64_def Let_def)

lemma write_event_in_tx_no_panic: "bench_faultless e \<Longrightarrow> write_event_in_tx e n event d \<noteq> Panicked"
  using allocate_no_panic [of e n d "sy_logical_stream event"]
  by (cases "next_journal_sequence e n d"; cases "allocate_bench_stream e n d (sy_logical_stream event)")
    (auto simp: write_event_in_tx_def Let_def)

lemma write_mono_events_no_panic: "bench_faultless e \<Longrightarrow> write_mono_events e n events d acc \<noteq> Panicked"
proof (induction events arbitrary: n d acc)
  case (Cons event events)
  obtain r where "write_event_in_tx e n event d = Done r"
    using write_event_in_tx_no_panic [OF Cons.prems] by (cases "write_event_in_tx e n event d") auto
  then show ?case by (cases r) (auto simp: Cons.IH [OF Cons.prems])
qed simp

lemma write_mono_batch_no_panic:
  assumes "bench_faultless e"
  shows "fst (write_mono_batch e i batch d) \<noteq> Panicked"
proof -
  obtain r where "write_mono_events e i batch d [] = Done r"
    using write_mono_events_no_panic [OF assms] by (cases "write_mono_events e i batch d []") auto
  with assms show ?thesis by (cases r) (auto simp: write_mono_batch_def bench_faultless_def)
qed

lemma mono_loop_no_panic:
  assumes "bench_faultless e"
  shows "\<exists>x d'. mono_loop e config events i d results metrics = (Done x, d')"
proof (induction "length events - i" arbitrary: i d results metrics rule: less_induct)
  case less
  let ?j = "next_batch_end events i (cc_max_records_per_tx config) (cc_max_bytes_per_tx config) (length events)"
  show ?case
  proof (cases "i < length events")
    case True
    obtain r d1 where b: "write_mono_batch e i (event_range events i ?j) d = (Done r, d1)"
      using write_mono_batch_no_panic [OF assms, of i "event_range events i ?j" d]
      by (cases "write_mono_batch e i (event_range events i ?j) d"; cases "fst (write_mono_batch e i (event_range events i ?j) d)") auto
    have "length events - ?j < length events - i" using next_batch_end_progress [OF True] True by (simp add: diff_less_mono2)
    note ih = less.hyps [OF this]
    show ?thesis using True b ih by (cases r) (simp_all add: mono_loop.simps [of e config events i] Let_def)
  qed (simp add: mono_loop.simps)
qed

subsection \<open>Witnesses\<close>

definition sample_bench_env :: bench_env where
  "sample_bench_env = \<lparr>bn_sha = (\<lambda>bs. fill_checksum (of_nat (length bs))), bn_fault = (\<lambda>_ _. None), bn_reject = (\<lambda>_. ''constraint''),
     bn_open_ok = (\<lambda>_. True), bn_pragma_ok = (\<lambda>_ _. True), bn_now_ms = 1000, bn_overflow_checks = False\<rparr>"

lemma sample_opens: "opens_always sample_bench_env"
  by (simp add: opens_always_def sample_bench_env_def)

lemma sample_bench_faultless: "bench_faultless sample_bench_env"
  using sample_opens by (simp add: bench_faultless_def sample_bench_env_def)

theorem mono_write_batch_accounts_witness:
  "\<exists>c results metrics c'. mono_open_in_memory sample_bench_env monolithic_config = Done c \<and>
     mono_write_batch sample_bench_env (map sample_event [0..<5]) c = (Done (results, metrics), c') \<and> length results = 5 \<and>
     wm_written_records metrics + wm_failed_records metrics = 5"
proof -
  obtain c where c: "mono_open_in_memory sample_bench_env monolithic_config = Done c"
    by (simp add: mono_open_in_memory_def init_db_opens sample_opens)
  obtain results metrics c' where w: "mono_write_batch sample_bench_env (map sample_event [0..<5]) c = (Done (results, metrics), c')"
    using mono_loop_no_panic [OF sample_bench_faultless, of "mc_config c" "map sample_event [0..<5]" 0 "mc_db c" "[]" default_metrics]
    by (force simp: mono_write_batch_def Let_def)
  from mono_write_batch_accounts [OF w] w c show ?thesis by auto
qed

end
