(* ===== verification/Bench_Segments.thy ===== *)
theory Bench_Segments
  imports Bench_Candidate
begin

text \<open>
  The segmented candidate of \<^verbatim>\<open>candidate.rs\<close>: one database file per segment, rolled over after a number
  of records. The loop of its \<^verbatim>\<open>write_batch\<close> is a partial function: it returns for every rollover limit
  but zero, for which it rolls segments forever.
\<close>

subsection \<open>State\<close>

record segment_info =
  si_path :: string
  si_record_count :: u32
  si_first_journal_seq :: i64
  si_last_journal_seq :: i64

text \<open>
  \<open>sc_active_conn\<close> is the database of the open segment, \<open>sc_closed\<close> those of the segments before it
  (dropping a connection keeps its file).
\<close>

record segmented_candidate =
  sc_dir :: string
  sc_config :: candidate_config
  sc_segments :: "segment_info list"
  sc_active_conn :: "bench_db option"
  sc_closed :: "bench_db list"
  sc_global_journal_seq :: i64
  sc_records_in_active :: u32

text \<open>\<^verbatim>\<open>Path::join\<close> with a relative name, and \<^verbatim>\<open>{:04}\<close>.\<close>

definition path_join :: "string \<Rightarrow> string \<Rightarrow> string" where
  "path_join dir name = (if dir = [] \<or> last dir = CHR ''/'' then dir @ name else dir @ ''/'' @ name)"

definition pad4 :: "nat \<Rightarrow> string" where
  "pad4 n = replicate (4 - length (show_nat n)) CHR ''0'' @ show_nat n"

text \<open>
  Opening a segment expects the file, the pragmas and the schema to work (\<open>init_db\<close>). The file is
  new: the run directory is emptied before a run, and segment numbers are not used twice.
\<close>

definition roll_segment :: "bench_env \<Rightarrow> segmented_candidate \<Rightarrow> segmented_candidate outcome" where
  "roll_segment e c =
     (let seg_index = length (sc_segments c) in
      bind_outcome (init_db e seg_index (sc_config c)) (\<lambda>d.
      bind_outcome (arith_i64 (bn_overflow_checks e) (sc_global_journal_seq c + 1)) (\<lambda>first_journal_seq.
           Done (c\<lparr>sc_closed := sc_closed c @ (case sc_active_conn c of None \<Rightarrow> [] | Some d \<Rightarrow> [d]),
             sc_active_conn := Some d, sc_records_in_active := 0,
             sc_segments := sc_segments c @
               [\<lparr>si_path = path_join (sc_dir c) (''segment_'' @ pad4 seg_index @ ''.db''), si_record_count = 0,
                 si_first_journal_seq = first_journal_seq, si_last_journal_seq = sc_global_journal_seq c\<rparr>]\<rparr>))))"

definition open_segmented :: "bench_env \<Rightarrow> string \<Rightarrow> candidate_config \<Rightarrow> segmented_candidate outcome" where
  "open_segmented e dir config = roll_segment e
     \<lparr>sc_dir = dir, sc_config = config, sc_segments = [], sc_active_conn = None, sc_closed = [],
      sc_global_journal_seq = 0, sc_records_in_active = 0\<rparr>"

definition needs_rollover :: "segmented_candidate \<Rightarrow> bool" where
  "needs_rollover c = (case cc_segment_rollover_records (sc_config c) of Some limit \<Rightarrow> sc_records_in_active c \<ge> limit | None \<Rightarrow> False)"

subsection \<open>Writing\<close>

text \<open>The loop over the events of one batch; \<open>local_journal_seq\<close> is the last sequence handed out.\<close>

fun write_segment_events ::
    "bench_env \<Rightarrow> nat \<Rightarrow> synthetic_event list \<Rightarrow> i64 \<Rightarrow> bench_db \<Rightarrow> write_result list
       \<Rightarrow> (string + write_result list \<times> bench_db \<times> i64) outcome" where
  "write_segment_events e n [] local_journal_seq d batch_results = Done (Inr (batch_results, d, local_journal_seq))"
| "write_segment_events e n (event # rest) local_journal_seq d batch_results =
     bind_outcome (arith_i64 (bn_overflow_checks e) (local_journal_seq + 1)) (\<lambda>journal_seq.
      bind_outcome (allocate_bench_stream e n d (sy_logical_stream event)) (\<lambda>(stream_seq, d1).
        let checksum = bench_envelope_checksum e event journal_seq stream_seq in
        case write_three_rows e n event journal_seq stream_seq checksum d1 of
          Inl m \<Rightarrow> Done (Inl m)
        | Inr d2 \<Rightarrow> write_segment_events e (Suc n) rest journal_seq d2
            (batch_results @ [\<lparr>wr_journal_sequence = journal_seq, wr_stream_sequence = stream_seq, wr_envelope_checksum = checksum\<rparr>])))"

text \<open>\<^verbatim>\<open>self.segments.last_mut()\<close>.\<close>

fun update_last :: "('a \<Rightarrow> 'a) \<Rightarrow> 'a list \<Rightarrow> 'a list" where
  "update_last f [] = []"
| "update_last f [x] = [f x]"
| "update_last f (x # y # ys) = x # update_last f (y # ys)"

text \<open>
  After the commit of \<open>n\<close> records: the database stays changed when one of the \<^verbatim>\<open>u32\<close> additions panics. (\<open>n\<close> is
  below $2^{32}$, being at most the \<^verbatim>\<open>u32\<close> record limit of a transaction.)
\<close>

definition commit_segment ::
    "bool \<Rightarrow> nat \<Rightarrow> bench_db \<Rightarrow> i64 \<Rightarrow> segmented_candidate \<Rightarrow> unit outcome \<times> segmented_candidate" where
  "commit_segment checks n d local_journal_seq c =
     (let c1 = c\<lparr>sc_active_conn := Some d, sc_global_journal_seq := local_journal_seq\<rparr> in
      case arith_u32 checks (sc_records_in_active c1 + n) of
        Panicked \<Rightarrow> (Panicked, c1)
      | Done active \<Rightarrow>
          (let c2 = c1\<lparr>sc_records_in_active := active\<rparr> in
           if sc_segments c2 = [] then (Done (), c2)
           else case arith_u32 checks (si_record_count (last (sc_segments c2)) + n) of
               Panicked \<Rightarrow> (Panicked, c2)
             | Done records \<Rightarrow> (Done (), c2\<lparr>sc_segments :=
                 update_last (\<lambda>seg. seg\<lparr>si_record_count := records, si_last_journal_seq := local_journal_seq\<rparr>) (sc_segments c2)\<rparr>)))"

definition write_segment_batch ::
    "bench_env \<Rightarrow> nat \<Rightarrow> synthetic_event list \<Rightarrow> segmented_candidate \<Rightarrow> (string + write_result list) outcome \<times> segmented_candidate" where
  "write_segment_batch e i batch c =
     (case sc_active_conn c of
        None \<Rightarrow> (Panicked, c)
      | Some d \<Rightarrow>
          if bn_fault e i BenchBegin \<noteq> None then (Panicked, c)
          else case write_segment_events e i batch (sc_global_journal_seq c) d [] of
              Panicked \<Rightarrow> (Panicked, c)
            | Done (Inl m) \<Rightarrow> (Done (Inl m), c)
            | Done (Inr (rs, d', local_journal_seq)) \<Rightarrow>
                if bn_fault e i BenchCommit \<noteq> None then (Panicked, c)
                else case commit_segment (bn_overflow_checks e) (length rs) d' local_journal_seq c of
                    (Panicked, c') \<Rightarrow> (Panicked, c')
                  | (Done _, c') \<Rightarrow> (Done (Inr rs), c'))"

text \<open>
  The end of the next batch. The subtraction cannot underflow: a segment that holds \<open>limit\<close> records or
  more has just been rolled over.
\<close>

definition segment_batch_end :: "synthetic_event list \<Rightarrow> nat \<Rightarrow> segmented_candidate \<Rightarrow> nat" where
  "segment_batch_end events i c =
     (let remaining = (case cc_segment_rollover_records (sc_config c) of
            Some limit \<Rightarrow> limit - sc_records_in_active c | None \<Rightarrow> length events - i);
          hard_end = min (i + remaining) (length events) in
      next_batch_end events i (cc_max_records_per_tx (sc_config c)) (cc_max_bytes_per_tx (sc_config c)) hard_end)"

definition roll_if_needed :: "bench_env \<Rightarrow> segmented_candidate \<Rightarrow> segmented_candidate outcome" where
  "roll_if_needed e c = (if needs_rollover c then roll_segment e c else Done c)"

partial_function (option) seg_loop ::
    "bench_env \<Rightarrow> synthetic_event list \<Rightarrow> nat \<Rightarrow> segmented_candidate \<Rightarrow> write_results \<Rightarrow> write_batch_metrics
       \<Rightarrow> ((write_results \<times> write_batch_metrics) outcome \<times> segmented_candidate) option" where
  "seg_loop e events i c results metrics =
     (if i < length events then
        case roll_if_needed e c of
          Panicked \<Rightarrow> Some (Panicked, c)
        | Done c1 \<Rightarrow>
            (let batch_end = segment_batch_end events i c1; batch = event_range events i batch_end in
             case write_segment_batch e i batch c1 of
               (Panicked, c2) \<Rightarrow> Some (Panicked, c2)
             | (Done (Inr rs), c2) \<Rightarrow>
                 seg_loop e events batch_end c2 (results @ map Inr rs) (commit_metrics (length rs) metrics)
             | (Done (Inl m), c2) \<Rightarrow>
                 seg_loop e events batch_end c2 (results @ rolled_back ''segment batch'' batch) (fail_metrics (length batch) metrics))
      else Some (Done (results, metrics), c))"

definition seg_write_batch ::
    "bench_env \<Rightarrow> synthetic_event list \<Rightarrow> segmented_candidate
       \<Rightarrow> ((write_results \<times> write_batch_metrics) outcome \<times> segmented_candidate) option" where
  "seg_write_batch e events c = seg_loop e events 0 c [] default_metrics"

definition segment_count :: "segmented_candidate \<Rightarrow> nat" where
  "segment_count c = length (sc_segments c)"

text \<open>\<^verbatim>\<open>sum()\<close> over \<^verbatim>\<open>u32\<close>: each addition panics or wraps.\<close>

definition total_records :: "bool \<Rightarrow> segmented_candidate \<Rightarrow> u32 outcome" where
  "total_records checks c =
     foldl (\<lambda>acc n. bind_outcome acc (\<lambda>a. arith_u32 checks (a + n))) (Done 0) (map si_record_count (sc_segments c))"


subsection \<open>Termination\<close>

lemma roll_segment_Done: "roll_segment e c = Done c1 \<Longrightarrow> sc_config c1 = sc_config c \<and> sc_records_in_active c1 = 0"
  by (auto simp: roll_segment_def init_db_def Let_def bind_outcome_eq_Done split: if_splits)

lemma roll_if_needed_Done:
  "roll_if_needed e c = Done c1 \<Longrightarrow> sc_config c1 = sc_config c \<and>
     (cc_segment_rollover_records (sc_config c) = Some limit \<and> 0 < limit \<longrightarrow> sc_records_in_active c1 < limit)"
  by (auto simp: roll_if_needed_def needs_rollover_def dest: roll_segment_Done split: if_splits option.splits)

lemma segment_batch_end_progress:
  assumes "roll_if_needed e c = Done c1" "i < length events" "cc_segment_rollover_records (sc_config c) \<noteq> Some 0"
  shows "i < segment_batch_end events i c1" "segment_batch_end events i c1 \<le> length events"
proof -
  let ?r = "case cc_segment_rollover_records (sc_config c1) of Some limit \<Rightarrow> limit - sc_records_in_active c1 | None \<Rightarrow> length events - i"
  have "0 < ?r"
    using roll_if_needed_Done [OF assms(1)] assms(2,3) by (auto split: option.splits)
  then have "i < min (i + ?r) (length events)" using assms(2) by simp
  from next_batch_end_progress [OF this]
  show "i < segment_batch_end events i c1" "segment_batch_end events i c1 \<le> length events"
    by (auto simp: segment_batch_end_def Let_def intro: order_trans)
qed

lemma write_segment_batch_config: "write_segment_batch e i batch c = (r, c') \<Longrightarrow> sc_config c' = sc_config c"
  by (auto simp: write_segment_batch_def commit_segment_def Let_def split: option.splits outcome.splits sum.splits if_splits prod.splits)

lemma seg_loop_returns:
  "cc_segment_rollover_records (sc_config c) \<noteq> Some 0 \<Longrightarrow> \<exists>x. seg_loop e events i c results metrics = Some x"
proof (induction "length events - i" arbitrary: i c results metrics rule: less_induct)
  case less
  show ?case
  proof (cases "i < length events")
    case True
    show ?thesis
    proof (cases "roll_if_needed e c")
      case (Done c1)
      note j = segment_batch_end_progress [OF Done True less.prems]
      have dec: "length events - segment_batch_end events i c1 < length events - i" using j by simp
      obtain r c2 where b: "write_segment_batch e i (event_range events i (segment_batch_end events i c1)) c1 = (r, c2)" by fastforce
      have "cc_segment_rollover_records (sc_config c2) \<noteq> Some 0"
        using less.prems roll_if_needed_Done [OF Done] write_segment_batch_config [OF b] by simp
      note ih = less.hyps [OF dec this]
      show ?thesis
      proof (cases r)
        case (Done x)
        with True \<open>roll_if_needed e c = Done c1\<close> b ih show ?thesis
          by (subst seg_loop.simps) (cases x; simp add: Let_def)
      qed (use True Done b in \<open>simp add: seg_loop.simps Let_def\<close>)
    qed (use True in \<open>simp add: seg_loop.simps\<close>)
  qed (simp add: seg_loop.simps)
qed

text \<open>
  C29: the segmented write returns. Whatever the events, the batch limits and the failures, a write with
  a rollover limit other than zero (or none) returns or panics; it does not loop.
\<close>

theorem seg_write_batch_returns:
  assumes "cc_segment_rollover_records (sc_config c) \<noteq> Some 0"
  shows "\<exists>r c'. seg_write_batch e events c = Some (r, c')"
  using seg_loop_returns [OF assms, of e events 0 "[]" default_metrics] by (auto simp: seg_write_batch_def)

text \<open>One iteration under a limit of zero: a new segment, an empty transaction, the same position.\<close>

lemma zero_rollover_step:
  assumes "cc_segment_rollover_records (sc_config c) = Some 0" "init_db e (length (sc_segments c)) (sc_config c) = Done empty_bench_db"
    "bn_fault e i BenchBegin = None" "bn_fault e i BenchCommit = None" "i < length events" "in_i64 (sc_global_journal_seq c + 1)"
  obtains c1 c2 where "roll_if_needed e c = Done c1" "segment_batch_end events i c1 = i"
    "write_segment_batch e i [] c1 = (Done (Inr []), c2)" "sc_config c2 = sc_config c" "sc_global_journal_seq c2 = sc_global_journal_seq c"
proof -
  obtain c1 ss s where c1: "roll_if_needed e c = Done c1" "sc_config c1 = sc_config c" "sc_active_conn c1 = Some empty_bench_db"
    "sc_global_journal_seq c1 = sc_global_journal_seq c" "sc_records_in_active c1 = 0" "sc_segments c1 = ss @ [s]" "si_record_count s = 0"
    using assms(1,2,6) by (simp add: roll_if_needed_def needs_rollover_def roll_segment_def Let_def)
  have "segment_batch_end events i c1 = i"
    using assms(1,5) c1(2) roll_segment_Done [of e c c1] c1(1)
    by (simp add: segment_batch_end_def Let_def next_batch_end_def batch_scan.simps)
  moreover have "\<exists>c2. write_segment_batch e i [] c1 = (Done (Inr []), c2) \<and> sc_global_journal_seq c2 = sc_global_journal_seq c"
    using assms(3,4) c1(3-7) by (simp add: write_segment_batch_def commit_segment_def u32_max_def Let_def)
  then obtain c2 where c2: "write_segment_batch e i [] c1 = (Done (Inr []), c2)" "sc_global_journal_seq c2 = sc_global_journal_seq c" by blast
  ultimately show ?thesis using that c1 write_segment_batch_config [OF c2(1)] by simp
qed

lemma zero_rollover_diverges:
  assumes "seg_loop e events i c results metrics = Some y"
  shows "cc_segment_rollover_records (sc_config c) = Some 0 \<longrightarrow> opens_always e \<longrightarrow> in_i64 (sc_global_journal_seq c + 1) \<longrightarrow>
    bn_fault e i BenchBegin = None \<longrightarrow> bn_fault e i BenchCommit = None \<longrightarrow> \<not> i < length events"
  using assms
proof (rule seg_loop.raw_induct [rotated, where P = "\<lambda>e events i c results metrics y.
    cc_segment_rollover_records (sc_config c) = Some 0 \<longrightarrow> opens_always e \<longrightarrow> in_i64 (sc_global_journal_seq c + 1) \<longrightarrow>
    bn_fault e i BenchBegin = None \<longrightarrow> bn_fault e i BenchCommit = None \<longrightarrow> \<not> i < length events"], intro impI notI)
  fix f e events i c results metrics y
  assume ih: "\<And>e events i c results metrics y. f e events i c results metrics = Some y \<Longrightarrow>
      cc_segment_rollover_records (sc_config c) = Some 0 \<longrightarrow> opens_always e \<longrightarrow> in_i64 (sc_global_journal_seq c + 1) \<longrightarrow>
      bn_fault e i BenchBegin = None \<longrightarrow> bn_fault e i BenchCommit = None \<longrightarrow> \<not> i < length events"
    and body: "(if i < length events then
        case roll_if_needed e c of
          Panicked \<Rightarrow> Some (Panicked, c)
        | Done c1 \<Rightarrow>
            (let batch_end = segment_batch_end events i c1; batch = event_range events i batch_end in
             case write_segment_batch e i batch c1 of
               (Panicked, c2) \<Rightarrow> Some (Panicked, c2)
             | (Done (Inr rs), c2) \<Rightarrow>
                 f e events batch_end c2 (results @ map Inr rs) (commit_metrics (length rs) metrics)
             | (Done (Inl m), c2) \<Rightarrow>
                 f e events batch_end c2 (results @ rolled_back ''segment batch'' batch) (fail_metrics (length batch) metrics))
      else Some (Done (results, metrics), c)) = Some y"
    and z: "cc_segment_rollover_records (sc_config c) = Some 0" "opens_always e" and room: "in_i64 (sc_global_journal_seq c + 1)"
    and z': "bn_fault e i BenchBegin = None" "bn_fault e i BenchCommit = None" "i < length events"
  obtain c1 c2 where s: "roll_if_needed e c = Done c1" "segment_batch_end events i c1 = i"
    "write_segment_batch e i [] c1 = (Done (Inr []), c2)" "sc_config c2 = sc_config c" "sc_global_journal_seq c2 = sc_global_journal_seq c"
    by (rule zero_rollover_step [OF z(1) init_db_opens [OF z(2)] z' room])
  with body z'(3) have "f e events i c2 results (commit_metrics 0 metrics) = Some y" by (simp add: Let_def)
  from ih [OF this] z z' room s(4,5) show False by simp
qed

text \<open>
  A write with a rollover limit of zero never returns: every iteration opens a new segment, writes an
  empty batch to it and starts again at the same event.
\<close>

lemma zero_rollover_never_returns:
  assumes "cc_segment_rollover_records (sc_config c) = Some 0" "events \<noteq> []" "opens_always e" "in_i64 (sc_global_journal_seq c + 1)"
    and "bn_fault e 0 BenchBegin = None" "bn_fault e 0 BenchCommit = None"
  shows "seg_write_batch e events c = None"
  using zero_rollover_diverges [of e events 0 c "[]" default_metrics] assms
  by (cases "seg_write_batch e events c") (auto simp: seg_write_batch_def)


subsection \<open>Segments\<close>

text \<open>The databases of all segments, in order, and their rows.\<close>

definition segment_dbs :: "segmented_candidate \<Rightarrow> bench_db list" where
  "segment_dbs c = sc_closed c @ (case sc_active_conn c of None \<Rightarrow> [] | Some d \<Rightarrow> [d])"

definition all_rows :: "segmented_candidate \<Rightarrow> bench_envelope_row list" where
  "all_rows c = concat (map bd_envelopes (segment_dbs c))"

text \<open>The bounds recorded for the segments follow each other without gap; \<open>b\<close> is the last sequence before.\<close>

fun bounds_ok :: "i64 \<Rightarrow> segment_info list \<Rightarrow> bool" where
  "bounds_ok b [] = True"
| "bounds_ok b (s # ss) \<longleftrightarrow> si_first_journal_seq s = b + 1 \<and> si_last_journal_seq s = b + int (si_record_count s) \<and>
     bounds_ok (b + int (si_record_count s)) ss"

definition seg_inv :: "segmented_candidate \<Rightarrow> bool" where
  "seg_inv c \<longleftrightarrow> (\<exists>d ss s. sc_active_conn c = Some d \<and> sc_segments c = ss @ [s] \<and> sc_records_in_active c = si_record_count s) \<and>
     map si_record_count (sc_segments c) = map (length \<circ> bd_envelopes) (segment_dbs c) \<and>
     map be_journal_sequence (all_rows c) = upto_int (length (all_rows c)) \<and>
     sc_global_journal_seq c = int (length (all_rows c)) \<and> bounds_ok 0 (sc_segments c) \<and>
     (\<forall>limit s. cc_segment_rollover_records (sc_config c) = Some limit \<longrightarrow> s \<in> set (sc_segments c) \<longrightarrow> si_record_count s \<le> limit)"

lemma bounds_ok_append: "bounds_ok b (xs @ ys) \<longleftrightarrow> bounds_ok b xs \<and> bounds_ok (b + int (sum_list (map si_record_count xs))) ys"
  by (induction xs arbitrary: b) (auto simp: algebra_simps)

lemma update_last_append [simp]: "update_last f (xs @ [x]) = xs @ [f x]"
proof (induction xs)
  case (Cons y ys)
  then show ?case by (cases "ys @ [x]") auto
qed simp

lemma length_all_rows: "seg_inv c \<Longrightarrow> length (all_rows c) = sum_list (map si_record_count (sc_segments c))"
proof -
  assume "seg_inv c"
  then have "map si_record_count (sc_segments c) = map (length \<circ> bd_envelopes) (segment_dbs c)" by (simp add: seg_inv_def)
  moreover have "length (all_rows c) = sum_list (map (length \<circ> bd_envelopes) (segment_dbs c))"
    by (simp add: all_rows_def length_concat)
  ultimately show ?thesis by simp
qed

text \<open>The \<^verbatim>\<open>u32\<close> sum is exact as long as the rows are fewer than $2^{32}$.\<close>

lemma u32_sum: "a + sum_list xs \<le> u32_max \<Longrightarrow> foldl (\<lambda>acc n. bind_outcome acc (\<lambda>a. arith_u32 checks (a + n))) (Done a) xs = Done (a + sum_list xs)"
  by (induction xs arbitrary: a) (simp_all add: add.assoc)

lemma total_records_exact: "seg_inv c \<Longrightarrow> length (all_rows c) \<le> u32_max \<Longrightarrow> total_records checks c = Done (length (all_rows c))"
  using u32_sum [of 0 "map si_record_count (sc_segments c)"] by (simp add: total_records_def length_all_rows)

text \<open>
  What every write keeps: a segment is open, and the invariant holds as long as there are fewer than $2^{32}$ rows
  (beyond that the \<^verbatim>\<open>u32\<close> and \<^verbatim>\<open>i64\<close> counters may wrap).
\<close>

definition seg_kept :: "segmented_candidate \<Rightarrow> bool" where
  "seg_kept c \<longleftrightarrow> sc_active_conn c \<noteq> None \<and> (length (all_rows c) \<le> u32_max \<longrightarrow> seg_inv c)"

lemma seg_kept_inv: "seg_inv c \<Longrightarrow> seg_kept c"
  by (auto simp: seg_kept_def seg_inv_def)

lemma row_count_in_i64: "n \<le> u32_max \<Longrightarrow> in_i64 (int n + 1)"
  by (simp add: in_i64_def i64_max_def u32_max_def)

lemma roll_segment_eq:
  assumes "roll_segment e c = Done c1" "sc_active_conn c = Some d"
  obtains f where "arith_i64 (bn_overflow_checks e) (sc_global_journal_seq c + 1) = Done f"
    "c1 = c\<lparr>sc_closed := sc_closed c @ [d], sc_active_conn := Some empty_bench_db, sc_records_in_active := 0,
      sc_segments := sc_segments c @
        [\<lparr>si_path = path_join (sc_dir c) (''segment_'' @ pad4 (length (sc_segments c)) @ ''.db''), si_record_count = 0,
          si_first_journal_seq = f, si_last_journal_seq = sc_global_journal_seq c\<rparr>]\<rparr>"
  using assms by (auto simp: roll_segment_def init_db_def Let_def bind_outcome_eq_Done split: if_splits)

lemma roll_segment_kept:
  assumes "roll_segment e c = Done c1" "seg_kept c"
  shows "seg_kept c1 \<and> all_rows c1 = all_rows c"
proof -
  obtain d where d: "sc_active_conn c = Some d" using assms(2) by (auto simp: seg_kept_def)
  obtain f where f: "arith_i64 (bn_overflow_checks e) (sc_global_journal_seq c + 1) = Done f" and
    c1: "c1 = c\<lparr>sc_closed := sc_closed c @ [d], sc_active_conn := Some empty_bench_db, sc_records_in_active := 0,
      sc_segments := sc_segments c @
        [\<lparr>si_path = path_join (sc_dir c) (''segment_'' @ pad4 (length (sc_segments c)) @ ''.db''), si_record_count = 0,
          si_first_journal_seq = f, si_last_journal_seq = sc_global_journal_seq c\<rparr>]\<rparr>" by (rule roll_segment_eq [OF assms(1) d])
  have dbs: "segment_dbs c1 = segment_dbs c @ [empty_bench_db]" using d by (simp add: c1 segment_dbs_def)
  then have rows: "all_rows c1 = all_rows c" by (simp add: all_rows_def empty_bench_db_def)
  have "seg_inv c1" if few: "length (all_rows c) \<le> u32_max"
  proof -
    have inv: "seg_inv c" using assms(2) few by (simp add: seg_kept_def)
    have g: "sc_global_journal_seq c = int (length (all_rows c))" using inv by (simp add: seg_inv_def)
    with f row_count_in_i64 [OF few] have f': "f = sc_global_journal_seq c + 1" by simp
    have sum: "int (sum_list (map si_record_count (sc_segments c))) = sc_global_journal_seq c"
      using g length_all_rows [OF inv] by simp
    have "map si_record_count (sc_segments c1) = map (length \<circ> bd_envelopes) (segment_dbs c1)"
      using inv unfolding dbs by (simp add: c1 seg_inv_def empty_bench_db_def)
    moreover have "bounds_ok 0 (sc_segments c1)" using inv sum by (simp add: c1 f' seg_inv_def bounds_ok_append)
    ultimately show ?thesis using inv rows unfolding seg_inv_def by (auto simp: c1)
  qed
  then show ?thesis using rows by (simp add: seg_kept_def c1)
qed

lemma write_segment_events_Inr:
  "write_segment_events e n events j d acc = Done (Inr (rs, d', j')) \<Longrightarrow>
     \<exists>new. rs = acc @ new \<and> length new = length events \<and> event_ids d' = event_ids d @ map sy_event_id events \<and>
       (0 \<le> j \<and> in_i64 (j + int (length events)) \<longrightarrow> j' = j + int (length events) \<and>
         map be_journal_sequence (bd_envelopes d') = map be_journal_sequence (bd_envelopes d) @ map (\<lambda>i. j + int i) [1..<Suc (length events)])"
proof (induction events arbitrary: n j d acc)
  case (Cons event events)
  obtain js where js: "arith_i64 (bn_overflow_checks e) (j + 1) = Done js"
    using Cons.prems by (cases "arith_i64 (bn_overflow_checks e) (j + 1)") auto
  obtain ss d1 where al: "allocate_bench_stream e n d (sy_logical_stream event) = Done (ss, d1)"
    using Cons.prems js by (cases "allocate_bench_stream e n d (sy_logical_stream event)") auto
  let ?c = "bench_envelope_checksum e event js ss"
  obtain d2 where w: "write_three_rows e n event js ss ?c d1 = Inr d2"
    using Cons.prems js al by (cases "write_three_rows e n event js ss ?c d1") (auto simp: Let_def)
  let ?wr = "\<lparr>wr_journal_sequence = js, wr_stream_sequence = ss, wr_envelope_checksum = ?c\<rparr>"
  have "write_segment_events e (Suc n) events js d2 (acc @ [?wr]) = Done (Inr (rs, d', j'))"
    using Cons.prems js al w by (simp add: Let_def)
  from Cons.IH [OF this] obtain new where new: "rs = acc @ ?wr # new" "length new = length events"
    "event_ids d' = event_ids d2 @ map sy_event_id events"
    and seqs: "0 \<le> js \<and> in_i64 (js + int (length events)) \<longrightarrow> j' = js + int (length events) \<and>
      map be_journal_sequence (bd_envelopes d') = map be_journal_sequence (bd_envelopes d2) @ map (\<lambda>i. js + int i) [1..<Suc (length events)]"
    by auto
  have row: "bd_envelopes d2 = bd_envelopes d @ [bench_envelope_of e event js ss ?c]"
    using write_three_rows_Inr(1) [OF w] allocate_bench_stream_Done [OF al] by simp
  have list: "map (\<lambda>i. j + int i) [1..<Suc (Suc (length events))] = (j + 1) # map (\<lambda>i. j + 1 + int i) [1..<Suc (length events)]"
    by (simp add: upt_conv_Cons map_Suc_upt [symmetric] comp_def algebra_simps del: upt_Suc)
  have "js = j + 1" if "0 \<le> j" "in_i64 (j + int (length (event # events)))"
  proof -
    have "in_i64 (j + 1)" using that by (simp add: in_i64_def i64_max_def)
    with js show ?thesis by simp
  qed
  with new row seqs list show ?case by (auto simp: event_ids_def bench_envelope_of_def algebra_simps simp del: upt_Suc)
qed simp


definition row_ids :: "segmented_candidate \<Rightarrow> string list" where
  "row_ids c = map be_event_id (all_rows c)"

lemma length_row_ids [simp]: "length (row_ids c) = length (all_rows c)"
  by (simp add: row_ids_def)

text \<open>What a commit does to the rows, whatever the counters do.\<close>

lemma commit_segment_rows:
  assumes "commit_segment checks n d' j c = (r, c')" "sc_active_conn c = Some d" "event_ids d' = event_ids d @ map sy_event_id batch"
  shows "sc_config c' = sc_config c \<and> sc_active_conn c' = Some d' \<and> row_ids c' = row_ids c @ map sy_event_id batch \<and>
    length (all_rows c') = length (all_rows c) + length batch"
proof -
  have c': "sc_config c' = sc_config c \<and> sc_active_conn c' = Some d' \<and> sc_closed c' = sc_closed c"
    using assms(1) by (auto simp: commit_segment_def Let_def split: outcome.splits if_splits)
  then have "all_rows c = concat (map bd_envelopes (sc_closed c)) @ bd_envelopes d"
    "all_rows c' = concat (map bd_envelopes (sc_closed c)) @ bd_envelopes d'"
    using assms(2) by (simp_all add: all_rows_def segment_dbs_def)
  moreover have "length (bd_envelopes d') = length (bd_envelopes d) + length batch"
    using arg_cong [OF assms(3), of length] by (simp add: event_ids_def)
  ultimately show ?thesis using c' assms(3) by (simp add: row_ids_def event_ids_def)
qed

lemma commit_segment_exact:
  assumes "sc_segments c = ss @ [s]" "sc_records_in_active c + n \<le> u32_max" "si_record_count s + n \<le> u32_max"
  shows "commit_segment checks n d' j c = (Done (), c\<lparr>sc_active_conn := Some d', sc_global_journal_seq := j,
    sc_records_in_active := sc_records_in_active c + n,
    sc_segments := ss @ [s\<lparr>si_record_count := si_record_count s + n, si_last_journal_seq := j\<rparr>]\<rparr>)"
  using assms by (simp add: commit_segment_def Let_def)

lemma commit_segment_inv:
  assumes inv: "seg_inv c" and d: "sc_active_conn c = Some d" and n: "n = length batch"
    and rows: "map be_journal_sequence (bd_envelopes d') = map be_journal_sequence (bd_envelopes d) @
        map (\<lambda>i. sc_global_journal_seq c + int i) [1..<Suc n]"
      "event_ids d' = event_ids d @ map sy_event_id batch"
    and limit: "\<And>limit. cc_segment_rollover_records (sc_config c) = Some limit \<Longrightarrow> sc_records_in_active c + n \<le> limit"
    and few: "length (all_rows c) + n \<le> u32_max"
    and commit: "commit_segment checks n d' (sc_global_journal_seq c + int n) c = (r, c')"
  shows "seg_inv c'"
proof -
  obtain ss s where s: "sc_segments c = ss @ [s]" "sc_records_in_active c = si_record_count s" using inv by (auto simp: seg_inv_def)
  let ?s = "s\<lparr>si_record_count := si_record_count s + n, si_last_journal_seq := sc_global_journal_seq c + int n\<rparr>"
  let ?old = "concat (map bd_envelopes (sc_closed c))"
  have "si_record_count s \<le> length (all_rows c)" using length_all_rows [OF inv] s(1) by simp
  then have "sc_records_in_active c + n \<le> u32_max" "si_record_count s + n \<le> u32_max" using few s(2) by simp_all
  from commit_segment_exact [OF s(1) this] commit
  have c': "sc_active_conn c' = Some d'" "sc_closed c' = sc_closed c" "sc_segments c' = ss @ [?s]" "sc_config c' = sc_config c"
    "sc_global_journal_seq c' = sc_global_journal_seq c + int n" "sc_records_in_active c' = si_record_count ?s"
    using s(2) by auto
  have dbs: "segment_dbs c = sc_closed c @ [d]" "segment_dbs c' = sc_closed c @ [d']" using d c' by (simp_all add: segment_dbs_def)
  have all: "all_rows c = ?old @ bd_envelopes d" "all_rows c' = ?old @ bd_envelopes d'" by (simp_all add: all_rows_def dbs)
  have len: "length (bd_envelopes d') = length (bd_envelopes d) + n"
    using arg_cong [OF rows(1), of length] by (simp del: upt_Suc)
  have g: "sc_global_journal_seq c = int (length (all_rows c))" using inv by (simp add: seg_inv_def)
  have seqs: "map be_journal_sequence (all_rows c') = map be_journal_sequence (all_rows c) @ map (\<lambda>i. int (length (all_rows c)) + int i) [1..<Suc n]"
    using rows(1) g by (simp add: all del: upt_Suc)
  have "upto_int (m + n) = upto_int m @ map (\<lambda>i. int m + int i) [1..<Suc n]" for m by (induction n) auto
  moreover have "length (all_rows c') = length (all_rows c) + n" using len by (simp add: all)
  moreover have "map be_journal_sequence (all_rows c) = upto_int (length (all_rows c))" using inv by (simp add: seg_inv_def)
  ultimately have seqs': "map be_journal_sequence (all_rows c') = upto_int (length (all_rows c'))" using seqs by simp
  have counts: "map si_record_count (sc_segments c') = map (length \<circ> bd_envelopes) (segment_dbs c')"
    using inv len unfolding seg_inv_def dbs c'(3) s(1) by simp
  have "bounds_ok 0 (ss @ [s])" using inv s(1) by (simp add: seg_inv_def)
  moreover have "sc_global_journal_seq c = int (sum_list (map si_record_count ss)) + int (si_record_count s)"
    using g length_all_rows [OF inv] s(1) by simp
  ultimately have "bounds_ok 0 (sc_segments c')" by (simp add: c'(3) bounds_ok_append)
  moreover have "\<forall>limit x. cc_segment_rollover_records (sc_config c') = Some limit \<longrightarrow> x \<in> set (sc_segments c') \<longrightarrow> si_record_count x \<le> limit"
    using inv limit s unfolding c'(3,4) seg_inv_def by auto
  ultimately show "seg_inv c'" using c' seqs' counts g len unfolding seg_inv_def by (auto simp: all)
qed

lemma write_segment_batch_Done:
  assumes "write_segment_batch e i batch c = (Done r, c')" "seg_kept c"
    and "\<And>limit. cc_segment_rollover_records (sc_config c) = Some limit \<Longrightarrow> sc_records_in_active c + length batch \<le> limit"
  shows "seg_kept c' \<and> (case r of Inl _ \<Rightarrow> row_ids c' = row_ids c | Inr rs \<Rightarrow> length rs = length batch \<and> row_ids c' = row_ids c @ map sy_event_id batch)"
proof -
  obtain d where d: "sc_active_conn c = Some d" using assms(2) by (auto simp: seg_kept_def)
  show ?thesis
  proof (cases r)
    case (Inl m)
    with assms d show ?thesis by (auto simp: write_segment_batch_def split: if_splits outcome.splits sum.splits prod.splits)
  next
    case (Inr rs)
    then obtain d' j where ev: "write_segment_events e i batch (sc_global_journal_seq c) d [] = Done (Inr (rs, d', j))"
      and commit: "commit_segment (bn_overflow_checks e) (length rs) d' j c = (Done (), c')"
      using assms(1) d by (auto simp: write_segment_batch_def split: if_splits outcome.splits sum.splits prod.splits)
    from write_segment_events_Inr [OF ev] have f: "length rs = length batch" "event_ids d' = event_ids d @ map sy_event_id batch"
      and seqs: "0 \<le> sc_global_journal_seq c \<and> in_i64 (sc_global_journal_seq c + int (length rs)) \<longrightarrow>
        j = sc_global_journal_seq c + int (length rs) \<and>
        map be_journal_sequence (bd_envelopes d') = map be_journal_sequence (bd_envelopes d) @
        map (\<lambda>i. sc_global_journal_seq c + int i) [1..<Suc (length rs)]" by (auto simp del: upt_Suc)
    note rows = commit_segment_rows [OF commit d f(2)]
    have "seg_inv c'" if few: "length (all_rows c') \<le> u32_max"
    proof -
      have few': "length (all_rows c) + length rs \<le> u32_max" using few rows f(1) by simp
      then have inv: "seg_inv c" using assms(2) by (simp add: seg_kept_def)
      then have g: "sc_global_journal_seq c = int (length (all_rows c))" by (simp add: seg_inv_def)
      then have "0 \<le> sc_global_journal_seq c \<and> in_i64 (sc_global_journal_seq c + int (length rs))"
        using few' by (simp add: in_i64_def i64_max_def u32_max_def)
      with seqs have j: "j = sc_global_journal_seq c + int (length rs)"
        "map be_journal_sequence (bd_envelopes d') = map be_journal_sequence (bd_envelopes d) @
        map (\<lambda>i. sc_global_journal_seq c + int i) [1..<Suc (length rs)]" by blast+
      show ?thesis
        by (rule commit_segment_inv [OF inv d f(1) j(2) f(2) _ few' commit [unfolded j(1)]]) (use assms(3) f(1) in simp)
    qed
    with rows f(1) Inr show ?thesis by (simp add: seg_kept_def)
  qed
qed

lemma roll_if_needed_kept:
  "roll_if_needed e c = Done c1 \<Longrightarrow> seg_kept c \<Longrightarrow> seg_kept c1 \<and> row_ids c1 = row_ids c"
  using roll_segment_kept by (auto simp: roll_if_needed_def row_ids_def split: if_splits)

lemma segment_batch_fits:
  assumes "roll_if_needed e c = Done c1" "i < length events" "cc_segment_rollover_records (sc_config c1) = Some limit" "0 < limit"
  shows "sc_records_in_active c1 + length (event_range events i (segment_batch_end events i c1)) \<le> limit"
proof -
  have c1: "sc_records_in_active c1 < limit" using roll_if_needed_Done [OF assms(1), of limit] assms(3,4) by simp
  have "i < min (i + (limit - sc_records_in_active c1)) (length events)" using assms(2) c1 by simp
  from next_batch_end_progress(2) [OF this] have "segment_batch_end events i c1 \<le> i + (limit - sc_records_in_active c1)"
    using assms(3) by (simp add: segment_batch_end_def Let_def)
  then show ?thesis using c1 by (simp add: event_range_def)
qed


lemma seg_loop_accounted:
  assumes "cc_segment_rollover_records (sc_config c) \<noteq> Some 0" "seg_kept c"
    and "seg_loop e events i c results metrics = Some (Done (results', metrics'), c')"
    and "accounted ids0 events i (row_ids c) results metrics"
  shows "seg_kept c' \<and> accounted ids0 events (length events) (row_ids c') results' metrics'"
  using assms
proof (induction "length events - i" arbitrary: i c results metrics rule: less_induct)
  case less
  show ?case
  proof (cases "i < length events")
    case False
    with less.prems(2-4) show ?thesis by (auto simp: seg_loop.simps [of e events i] accounted_def)
  next
    case True
    obtain c1 where roll: "roll_if_needed e c = Done c1"
      using less.prems(3) True by (cases "roll_if_needed e c") (auto simp: seg_loop.simps [of e events i])
    let ?j = "segment_batch_end events i c1"
    let ?batch = "event_range events i ?j"
    note j = segment_batch_end_progress [OF roll True less.prems(1)]
    have dec: "length events - ?j < length events - i" using j by simp
    have c1: "seg_kept c1" "row_ids c1 = row_ids c" "sc_config c1 = sc_config c"
      using roll_if_needed_kept [OF roll less.prems(2)] roll_if_needed_Done [OF roll] by simp_all
    obtain r c2 where b: "write_segment_batch e i ?batch c1 = (Done r, c2)"
      using less.prems(3) True roll by (cases "write_segment_batch e i ?batch c1"; cases "fst (write_segment_batch e i ?batch c1)")
        (auto simp: seg_loop.simps [of e events i] Let_def)
    have fits: "sc_records_in_active c1 + length ?batch \<le> limit" if "cc_segment_rollover_records (sc_config c1) = Some limit" for limit
      using segment_batch_fits [OF roll True that] less.prems(1) that c1(3) by (cases limit) auto
    note w = write_segment_batch_Done [OF b c1(1) fits]
    have cfg: "cc_segment_rollover_records (sc_config c2) \<noteq> Some 0" using write_segment_batch_config [OF b] c1(3) less.prems(1) by simp
    have acc: "accounted ids0 events i (row_ids c1) results metrics" using less.prems(4) c1(2) by simp
    have ij: "i \<le> ?j" using j(1) by simp
    show ?thesis
    proof (cases r)
      case (Inl m)
      have "seg_loop e events ?j c2 (results @ rolled_back ''segment batch'' ?batch) (fail_metrics (length ?batch) metrics) =
          Some (Done (results', metrics'), c')"
        using less.prems(3) True roll b Inl by (simp add: seg_loop.simps [of e events i] Let_def)
      moreover have "accounted ids0 events ?j (row_ids c2) (results @ rolled_back ''segment batch'' ?batch) (fail_metrics (length ?batch) metrics)"
        using accounted_rollback [OF acc ij j(2)] w Inl by simp
      ultimately show ?thesis using less.hyps [OF dec cfg] w by blast
    next
      case (Inr rs)
      have "seg_loop e events ?j c2 (results @ map Inr rs) (commit_metrics (length rs) metrics) = Some (Done (results', metrics'), c')"
        using less.prems(3) True roll b Inr by (simp add: seg_loop.simps [of e events i] Let_def)
      moreover have "accounted ids0 events ?j (row_ids c2) (results @ map Inr rs) (commit_metrics (length rs) metrics)"
        by (rule accounted_commit [OF acc ij j(2)]) (use w Inr j(2) in \<open>simp_all add: length_event_range\<close>)
      ultimately show ?thesis using less.hyps [OF dec cfg] w by blast
    qed
  qed
qed

lemma open_segmented_inv: "open_segmented e dir config = Done c \<Longrightarrow> seg_inv c \<and> row_ids c = [] \<and> sc_config c = config"
  by (auto simp: open_segmented_def roll_segment_def init_db_def seg_inv_def segment_dbs_def all_rows_def row_ids_def empty_bench_db_def Let_def
      in_i64_def i64_max_def split: if_splits)

lemma seg_loop_config:
  "seg_loop e events i c results metrics = Some (r, c') \<Longrightarrow> cc_segment_rollover_records (sc_config c) \<noteq> Some 0 \<Longrightarrow>
     sc_config c' = sc_config c"
proof (induction "length events - i" arbitrary: i c results metrics rule: less_induct)
  case less
  show ?case
  proof (cases "i < length events \<and> roll_if_needed e c \<noteq> Panicked")
    case True
    then obtain c1 where roll: "roll_if_needed e c = Done c1" by (cases "roll_if_needed e c") auto
    let ?j = "segment_batch_end events i c1"
    obtain x c2 where b: "write_segment_batch e i (event_range events i ?j) c1 = (x, c2)" by fastforce
    have c2: "sc_config c2 = sc_config c" using roll_if_needed_Done [OF roll] write_segment_batch_config [OF b] by simp
    have dec: "length events - ?j < length events - i" using segment_batch_end_progress [OF roll conjunct1 [OF True] less.prems(2)] by simp
    note ih = less.hyps [OF dec, of c2, unfolded c2, OF _ less.prems(2)]
    show ?thesis
    proof (cases x)
      case (Done y)
      with less.prems(1) True roll b ih show ?thesis by (cases y) (simp_all add: seg_loop.simps [of e events i] Let_def)
    qed (use less.prems(1) True roll b c2 in \<open>simp add: seg_loop.simps [of e events i] Let_def\<close>)
  qed (use less.prems(1) in \<open>auto simp: seg_loop.simps [of e events i] split: if_splits\<close>)
qed

lemmas seg_write_batch_config = seg_loop_config [of _ _ 0 _ "[]" default_metrics, folded seg_write_batch_def]

lemma seg_write_batch_accounted:
  assumes "cc_segment_rollover_records (sc_config c) \<noteq> Some 0" "seg_kept c"
    and "seg_write_batch e events c = Some (Done (results, metrics), c')"
  shows "seg_kept c'" "accounted (row_ids c) events (length events) (row_ids c') results metrics"
proof -
  have "accounted (row_ids c) events 0 (row_ids c) [] default_metrics"
    by (simp add: accounted_def written_ids_def default_metrics_def)
  from seg_loop_accounted [OF assms(1,2) assms(3) [unfolded seg_write_batch_def] this]
  show "seg_kept c'" "accounted (row_ids c) events (length events) (row_ids c') results metrics" by simp_all
qed

text \<open>
  C28: segments keep the journal. A write that returns, with a rollover limit other than zero and on a candidate that
  holds fewer than $2^{32}$ records with the events of the write, leaves the segments in order: their record counts
  are those of their databases and within the rollover limit, the journal sequences over all segments
  are $1, 2, \ldots, n$ without gap, and the bounds recorded for the segments follow each other; the
  added rows are exactly those of the events with a successful result, in order; the metrics
  count them, and so does \<^verbatim>\<open>total_records\<close>. Within that bound the \<^verbatim>\<open>u32\<close> and \<^verbatim>\<open>i64\<close> counters neither wrap nor panic.
\<close>

theorem seg_write_batch_keeps_segments:
  assumes "cc_segment_rollover_records (sc_config c) \<noteq> Some 0" "seg_inv c"
    and "length (row_ids c) + length events \<le> u32_max"
    and "seg_write_batch e events c = Some (Done (results, metrics), c')"
  shows "seg_inv c' \<and> length results = length events \<and> row_ids c' = row_ids c @ written_ids events results \<and>
    total_records checks c = Done (length (row_ids c)) \<and>
    total_records checks c' = Done (length (row_ids c) + wm_written_records metrics) \<and>
    wm_written_records metrics + wm_failed_records metrics = length events"
proof -
  note f = seg_write_batch_accounted [OF assms(1) seg_kept_inv [OF assms(2)] assms(4)]
  then have rows: "row_ids c' = row_ids c @ written_ids events results" and len: "length results = length events" by (simp_all add: accounted_def)
  have "length (written_ids events results) = length (filter is_ok results)"
    using len by (rule length_written_ids)
  then have count: "length (all_rows c') = length (all_rows c) + wm_written_records metrics"
    using arg_cong [OF rows, of length] f(2) by (simp add: accounted_def)
  moreover have "wm_written_records metrics + wm_failed_records metrics = length events" using f(2) by (simp add: accounted_def)
  ultimately have few: "length (all_rows c) \<le> u32_max" "length (all_rows c') \<le> u32_max" using assms(3) by simp_all
  then have inv: "seg_inv c'" using f(1) by (simp add: seg_kept_def)
  from total_records_exact [OF assms(2) few(1)] total_records_exact [OF inv few(2)] f inv rows len count show ?thesis
    by (simp add: accounted_def)
qed


subsection \<open>Runs without failures do not panic\<close>

lemma write_segment_events_no_panic: "bench_faultless e \<Longrightarrow> write_segment_events e n events j d acc \<noteq> Panicked"
proof (induction events arbitrary: n j d acc)
  case (Cons event events)
  obtain js where js: "arith_i64 (bn_overflow_checks e) (j + 1) = Done js"
    using Cons.prems arith_unchecked(2) by (cases "arith_i64 (bn_overflow_checks e) (j + 1)") (auto simp: bench_faultless_def)
  obtain s d1 where a: "allocate_bench_stream e n d (sy_logical_stream event) = Done (s, d1)"
    using allocate_no_panic [OF Cons.prems, of n d "sy_logical_stream event"]
    by (cases "allocate_bench_stream e n d (sy_logical_stream event)") auto
  show ?case
    by (cases "write_three_rows e n event js s (bench_envelope_checksum e event js s) d1")
      (simp_all add: js a Let_def Cons.IH [OF Cons.prems])
qed simp

lemma commit_segment_unchecked: "fst (commit_segment False n d j c) = Done ()"
  by (simp add: commit_segment_def arith_u32_def Let_def)

lemma write_segment_batch_no_panic:
  assumes "bench_faultless e" "seg_kept c"
  shows "fst (write_segment_batch e i batch c) \<noteq> Panicked"
proof -
  obtain d where d: "sc_active_conn c = Some d" using assms(2) by (auto simp: seg_kept_def)
  obtain r where r: "write_segment_events e i batch (sc_global_journal_seq c) d [] = Done r"
    using write_segment_events_no_panic [OF assms(1)] by (cases "write_segment_events e i batch (sc_global_journal_seq c) d []") auto
  have "commit_segment False n d' j c \<noteq> (Panicked, c')" for n d' j c'
    using commit_segment_unchecked [of n d' j c] by auto
  with assms(1) d r show ?thesis
    by (cases r) (auto simp: write_segment_batch_def bench_faultless_def split: prod.splits outcome.splits)
qed

lemma roll_if_needed_no_panic: "bench_faultless e \<Longrightarrow> roll_if_needed e c \<noteq> Panicked"
  by (simp add: roll_if_needed_def roll_segment_def bench_faultless_def init_db_opens arith_i64_def Let_def)

lemma seg_loop_no_panic:
  assumes "bench_faultless e" "cc_segment_rollover_records (sc_config c) \<noteq> Some 0" "seg_kept c"
  shows "\<exists>x c'. seg_loop e events i c results metrics = Some (Done x, c')"
  using assms(2,3)
proof (induction "length events - i" arbitrary: i c results metrics rule: less_induct)
  case less
  show ?case
  proof (cases "i < length events")
    case True
    obtain c1 where roll: "roll_if_needed e c = Done c1" using roll_if_needed_no_panic [OF assms(1)] by (cases "roll_if_needed e c") auto
    let ?j = "segment_batch_end events i c1"
    let ?batch = "event_range events i ?j"
    have c1: "seg_kept c1" "sc_config c1 = sc_config c"
      using roll_if_needed_kept [OF roll less.prems(2)] roll_if_needed_Done [OF roll] by simp_all
    obtain r c2 where b: "write_segment_batch e i ?batch c1 = (Done r, c2)"
      using write_segment_batch_no_panic [OF assms(1) c1(1), of i ?batch]
      by (cases "write_segment_batch e i ?batch c1"; cases "fst (write_segment_batch e i ?batch c1)") auto
    have dec: "length events - ?j < length events - i" using segment_batch_end_progress [OF roll True less.prems(1)] by simp
    have "sc_records_in_active c1 + length ?batch \<le> limit" if "cc_segment_rollover_records (sc_config c1) = Some limit" for limit
      using segment_batch_fits [OF roll True that] less.prems(1) that c1(2) by (cases limit) auto
    then have "seg_kept c2" using write_segment_batch_Done [OF b c1(1)] by blast
    moreover have "cc_segment_rollover_records (sc_config c2) \<noteq> Some 0" using write_segment_batch_config [OF b] c1(2) less.prems(1) by simp
    ultimately show ?thesis using True roll b less.hyps [OF dec, of c2]
      by (cases r) (simp_all add: seg_loop.simps [of e events i] Let_def)
  qed (simp add: seg_loop.simps)
qed

subsection \<open>Witnesses\<close>

lemma sample_segmented:
  obtains c where "open_segmented sample_bench_env ''run'' (segmented_config\<lparr>cc_segment_rollover_records := Some n\<rparr>) = Done c"
    "seg_inv c" "sc_config c = segmented_config\<lparr>cc_segment_rollover_records := Some n\<rparr>" "row_ids c = []"
proof -
  obtain c where c: "open_segmented sample_bench_env ''run'' (segmented_config\<lparr>cc_segment_rollover_records := Some n\<rparr>) = Done c"
    by (simp add: open_segmented_def roll_segment_def init_db_opens sample_opens in_i64_def i64_max_def Let_def)
  with open_segmented_inv [OF c] that show ?thesis by blast
qed

theorem seg_write_batch_returns_witness:
  "\<exists>c r c'. open_segmented sample_bench_env ''run'' (segmented_config\<lparr>cc_segment_rollover_records := Some 2\<rparr>) = Done c \<and>
     seg_write_batch sample_bench_env (map sample_event [0..<5]) c = Some (r, c')"
proof -
  obtain c where c: "open_segmented sample_bench_env ''run'' (segmented_config\<lparr>cc_segment_rollover_records := Some 2\<rparr>) = Done c"
    "sc_config c = segmented_config\<lparr>cc_segment_rollover_records := Some 2\<rparr>" by (rule sample_segmented [of 2])
  with seg_write_batch_returns [of c sample_bench_env "map sample_event [0..<5]"] show ?thesis by auto
qed

theorem seg_write_batch_keeps_segments_witness:
  "\<exists>c c' results metrics. open_segmented sample_bench_env ''run'' (segmented_config\<lparr>cc_segment_rollover_records := Some 2\<rparr>) = Done c \<and>
     seg_write_batch sample_bench_env (map sample_event [0..<5]) c = Some (Done (results, metrics), c') \<and>
     seg_inv c' \<and> length results = 5 \<and> total_records True c' = Done (wm_written_records metrics)"
proof -
  obtain c where c: "open_segmented sample_bench_env ''run'' (segmented_config\<lparr>cc_segment_rollover_records := Some 2\<rparr>) = Done c"
    "seg_inv c" "sc_config c = segmented_config\<lparr>cc_segment_rollover_records := Some 2\<rparr>" "row_ids c = []" by (rule sample_segmented [of 2])
  then have limit: "cc_segment_rollover_records (sc_config c) \<noteq> Some 0" by simp
  obtain x c' where "seg_write_batch sample_bench_env (map sample_event [0..<5]) c = Some (Done x, c')"
    using seg_loop_no_panic [OF sample_bench_faultless limit seg_kept_inv [OF c(2)]] unfolding seg_write_batch_def by blast
  then obtain results metrics where w: "seg_write_batch sample_bench_env (map sample_event [0..<5]) c = Some (Done (results, metrics), c')"
    by (cases x) simp
  have "length (row_ids c) + length (map sample_event [0..<5]) \<le> u32_max" by (simp add: c(4) u32_max_def)
  from seg_write_batch_keeps_segments [OF limit c(2) this w, of True] w c(1,4) show ?thesis by auto
qed

end
