(* ===== verification/Bench_Pipeline.thy ===== *)
theory Bench_Pipeline
  imports Bench_Segments "HOL-Library.Sublist"
begin

text \<open>
  The benchmark's pipeline (\<^verbatim>\<open>ingress.rs\<close>): a producer thread offers generated events to a bounded
  channel, the writer takes them in batches and writes them through a candidate (\<^verbatim>\<open>CandidateRunner\<close>).
  The two threads are an interleaving of steps; the properties hold for every schedule.
\<close>

subsection \<open>Configuration, metrics, errors\<close>

record ingress_config =
  ic_channel_capacity :: nat
  ic_total_records :: nat
  ic_installation_id :: string
  ic_producer_id :: string
  ic_namespace :: string
  ic_payload_bytes :: nat

definition new_ingress_config :: "nat \<Rightarrow> nat \<Rightarrow> ingress_config" where
  "new_ingress_config records payload_bytes =
     \<lparr>ic_channel_capacity = DEFAULT_CHANNEL_CAPACITY, ic_total_records = records,
      ic_installation_id = ''bench-installation'', ic_producer_id = ''bench-producer'', ic_namespace = ''bench'',
      ic_payload_bytes = min payload_bytes MAX_PAYLOAD_BYTES\<rparr>"

definition nth_event :: "(bytes \<Rightarrow> checksum) \<Rightarrow> ingress_config \<Rightarrow> nat \<Rightarrow> synthetic_event" where
  "nth_event sha config i =
     generate_event sha i (ic_installation_id config) (ic_producer_id config) (ic_namespace config) (ic_payload_bytes config)"

definition generate_events :: "(bytes \<Rightarrow> checksum) \<Rightarrow> ingress_config \<Rightarrow> synthetic_event list" where
  "generate_events sha config = map (nth_event sha config) [0..<ic_total_records config]"

definition merge_metrics :: "write_batch_metrics \<Rightarrow> write_batch_metrics \<Rightarrow> write_batch_metrics" where
  "merge_metrics acc batch =
     \<lparr>wm_committed_transactions = wm_committed_transactions acc + wm_committed_transactions batch,
      wm_failed_transactions = wm_failed_transactions acc + wm_failed_transactions batch,
      wm_written_records = wm_written_records acc + wm_written_records batch,
      wm_failed_records = wm_failed_records acc + wm_failed_records batch,
      wm_max_observed_batch_size =
        (if wm_max_observed_batch_size batch > wm_max_observed_batch_size acc
         then wm_max_observed_batch_size batch else wm_max_observed_batch_size acc),
      wm_total_batch_records = wm_total_batch_records acc + wm_total_batch_records batch\<rparr>"

fun collect_errors :: "write_results \<Rightarrow> string list \<Rightarrow> string list" where
  "collect_errors [] errors = errors"
| "collect_errors (Inl e # results) errors =
     collect_errors results (if length errors < MAX_BOUNDED_ERRORS then errors @ [e] else errors)"
| "collect_errors (Inr _ # results) errors = collect_errors results errors"

subsection \<open>The runner\<close>

datatype candidate_runner = RunMonolithic monolithic_candidate | RunSegmented segmented_candidate

definition runner_run ::
    "bench_env \<Rightarrow> synthetic_event list \<Rightarrow> candidate_runner
       \<Rightarrow> ((write_results \<times> write_batch_metrics) outcome \<times> candidate_runner) option" where
  "runner_run e events runner =
     (case runner of
        RunMonolithic c \<Rightarrow> (let (r, c') = mono_write_batch e events c in Some (r, RunMonolithic c'))
      | RunSegmented c \<Rightarrow> map_option (\<lambda>(r, c'). (r, RunSegmented c')) (seg_write_batch e events c))"

fun runner_config :: "candidate_runner \<Rightarrow> candidate_config" where
  "runner_config (RunMonolithic c) = mc_config c"
| "runner_config (RunSegmented c) = sc_config c"

fun runner_record_count :: "bool \<Rightarrow> candidate_runner \<Rightarrow> nat outcome" where
  "runner_record_count checks (RunMonolithic c) = Done (mono_record_count c)"
| "runner_record_count checks (RunSegmented c) = total_records checks c"

record storage_metrics =
  sm_db_size_bytes :: nat
  sm_wal_size_bytes :: nat
  sm_shm_size_bytes :: nat
  sm_total_storage_bytes :: nat
  sm_segment_count :: nat

text \<open>The file system: the length of a file, or \<open>None\<close>; the page counters of an in-memory database.\<close>

record bench_storage =
  bs_file_len :: "string \<Rightarrow> nat option"
  bs_page_count :: "nat option"
  bs_page_size :: "nat option"

definition file_size_or_zero :: "bench_storage \<Rightarrow> string \<Rightarrow> nat" where
  "file_size_or_zero fs path = (case bs_file_len fs path of None \<Rightarrow> 0 | Some n \<Rightarrow> n)"

definition single_db_storage :: "bench_storage \<Rightarrow> string \<Rightarrow> nat \<times> nat \<times> nat" where
  "single_db_storage fs path =
     (file_size_or_zero fs path, file_size_or_zero fs (path @ ''-wal''), file_size_or_zero fs (path @ ''-shm''))"

definition mono_storage_metrics :: "bench_storage \<Rightarrow> monolithic_candidate \<Rightarrow> storage_metrics" where
  "mono_storage_metrics fs c =
     (case mc_db_path c of
        Some p \<Rightarrow>
          (let (db, wal, shm) = single_db_storage fs p in
           \<lparr>sm_db_size_bytes = db, sm_wal_size_bytes = wal, sm_shm_size_bytes = shm,
            sm_total_storage_bytes = db + wal + shm, sm_segment_count = 1\<rparr>)
      | None \<Rightarrow>
          (let db = (case bs_page_count fs of None \<Rightarrow> 0 | Some n \<Rightarrow> n) * (case bs_page_size fs of None \<Rightarrow> 4096 | Some n \<Rightarrow> n) in
           \<lparr>sm_db_size_bytes = db, sm_wal_size_bytes = 0, sm_shm_size_bytes = 0, sm_total_storage_bytes = db,
            sm_segment_count = 1\<rparr>))"

definition seg_storage_metrics :: "bench_storage \<Rightarrow> segmented_candidate \<Rightarrow> storage_metrics" where
  "seg_storage_metrics fs c =
     (let (db, wal, shm) = foldl (\<lambda>(db, wal, shm) seg. let (d, w, s) = single_db_storage fs (si_path seg) in (db + d, wal + w, shm + s))
            (0, 0, 0) (sc_segments c) in
      \<lparr>sm_db_size_bytes = db, sm_wal_size_bytes = wal, sm_shm_size_bytes = shm,
       sm_total_storage_bytes = db + wal + shm, sm_segment_count = length (sc_segments c)\<rparr>)"

fun runner_storage_metrics :: "bench_storage \<Rightarrow> candidate_runner \<Rightarrow> storage_metrics" where
  "runner_storage_metrics fs (RunMonolithic c) = mono_storage_metrics fs c"
| "runner_storage_metrics fs (RunSegmented c) = seg_storage_metrics fs c"

subsection \<open>The threads\<close>

text \<open>
  The writer waits for an event, fills a batch, or has ended: normally, by a panic, or in a write that
  does not return. \<open>pl_runs\<close> counts the calls of the runner and selects their environment.
\<close>

datatype writer_state = Receiving | Filling | Finished | Crashed | Looping

record 'c pipeline_state =
  pl_next :: nat
  pl_submitted :: nat
  pl_rejected :: nat
  pl_producer_done :: bool
  pl_channel :: "synthetic_event list"
  pl_writer :: writer_state
  pl_batch :: "synthetic_event list"
  pl_runs :: nat
  pl_runner :: 'c
  pl_metrics :: write_batch_metrics
  pl_errors :: "string list"

type_synonym 'c batch_run = "nat \<Rightarrow> synthetic_event list \<Rightarrow> 'c \<Rightarrow> ((write_results \<times> write_batch_metrics) outcome \<times> 'c) option"

definition start_pipeline :: "'c \<Rightarrow> 'c pipeline_state" where
  "start_pipeline runner = \<lparr>pl_next = 0, pl_submitted = 0, pl_rejected = 0, pl_producer_done = False, pl_channel = [],
     pl_writer = Receiving, pl_batch = [], pl_runs = 0, pl_runner = runner, pl_metrics = default_metrics, pl_errors = []\<rparr>"

text \<open>\<^verbatim>\<open>runner.run(&batch)\<close> and what the loop does with its result.\<close>

definition writer_run :: "'c batch_run \<Rightarrow> 'c pipeline_state \<Rightarrow> 'c pipeline_state" where
  "writer_run run s =
     (case run (pl_runs s) (pl_batch s) (pl_runner s) of
        None \<Rightarrow> s\<lparr>pl_writer := Looping\<rparr>
      | Some (Panicked, c) \<Rightarrow> s\<lparr>pl_writer := Crashed, pl_runner := c\<rparr>
      | Some (Done (results, metrics), c) \<Rightarrow>
          s\<lparr>pl_writer := Receiving, pl_batch := [], pl_runs := pl_runs s + 1, pl_runner := c,
            pl_metrics := merge_metrics (pl_metrics s) metrics, pl_errors := collect_errors results (pl_errors s)\<rparr>)"

text \<open>After the loop: a batch that is left over is written.\<close>

definition writer_finish :: "'c batch_run \<Rightarrow> 'c pipeline_state \<Rightarrow> 'c pipeline_state" where
  "writer_finish run s =
     (if pl_batch s = [] then s\<lparr>pl_writer := Finished\<rparr>
      else let t = writer_run run s in if pl_writer t = Receiving then t\<lparr>pl_writer := Finished\<rparr> else t)"

definition submitted_one :: "'c pipeline_state \<Rightarrow> 'c pipeline_state" where
  "submitted_one s = s\<lparr>pl_next := pl_next s + 1, pl_submitted := pl_submitted s + 1\<rparr>"

text \<open>
  \<^verbatim>\<open>try_send\<close> succeeds while the channel has room; a channel of capacity zero hands an event to a
  receiver that waits; it fails when the channel is full or the receiver is gone. \<^verbatim>\<open>recv\<close> fails only when
  the channel is empty and the producer has ended; \<^verbatim>\<open>try_recv\<close> fails when the channel is empty.
\<close>

inductive pipeline_step :: "'c batch_run \<Rightarrow> (nat \<Rightarrow> synthetic_event) \<Rightarrow> ingress_config \<Rightarrow> nat \<Rightarrow> 'c pipeline_state \<Rightarrow> 'c pipeline_state \<Rightarrow> bool"
  for run ev config max_records where
  send: "pl_next s < ic_total_records config \<Longrightarrow> pl_writer s \<noteq> Crashed \<Longrightarrow> length (pl_channel s) < ic_channel_capacity config \<Longrightarrow>
    pipeline_step run ev config max_records s ((submitted_one s)\<lparr>pl_channel := pl_channel s @ [ev (pl_next s)]\<rparr>)"
| hand_over: "pl_next s < ic_total_records config \<Longrightarrow> pl_writer s = Receiving \<Longrightarrow> ic_channel_capacity config = 0 \<Longrightarrow>
    pipeline_step run ev config max_records s ((submitted_one s)\<lparr>pl_writer := Filling, pl_batch := pl_batch s @ [ev (pl_next s)]\<rparr>)"
| reject: "pl_next s < ic_total_records config \<Longrightarrow> pl_writer s = Crashed \<or> ic_channel_capacity config \<le> length (pl_channel s) \<Longrightarrow>
    pipeline_step run ev config max_records s ((submitted_one s)\<lparr>pl_rejected := pl_rejected s + 1\<rparr>)"
| producer_ends: "pl_next s = ic_total_records config \<Longrightarrow> \<not> pl_producer_done s \<Longrightarrow>
    pipeline_step run ev config max_records s (s\<lparr>pl_producer_done := True\<rparr>)"
| recv: "pl_writer s = Receiving \<Longrightarrow> pl_channel s = event # rest \<Longrightarrow>
    pipeline_step run ev config max_records s (s\<lparr>pl_channel := rest, pl_writer := Filling, pl_batch := pl_batch s @ [event]\<rparr>)"
| disconnected: "pl_writer s = Receiving \<Longrightarrow> pl_channel s = [] \<Longrightarrow> pl_producer_done s \<Longrightarrow>
    pipeline_step run ev config max_records s (writer_finish run s)"
| try_recv: "pl_writer s = Filling \<Longrightarrow> length (pl_batch s) < max_records \<Longrightarrow> pl_channel s = event # rest \<Longrightarrow>
    pipeline_step run ev config max_records s (s\<lparr>pl_channel := rest, pl_batch := pl_batch s @ [event]\<rparr>)"
| write_out: "pl_writer s = Filling \<Longrightarrow> max_records \<le> length (pl_batch s) \<or> pl_channel s = [] \<Longrightarrow>
    pipeline_step run ev config max_records s (writer_run run s)"

record pipeline_result =
  pr_submitted :: nat
  pr_accepted :: nat
  pr_rejected_capacity :: nat
  pr_write_metrics :: write_batch_metrics
  pr_errors :: "string list"
  pr_storage :: storage_metrics

text \<open>The result, once the writer has finished and the producer is joined; the elapsed time is not part of it.\<close>

definition pipeline_result_of :: "bench_storage \<Rightarrow> candidate_runner pipeline_state \<Rightarrow> pipeline_result" where
  "pipeline_result_of fs s = \<lparr>pr_submitted = pl_submitted s, pr_accepted = pl_submitted s - pl_rejected s,
     pr_rejected_capacity = pl_rejected s, pr_write_metrics = pl_metrics s, pr_errors = pl_errors s,
     pr_storage = runner_storage_metrics fs (pl_runner s)\<rparr>"

text \<open>The pipeline over a runner; the call \<open>n\<close> of the runner is made in the environment \<open>envs n\<close>.\<close>

abbreviation bench_run :: "(nat \<Rightarrow> bench_env) \<Rightarrow> candidate_runner batch_run" where
  "bench_run envs \<equiv> \<lambda>n. runner_run (envs n)"

definition run_pipeline_step ::
    "(bytes \<Rightarrow> checksum) \<Rightarrow> (nat \<Rightarrow> bench_env) \<Rightarrow> ingress_config \<Rightarrow> candidate_runner
       \<Rightarrow> candidate_runner pipeline_state \<Rightarrow> candidate_runner pipeline_state \<Rightarrow> bool" where
  "run_pipeline_step sha envs config runner =
     pipeline_step (bench_run envs) (nth_event sha config) config (cc_max_records_per_tx (runner_config runner))"


subsection \<open>What the writer relies on\<close>

text \<open>
  The contract of a batch write: it returns, and when it does not panic it accounts for every event
  of the batch. \<open>ids\<close> are the ids of the stored rows, \<open>ok\<close> the candidate's invariant.
\<close>

locale batch_writer =
  fixes run :: "'c batch_run" and ids :: "'c \<Rightarrow> string list" and ok :: "'c \<Rightarrow> bool"
  assumes returns: "ok c \<Longrightarrow> run n events c \<noteq> None"
    and keeps: "ok c \<Longrightarrow> run n events c = Some (Done (results, metrics), c') \<Longrightarrow> ok c'"
    and accounts: "ok c \<Longrightarrow> run n events c = Some (Done (results, metrics), c') \<Longrightarrow>
      accounted (ids c) events (length events) (ids c') results metrics"

lemma written_ids_subseq: "length results = length events \<Longrightarrow> subseq (written_ids events results) (map sy_event_id events)"
  using subseq_map [OF subseq_filter_left [of "is_ok \<circ> snd" "zip events results"], of "sy_event_id \<circ> fst"]
  by (simp add: written_ids_def map_map [symmetric] del: map_map)

lemma collect_errors_length:
  "length errors = min MAX_BOUNDED_ERRORS k \<Longrightarrow>
     length (collect_errors results errors) = min MAX_BOUNDED_ERRORS (k + length (filter (Not \<circ> is_ok) results))"
proof (induction results errors arbitrary: k rule: collect_errors.induct)
  case (2 e results errors)
  have "length (if length errors < MAX_BOUNDED_ERRORS then errors @ [e] else errors) = min MAX_BOUNDED_ERRORS (k + 1)"
    using 2(2) by (auto simp: min_def split: if_splits)
  from 2(1) [OF this] show ?case by simp
qed simp_all

lemma accounted_failed:
  "accounted ids0 events (length events) ids results metrics \<Longrightarrow>
     wm_failed_records metrics = length (filter (Not \<circ> is_ok) results)"
  using sum_length_filter_compl [of is_ok results] by (simp add: accounted_def comp_def)

subsection \<open>Invariant of the pipeline\<close>

text \<open>
  \<open>settled\<close> is the accounting of a state whose writer runs or has finished: every event submitted so
  far is rejected, in the channel, in the batch, written or failed; the stored rows, the batch and
  the channel hold events in the order of their submission, none twice.
\<close>

definition settled :: "('c \<Rightarrow> string list) \<Rightarrow> (nat \<Rightarrow> synthetic_event) \<Rightarrow> string list \<Rightarrow> 'c pipeline_state \<Rightarrow> bool" where
  "settled ids ev ids0 s \<longleftrightarrow>
     pl_submitted s = pl_rejected s + length (pl_channel s) + length (pl_batch s) +
       wm_written_records (pl_metrics s) + wm_failed_records (pl_metrics s) \<and>
     length (pl_errors s) = min MAX_BOUNDED_ERRORS (wm_failed_records (pl_metrics s)) \<and>
     (\<exists>new. ids (pl_runner s) = ids0 @ new \<and> length new = wm_written_records (pl_metrics s) \<and>
       subseq (new @ map sy_event_id (pl_batch s @ pl_channel s)) (map (sy_event_id \<circ> ev) [0..<pl_next s]))"

definition pipeline_inv ::
    "('c \<Rightarrow> string list) \<Rightarrow> ('c \<Rightarrow> bool) \<Rightarrow> (nat \<Rightarrow> synthetic_event) \<Rightarrow> ingress_config \<Rightarrow> nat \<Rightarrow> string list \<Rightarrow> 'c pipeline_state \<Rightarrow> bool" where
  "pipeline_inv ids ok ev config max_records ids0 s \<longleftrightarrow>
     pl_next s \<le> ic_total_records config \<and> pl_submitted s = pl_next s \<and>
     (pl_producer_done s \<longrightarrow> pl_next s = ic_total_records config) \<and>
     length (pl_channel s) \<le> ic_channel_capacity config \<and> length (pl_batch s) \<le> max 1 max_records \<and>
     (pl_writer s = Receiving \<or> pl_writer s = Finished \<longrightarrow> pl_batch s = []) \<and>
     (pl_writer s = Finished \<longrightarrow> pl_producer_done s \<and> pl_channel s = []) \<and>
     pl_writer s \<noteq> Looping \<and> (pl_writer s \<noteq> Crashed \<longrightarrow> ok (pl_runner s) \<and> settled ids ev ids0 s)"

lemma start_pipeline_inv: "ok c \<Longrightarrow> pipeline_inv ids ok ev config max_records (ids c) (start_pipeline c)"
  by (simp add: pipeline_inv_def start_pipeline_def settled_def default_metrics_def)

text \<open>Moving an event from the channel to the batch, and submitting one.\<close>

lemma settled_move:
  assumes "settled ids ev ids0 s" "pl_channel s = event # rest"
  shows "settled ids ev ids0 (s\<lparr>pl_channel := rest, pl_batch := pl_batch s @ [event]\<rparr>)"
    "settled ids ev ids0 (s\<lparr>pl_channel := rest, pl_writer := w, pl_batch := pl_batch s @ [event]\<rparr>)"
  using assms by (auto simp: settled_def)

lemma subseq_snoc: "subseq xs ys \<Longrightarrow> subseq (xs @ [x]) (ys @ [x])"
  by (simp add: list_emb_append_mono)

lemma settled_accept:
  assumes "settled ids ev ids0 s"
  shows "settled ids ev ids0 ((submitted_one s)\<lparr>pl_channel := pl_channel s @ [ev (pl_next s)]\<rparr>)"
    "pl_channel s = [] \<Longrightarrow> settled ids ev ids0 ((submitted_one s)\<lparr>pl_writer := w, pl_batch := pl_batch s @ [ev (pl_next s)]\<rparr>)"
proof -
  obtain new where new: "ids (pl_runner s) = ids0 @ new" "length new = wm_written_records (pl_metrics s)"
    "subseq (new @ map sy_event_id (pl_batch s @ pl_channel s)) (map (sy_event_id \<circ> ev) [0..<pl_next s])"
    using assms by (auto simp: settled_def)
  note more = subseq_snoc [OF new(3), of "sy_event_id (ev (pl_next s))"]
  show "settled ids ev ids0 ((submitted_one s)\<lparr>pl_channel := pl_channel s @ [ev (pl_next s)]\<rparr>)"
    "pl_channel s = [] \<Longrightarrow> settled ids ev ids0 ((submitted_one s)\<lparr>pl_writer := w, pl_batch := pl_batch s @ [ev (pl_next s)]\<rparr>)"
    using assms new(1,2) more by (simp_all add: settled_def submitted_one_def)
qed

lemma settled_reject:
  "settled ids ev ids0 s \<Longrightarrow> settled ids ev ids0 ((submitted_one s)\<lparr>pl_rejected := pl_rejected s + 1\<rparr>)"
  by (auto simp: settled_def submitted_one_def intro: list_emb_append2)

lemma settled_cong:
  "settled ids ev ids0 (s\<lparr>pl_producer_done := b\<rparr>) = settled ids ev ids0 s"
  "settled ids ev ids0 (s\<lparr>pl_writer := w\<rparr>) = settled ids ev ids0 s"
  by (simp_all add: settled_def)

context batch_writer
begin

lemma settled_run:
  assumes "settled ids ev ids0 s" "ok (pl_runner s)" "run (pl_runs s) (pl_batch s) (pl_runner s) = Some (Done (results, metrics), c)"
  shows "settled ids ev ids0 (writer_run run s)"
proof -
  note acc = accounts [OF assms(2,3)]
  then have acc': "length results = length (pl_batch s)" "ids c = ids (pl_runner s) @ written_ids (pl_batch s) results"
    "wm_written_records metrics = length (filter is_ok results)"
    "wm_written_records metrics + wm_failed_records metrics = length (pl_batch s)" by (simp_all add: accounted_def)
  obtain new where new: "ids (pl_runner s) = ids0 @ new" "length new = wm_written_records (pl_metrics s)"
    "subseq (new @ map sy_event_id (pl_batch s @ pl_channel s)) (map (sy_event_id \<circ> ev) [0..<pl_next s])"
    using assms(1) by (auto simp: settled_def)
  let ?new = "new @ written_ids (pl_batch s) results"
  have "subseq (?new @ map sy_event_id (pl_channel s)) (new @ map sy_event_id (pl_batch s @ pl_channel s))"
    using written_ids_subseq [OF acc'(1)] by (simp add: list_emb_append_mono)
  then have "subseq (?new @ map sy_event_id (pl_channel s)) (map (sy_event_id \<circ> ev) [0..<pl_next s])"
    using new(3) by (rule subseq_order.trans)
  moreover have "length (written_ids (pl_batch s) results) = wm_written_records metrics"
    using acc'(1,3) length_written_ids by metis
  moreover have "length (collect_errors results (pl_errors s)) =
      min MAX_BOUNDED_ERRORS (wm_failed_records (pl_metrics s) + wm_failed_records metrics)"
    using collect_errors_length [of "pl_errors s" _ results] assms(1) accounted_failed [OF acc] by (simp add: settled_def)
  ultimately show ?thesis using assms(1,3) new(1,2) acc'(2,4)
    by (simp add: settled_def writer_run_def merge_metrics_def)
qed

lemma writer_run_inv:
  assumes "pipeline_inv ids ok ev config max_records ids0 s" "pl_writer s = Filling"
  shows "pipeline_inv ids ok ev config max_records ids0 (writer_run run s)"
proof -
  have s: "ok (pl_runner s)" "settled ids ev ids0 s" using assms by (simp_all add: pipeline_inv_def)
  obtain r c where rc: "run (pl_runs s) (pl_batch s) (pl_runner s) = Some (r, c)" using returns [OF s(1)] by fastforce
  show ?thesis
  proof (cases r)
    case (Done x)
    then obtain results metrics where x: "run (pl_runs s) (pl_batch s) (pl_runner s) = Some (Done (results, metrics), c)"
      using rc by (cases x) simp
    from assms(1) settled_run [OF s(2,1) x] keeps [OF s(1) x] x show ?thesis
      by (auto simp: pipeline_inv_def writer_run_def)
  next
    case Panicked
    with assms rc show ?thesis by (auto simp: pipeline_inv_def writer_run_def)
  qed
qed

lemma pipeline_step_inv:
  assumes "pipeline_step run ev config max_records s s'" "pipeline_inv ids ok ev config max_records ids0 s"
  shows "pipeline_inv ids ok ev config max_records ids0 s'"
  using assms
proof cases
  case send
  then show ?thesis using assms(2) settled_accept(1) [of ids ev ids0 s] by (auto simp: pipeline_inv_def submitted_one_def)
next
  case hand_over
  then show ?thesis using assms(2) settled_accept(2) [of ids ev ids0 s Filling] by (auto simp: pipeline_inv_def submitted_one_def)
next
  case reject
  then show ?thesis using assms(2) settled_reject [of ids ev ids0 s] by (auto simp: pipeline_inv_def submitted_one_def)
next
  case (recv event rest)
  then show ?thesis using assms(2) settled_move [of ids ev ids0 s event rest] by (auto simp: pipeline_inv_def)
next
  case (try_recv event rest)
  then show ?thesis using assms(2) settled_move [of ids ev ids0 s event rest] by (auto simp: pipeline_inv_def)
next
  case disconnected
  then show ?thesis using assms(2) by (auto simp: pipeline_inv_def writer_finish_def settled_cong)
next
  case write_out
  then show ?thesis using assms(2) writer_run_inv by blast
qed (auto simp: pipeline_inv_def settled_cong)

lemma pipeline_steps_inv:
  "(pipeline_step run ev config max_records)\<^sup>*\<^sup>* s s' \<Longrightarrow> pipeline_inv ids ok ev config max_records ids0 s \<Longrightarrow>
     pipeline_inv ids ok ev config max_records ids0 s'"
  by (induction rule: rtranclp_induct) (auto intro: pipeline_step_inv)

lemma finished_accounts:
  assumes "(pipeline_step run ev config max_records)\<^sup>*\<^sup>* (start_pipeline c) s" "ok c" "pl_writer s = Finished"
  shows "pl_submitted s = ic_total_records config" "pl_rejected s \<le> pl_submitted s"
    "pl_submitted s - pl_rejected s = wm_written_records (pl_metrics s) + wm_failed_records (pl_metrics s)"
    "length (pl_errors s) = min MAX_BOUNDED_ERRORS (wm_failed_records (pl_metrics s))"
    "\<exists>new. ids (pl_runner s) = ids c @ new \<and> length new = wm_written_records (pl_metrics s) \<and>
       subseq new (map (sy_event_id \<circ> ev) [0..<ic_total_records config])"
    "ok (pl_runner s)"
  using pipeline_steps_inv [OF assms(1) start_pipeline_inv [of ok c ids, OF assms(2)]] assms(3)
  by (auto simp: pipeline_inv_def settled_def)

end

subsection \<open>Termination\<close>

fun writer_weight :: "writer_state \<Rightarrow> nat" where
  "writer_weight Receiving = 1"
| "writer_weight Filling = 2"
| "writer_weight _ = 0"

definition pipeline_weight :: "ingress_config \<Rightarrow> 'c pipeline_state \<Rightarrow> nat" where
  "pipeline_weight config s = 4 * (ic_total_records config - pl_next s) + (if pl_producer_done s then 0 else 1) +
     3 * length (pl_channel s) + writer_weight (pl_writer s)"

lemma writer_run_frame:
  "pl_next (writer_run run s) = pl_next s" "pl_producer_done (writer_run run s) = pl_producer_done s"
  "pl_channel (writer_run run s) = pl_channel s" "writer_weight (pl_writer (writer_run run s)) \<le> 1"
  by (auto simp: writer_run_def split: option.split outcome.split)

text \<open>Every step of either thread uses something up.\<close>

lemma pipeline_step_decreases:
  "pipeline_step run ev config max_records s s' \<Longrightarrow> pipeline_weight config s' < pipeline_weight config s"
proof (induction rule: pipeline_step.induct)
  case (write_out s)
  then show ?case using writer_run_frame [of run s] by (simp add: pipeline_weight_def)
next
  case (disconnected s)
  have "writer_weight (pl_writer (writer_finish run s)) = 0"
    by (cases "pl_writer (writer_run run s)") (auto simp: writer_finish_def Let_def writer_run_def split: option.splits outcome.splits)
  moreover have "pl_next (writer_finish run s) = pl_next s" "pl_producer_done (writer_finish run s) = pl_producer_done s"
    "pl_channel (writer_finish run s) = pl_channel s" by (simp_all add: writer_finish_def Let_def writer_run_frame)
  ultimately show ?case using disconnected by (simp add: pipeline_weight_def)
qed (auto simp: pipeline_weight_def submitted_one_def)

lemma no_infinite_pipeline: "\<not> (\<forall>i. pipeline_step run ev config max_records (f i) (f (Suc i)))"
proof
  assume chain: "\<forall>i. pipeline_step run ev config max_records (f i) (f (Suc i))"
  have "(f (Suc i), f i) \<in> measure (pipeline_weight config)" for i
    using pipeline_step_decreases chain by (metis in_measure)
  then show False using wf_measure [of "pipeline_weight config"] by (auto simp: wf_iff_no_infinite_down_chain)
qed

text \<open>A state in which no thread can move.\<close>

lemma stuck_pipeline:
  assumes "\<not> (\<exists>s'. pipeline_step run ev config max_records s s')" "pl_next s \<le> ic_total_records config"
  shows "pl_producer_done s" "pl_writer s \<in> {Finished, Crashed, Looping}"
proof -
  have no: "\<not> pipeline_step run ev config max_records s s'" for s' using assms(1) by blast
  have "\<not> pl_next s < ic_total_records config"
    using no send [of s config run ev max_records] reject [of s config run ev max_records] by (meson not_le)
  with assms(2) no producer_ends [of s config run ev max_records] show d: "pl_producer_done s" by (meson le_antisym not_le)
  show "pl_writer s \<in> {Finished, Crashed, Looping}"
  proof (cases "pl_writer s"; cases "pl_channel s")
  qed (use no d disconnected [of s run ev config max_records] recv [of s _ _ run ev config max_records]
        try_recv [of s max_records _ _ run ev config] write_out [of s max_records run ev config] not_le in auto)
qed

context batch_writer
begin

text \<open>A writer whose runs do not panic does not crash.\<close>

lemma not_crashed:
  assumes "(pipeline_step run ev config max_records)\<^sup>*\<^sup>* (start_pipeline c) s" "ok c"
    and "\<And>n events c c'. ok c \<Longrightarrow> run n events c \<noteq> Some (Panicked, c')"
  shows "pl_writer s \<noteq> Crashed"
  using assms(1)
proof (induction rule: rtranclp_induct)
  case base
  then show ?case by (simp add: start_pipeline_def)
next
  case (step s t)
  have s: "pipeline_inv ids ok ev config max_records (ids c) s"
    by (rule pipeline_steps_inv [OF step(1) start_pipeline_inv [of ok c ids, OF assms(2)]])
  have "pl_writer (writer_run run s) \<noteq> Crashed"
    using s step(3) assms(3) [of "pl_runner s"] by (auto simp: pipeline_inv_def writer_run_def split: option.split outcome.split)
  with step(2,3) show ?case
    by cases (auto simp: submitted_one_def writer_finish_def Let_def)
qed

lemma maximal_run:
  assumes "(pipeline_step run ev config max_records)\<^sup>*\<^sup>* (start_pipeline c) s" "ok c"
    and "\<not> (\<exists>s'. pipeline_step run ev config max_records s s')"
  shows "pl_producer_done s \<and> (pl_writer s = Finished \<or> pl_writer s = Crashed)"
proof -
  have "pipeline_inv ids ok ev config max_records (ids c) s"
    by (rule pipeline_steps_inv [OF assms(1) start_pipeline_inv [of ok c ids, OF assms(2)]])
  with stuck_pipeline [OF assms(3)] show ?thesis by (auto simp: pipeline_inv_def)
qed

end

subsection \<open>The candidates keep the contract\<close>

interpretation mono_writer: batch_writer "\<lambda>n events c. Some (mono_write_batch (envs n) events c)" "event_ids \<circ> mc_db" "\<lambda>_. True"
  for envs :: "nat \<Rightarrow> bench_env"
  by unfold_locales (auto dest: mono_write_batch_accounted)

definition seg_ok :: "segmented_candidate \<Rightarrow> bool" where
  "seg_ok c \<longleftrightarrow> seg_kept c \<and> cc_segment_rollover_records (sc_config c) \<noteq> Some 0"

interpretation seg_writer: batch_writer "\<lambda>n. seg_write_batch (envs n)" row_ids seg_ok
  for envs :: "nat \<Rightarrow> bench_env"
proof
  fix c n events
  assume "seg_ok c"
  then show "seg_write_batch (envs n) events c \<noteq> None"
    using seg_loop_returns [of c "envs n" events 0 "[]" default_metrics] by (auto simp: seg_ok_def seg_write_batch_def)
next
  fix c n events results metrics c'
  assume c: "seg_ok c" and w: "seg_write_batch (envs n) events c = Some (Done (results, metrics), c')"
  from c have ok: "cc_segment_rollover_records (sc_config c) \<noteq> Some 0" "seg_kept c" by (simp_all add: seg_ok_def)
  show "accounted (row_ids c) events (length events) (row_ids c') results metrics"
    by (rule seg_write_batch_accounted(2) [OF ok w])
  show "seg_ok c'"
    using seg_write_batch_accounted(1) [OF ok w] seg_write_batch_config [OF w ok(1)] ok(1) by (simp add: seg_ok_def)
qed

fun runner_ids :: "candidate_runner \<Rightarrow> string list" where
  "runner_ids (RunMonolithic c) = event_ids (mc_db c)"
| "runner_ids (RunSegmented c) = row_ids c"

fun runner_ok :: "candidate_runner \<Rightarrow> bool" where
  "runner_ok (RunMonolithic c) = True"
| "runner_ok (RunSegmented c) = seg_ok c"

lemma runner_run_cases:
  assumes "runner_run e events runner = Some (r, runner')"
  obtains c c' where "runner = RunMonolithic c" "runner' = RunMonolithic c'" "Some (mono_write_batch e events c) = Some (r, c')"
    | c c' where "runner = RunSegmented c" "runner' = RunSegmented c'" "seg_write_batch e events c = Some (r, c')"
  using assms by (cases runner) (auto simp: runner_run_def Let_def split: prod.splits)

interpretation runner_writer: batch_writer "bench_run envs" runner_ids runner_ok
  for envs :: "nat \<Rightarrow> bench_env"
proof
  fix c n and events :: "synthetic_event list"
  assume "runner_ok c"
  then show "runner_run (envs n) events c \<noteq> None"
    using seg_writer.returns [where envs = envs] by (cases c) (auto simp: runner_run_def Let_def split: prod.split)
next
  fix c n events results metrics c'
  assume ok: "runner_ok c" and "runner_run (envs n) events c = Some (Done (results, metrics), c')"
  then show "runner_ok c'" by (elim runner_run_cases) (auto dest: seg_writer.keeps [where envs = envs])
  from \<open>runner_run (envs n) events c = Some (Done (results, metrics), c')\<close> ok
  show "accounted (runner_ids c) events (length events) (runner_ids c') results metrics"
    by (elim runner_run_cases)
      (auto dest: mono_writer.accounts [where envs = envs, simplified] seg_writer.accounts [where envs = envs])
qed

lemma mono_write_batch_no_panic: "bench_faultless e \<Longrightarrow> mono_write_batch e events c \<noteq> (Panicked, c')"
  using mono_loop_no_panic [of e "mc_config c" events 0 "mc_db c" "[]" default_metrics]
  by (auto simp: mono_write_batch_def Let_def)

lemma seg_write_batch_no_panic: "bench_faultless e \<Longrightarrow> seg_ok c \<Longrightarrow> seg_write_batch e events c \<noteq> Some (Panicked, c')"
  using seg_loop_no_panic [of e c events 0 "[]" default_metrics]
  by (auto simp: seg_write_batch_def seg_ok_def)

lemma runner_run_no_panic:
  assumes "bench_faultless e" "runner_ok c"
  shows "runner_run e events c \<noteq> Some (Panicked, c')"
proof
  assume "runner_run e events c = Some (Panicked, c')"
  then show False
    by (rule runner_run_cases) (use assms mono_write_batch_no_panic seg_write_batch_no_panic in auto)
qed

subsection \<open>Properties\<close>

text \<open>
  C26: the pipeline accounts for every event. However producer and writer are scheduled, when the
  writer has finished, all events were submitted; each one was either rejected because the channel
  was full, or accepted, and the accepted ones are the written and the failed records; the rows added
  to the candidate are as many as the written records and are submitted events in the order of their
  submission; and one error per failed record is kept, up to 64.
\<close>

theorem pipeline_accounts_for_every_event:
  fixes fs :: bench_storage
  assumes "(run_pipeline_step sha envs config runner)\<^sup>*\<^sup>* (start_pipeline runner) s" "runner_ok runner" "pl_writer s = Finished"
  defines "result \<equiv> pipeline_result_of fs s"
  shows "pr_submitted result = ic_total_records config \<and>
    pr_submitted result = pr_accepted result + pr_rejected_capacity result \<and>
    pr_accepted result = wm_written_records (pr_write_metrics result) + wm_failed_records (pr_write_metrics result) \<and>
    length (pr_errors result) = min 64 (wm_failed_records (pr_write_metrics result)) \<and>
    (\<exists>new. runner_ids (pl_runner s) = runner_ids runner @ new \<and> length new = wm_written_records (pr_write_metrics result) \<and>
      subseq new (map sy_event_id (generate_events sha config)))"
proof -
  note f = runner_writer.finished_accounts [OF assms(1) [unfolded run_pipeline_step_def] assms(2,3)]
  from f(5) have "\<exists>new. runner_ids (pl_runner s) = runner_ids runner @ new \<and> length new = wm_written_records (pl_metrics s) \<and>
      subseq new (map sy_event_id (generate_events sha config))" by (simp add: generate_events_def comp_def)
  with f(1-4) show ?thesis unfolding result_def by (simp add: pipeline_result_of_def MAX_BOUNDED_ERRORS_def)
qed

text \<open>
  C27: the pipeline ends. With a rollover limit other than zero (for zero a single write already runs forever, see
  \<open>zero_rollover_never_returns\<close>; \<open>runner_ok\<close> excludes it), no schedule runs forever; when neither thread can
  move, the producer has ended and the writer has finished or panicked. In a build without overflow checks and
  without failures of the engine it has finished.
\<close>

theorem pipeline_ends:
  assumes "runner_ok runner"
  shows "\<not> (\<exists>f. f 0 = start_pipeline runner \<and> (\<forall>i. run_pipeline_step sha envs config runner (f i) (f (Suc i)))) \<and>
    (\<forall>s. (run_pipeline_step sha envs config runner)\<^sup>*\<^sup>* (start_pipeline runner) s \<and>
         \<not> (\<exists>s'. run_pipeline_step sha envs config runner s s') \<longrightarrow>
       pl_producer_done s \<and> (pl_writer s = Finished \<or> pl_writer s = Crashed) \<and>
       ((\<forall>n. bench_faultless (envs n)) \<longrightarrow> pl_writer s = Finished))"
proof (intro conjI allI impI)
  show "\<not> (\<exists>f. f 0 = start_pipeline runner \<and> (\<forall>i. run_pipeline_step sha envs config runner (f i) (f (Suc i))))"
    unfolding run_pipeline_step_def using no_infinite_pipeline by blast
next
  fix s
  assume "(run_pipeline_step sha envs config runner)\<^sup>*\<^sup>* (start_pipeline runner) s \<and>
    \<not> (\<exists>s'. run_pipeline_step sha envs config runner s s')"
  then have run: "(pipeline_step (bench_run envs) (nth_event sha config) config (cc_max_records_per_tx (runner_config runner)))\<^sup>*\<^sup>*
      (start_pipeline runner) s"
    and stuck: "\<not> (\<exists>s'. pipeline_step (bench_run envs) (nth_event sha config) config (cc_max_records_per_tx (runner_config runner)) s s')"
    by (simp_all add: run_pipeline_step_def)
  note ends = runner_writer.maximal_run [OF run assms stuck]
  show "pl_producer_done s" "pl_writer s = Finished \<or> pl_writer s = Crashed" using ends by simp_all
  assume "\<forall>n. bench_faultless (envs n)"
  then have "pl_writer s \<noteq> Crashed" by (intro runner_writer.not_crashed [OF run assms]) (simp add: runner_run_no_panic)
  with ends show "pl_writer s = Finished" by blast
qed

subsection \<open>Witnesses\<close>

text \<open>A relation that always ends has a maximal run.\<close>

lemma maximal_run_exists:
  "\<exists>t. (pipeline_step run ev config max_records)\<^sup>*\<^sup>* s t \<and> \<not> (\<exists>u. pipeline_step run ev config max_records t u)"
proof (induction "pipeline_weight config s" arbitrary: s rule: less_induct)
  case less
  show ?case
  proof (cases "\<exists>u. pipeline_step run ev config max_records s u")
    case True
    then obtain u where u: "pipeline_step run ev config max_records s u" ..
    from less.hyps [OF pipeline_step_decreases [OF u]] u show ?thesis by (meson converse_rtranclp_into_rtranclp)
  qed blast
qed

lemma stuck_run_exists:
  obtains s where "(run_pipeline_step sha envs config runner)\<^sup>*\<^sup>* (start_pipeline runner) s"
    "\<not> (\<exists>s'. run_pipeline_step sha envs config runner s s')"
  using maximal_run_exists unfolding run_pipeline_step_def by blast

lemma faultless_run_finishes:
  assumes "runner_ok runner" "\<And>n. bench_faultless (envs n)"
  obtains s where "(run_pipeline_step sha envs config runner)\<^sup>*\<^sup>* (start_pipeline runner) s" "pl_writer s = Finished"
proof -
  obtain s where s: "(run_pipeline_step sha envs config runner)\<^sup>*\<^sup>* (start_pipeline runner) s"
    "\<not> (\<exists>s'. run_pipeline_step sha envs config runner s s')" by (rule stuck_run_exists)
  note s' = s [unfolded run_pipeline_step_def]
  have "pl_writer s \<noteq> Crashed"
    using runner_writer.not_crashed [OF s'(1) assms(1)] runner_run_no_panic [OF assms(2)] by blast
  with runner_writer.maximal_run [OF s'(1) assms(1) s'(2)] s(1) show ?thesis by (intro that) auto
qed

definition sample_runner :: candidate_runner where
  "sample_runner = RunMonolithic \<lparr>mc_db = empty_bench_db, mc_config = monolithic_config, mc_db_path = None\<rparr>"

definition sample_sha :: "bytes \<Rightarrow> checksum" where
  "sample_sha = (\<lambda>bs. fill_checksum (of_nat (length bs)))"

definition sample_storage :: bench_storage where
  "sample_storage = \<lparr>bs_file_len = (\<lambda>_. Some 7), bs_page_count = None, bs_page_size = None\<rparr>"

lemma sample_runner_ok: "runner_ok sample_runner"
  by (simp add: sample_runner_def)

theorem pipeline_ends_witness:
  "runner_ok sample_runner \<and> (\<exists>s. (run_pipeline_step sample_sha (\<lambda>_. sample_bench_env) (new_ingress_config 5 16) sample_runner)\<^sup>*\<^sup>*
     (start_pipeline sample_runner) s \<and> pl_writer s = Finished)"
proof -
  obtain s where "(run_pipeline_step sample_sha (\<lambda>_. sample_bench_env) (new_ingress_config 5 16) sample_runner)\<^sup>*\<^sup>*
    (start_pipeline sample_runner) s" "\<not> (\<exists>s'. run_pipeline_step sample_sha (\<lambda>_. sample_bench_env) (new_ingress_config 5 16) sample_runner s s')"
    by (rule stuck_run_exists)
  with pipeline_ends [OF sample_runner_ok, of sample_sha "\<lambda>_. sample_bench_env" "new_ingress_config 5 16"]
    sample_bench_faultless sample_runner_ok show ?thesis by blast
qed

theorem pipeline_accounts_for_every_event_witness:
  "\<exists>s. (run_pipeline_step sample_sha (\<lambda>_. sample_bench_env) (new_ingress_config 5 16) sample_runner)\<^sup>*\<^sup>* (start_pipeline sample_runner) s \<and>
     pl_writer s = Finished \<and> pr_submitted (pipeline_result_of sample_storage s) = 5"
proof -
  obtain s where s: "(run_pipeline_step sample_sha (\<lambda>_. sample_bench_env) (new_ingress_config 5 16) sample_runner)\<^sup>*\<^sup>*
    (start_pipeline sample_runner) s" "pl_writer s = Finished"
    by (rule faultless_run_finishes [OF sample_runner_ok]) (rule sample_bench_faultless)
  from pipeline_accounts_for_every_event [OF s(1) sample_runner_ok s(2), of sample_storage] s show ?thesis by (auto simp: new_ingress_config_def)
qed

end
