(* ===== verification/Bench_Main.thy ===== *)
theory Bench_Main
  imports Bench_Pipeline
begin

text \<open>
  The benchmark's command line and report (\<^verbatim>\<open>main.rs\<close>, \<^verbatim>\<open>report.rs\<close>). The run directory is a
  parameter (it is derived from the output path and emptied); the clock, the operating system's names
  and the sizes of files are inputs; floating point numbers are an abstract type with the operations
  the code uses.
\<close>

subsection \<open>Arguments\<close>

fun arg_value :: "string list \<Rightarrow> string \<Rightarrow> string option" where
  "arg_value [] flag = None"
| "arg_value (a # args) flag = (if a = flag then (case args of [] \<Rightarrow> None | v # _ \<Rightarrow> Some v) else arg_value args flag)"

text \<open>\<^verbatim>\<open>str::parse\<close> of an unsigned integer below \<open>bound\<close>: an optional plus sign and decimal digits.\<close>

definition is_digit :: "char \<Rightarrow> bool" where
  "is_digit c \<longleftrightarrow> 48 \<le> (of_char c :: nat) \<and> (of_char c :: nat) \<le> 57"

definition parse_uint :: "nat \<Rightarrow> string \<Rightarrow> nat option" where
  "parse_uint bound s =
     (let digits = (case s of [] \<Rightarrow> [] | c # t \<Rightarrow> if c = CHR ''+'' then t else s) in
      if digits \<noteq> [] \<and> list_all is_digit digits \<and> read_nat digits < bound then Some (read_nat digits) else None)"

definition number_arg :: "nat \<Rightarrow> string list \<Rightarrow> string \<Rightarrow> nat \<Rightarrow> nat" where
  "number_arg bound args flag fallback = (case Option.bind (arg_value args flag) (parse_uint bound) of None \<Rightarrow> fallback | Some n \<Rightarrow> n)"

record bench_options =
  bo_config :: candidate_config
  bo_records :: nat
  bo_payload_bytes :: nat

text \<open>\<open>None\<close> is the exit with status 1 for an unknown candidate.\<close>

definition main_options :: "string list \<Rightarrow> bench_options option" where
  "main_options args =
     (let candidate_name = (case arg_value args ''--candidate'' of None \<Rightarrow> ''monolithic'' | Some n \<Rightarrow> n);
          segment_rollover = Option.bind (arg_value args ''--segment-rollover'') (parse_uint (2 ^ 32));
          base = (if candidate_name = ''monolithic'' then Some monolithic_config
            else if candidate_name = ''segmented''
            then Some (case segment_rollover of None \<Rightarrow> segmented_config
                       | Some r \<Rightarrow> segmented_config\<lparr>cc_segment_rollover_records := Some r\<rparr>)
            else None) in
      map_option (\<lambda>config.
        \<lparr>bo_config = config\<lparr>cc_max_records_per_tx := number_arg (2 ^ 32) args ''--max-records-per-tx'' 64,
            cc_max_bytes_per_tx := number_arg (2 ^ 64) args ''--max-bytes-per-tx'' 1048576,
            cc_synchronous := (case arg_value args ''--synchronous'' of None \<Rightarrow> ''FULL'' | Some m \<Rightarrow> m),
            cc_unsafe_mode := ''--unsafe'' \<in> set args\<rparr>,
         bo_records = number_arg (2 ^ 64) args ''--records'' 1000,
         bo_payload_bytes = number_arg (2 ^ 64) args ''--payload-bytes'' 256\<rparr>) base)"

definition main_runner :: "bench_env \<Rightarrow> string \<Rightarrow> candidate_config \<Rightarrow> candidate_runner outcome" where
  "main_runner e db_dir config =
     (if cc_name config = ''monolithic''
      then bind_outcome (mono_open e (path_join db_dir ''monolithic.db'') config) (\<lambda>c. Done (RunMonolithic c))
      else bind_outcome (open_segmented e (path_join db_dir ''segments'') config) (\<lambda>c. Done (RunSegmented c)))"

subsection \<open>Report\<close>

record 'f float_ops =
  fo_zero :: 'f
  fo_of_nat :: "nat \<Rightarrow> 'f"
  fo_div :: "'f \<Rightarrow> 'f \<Rightarrow> 'f"

definition avg_observed_batch_size :: "'f float_ops \<Rightarrow> write_batch_metrics \<Rightarrow> 'f" where
  "avg_observed_batch_size fo m =
     (if wm_committed_transactions m > 0
      then fo_div fo (fo_of_nat fo (wm_total_batch_records m)) (fo_of_nat fo (wm_committed_transactions m)) else fo_zero fo)"

record benchmark_config =
  bc_journal_mode :: string
  bc_synchronous :: string
  bc_busy_timeout_ms :: nat
  bc_wal_autocheckpoint :: nat
  bc_page_size :: "nat option"
  bc_segment_rollover_records :: "nat option"

record group_commit_config =
  gc_max_records_per_tx :: nat
  gc_max_bytes_per_tx :: nat

record 'f benchmark_report =
  br_candidate :: string
  br_candidate_label :: string
  br_unsafe_mode :: bool
  br_os :: string
  br_arch :: string
  br_config :: benchmark_config
  br_submitted_records :: nat
  br_accepted_records :: nat
  br_written_records :: nat
  br_rejected_capacity :: nat
  br_failed_writes :: nat
  br_payload_size_bytes :: nat
  br_metadata_count :: nat
  br_group_commit :: group_commit_config
  br_committed_transactions :: nat
  br_failed_transactions :: nat
  br_elapsed_ms :: nat
  br_throughput_records_per_sec :: 'f
  br_avg_batch_size :: 'f
  br_max_batch_size :: nat
  br_db_size_bytes :: nat
  br_wal_size_bytes :: nat
  br_shm_size_bytes :: nat
  br_total_storage_bytes :: nat
  br_segment_count :: nat
  br_errors :: "string list"
  br_benchmark_only :: bool
  br_no_durable_receipt :: bool

definition has_required_fields :: "'f benchmark_report \<Rightarrow> bool" where
  "has_required_fields r \<longleftrightarrow> br_candidate r \<noteq> [] \<and> br_os r \<noteq> [] \<and> br_submitted_records r > 0 \<and> br_benchmark_only r \<and>
     br_no_durable_receipt r"

record 'f host =
  ho_float :: "'f float_ops"
  ho_os :: string
  ho_arch :: string

definition main_report :: "'f host \<Rightarrow> bench_options \<Rightarrow> nat \<Rightarrow> pipeline_result \<Rightarrow> 'f benchmark_report" where
  "main_report h opts elapsed_ms pipeline =
     (let cfg = bo_config opts; m = pr_write_metrics pipeline; storage = pr_storage pipeline; fo = ho_float h;
          throughput = (if elapsed_ms > 0
            then fo_div fo (fo_of_nat fo (wm_written_records m)) (fo_div fo (fo_of_nat fo elapsed_ms) (fo_of_nat fo 1000))
            else fo_zero fo) in
      \<lparr>br_candidate = cc_name cfg, br_candidate_label = candidate_label cfg, br_unsafe_mode = cc_unsafe_mode cfg,
       br_os = ho_os h, br_arch = ho_arch h,
       br_config = \<lparr>bc_journal_mode = cc_journal_mode cfg, bc_synchronous = cc_synchronous cfg,
          bc_busy_timeout_ms = cc_busy_timeout_ms cfg, bc_wal_autocheckpoint = cc_wal_autocheckpoint cfg,
          bc_page_size = cc_page_size cfg, bc_segment_rollover_records = cc_segment_rollover_records cfg\<rparr>,
       br_submitted_records = pr_submitted pipeline, br_accepted_records = pr_accepted pipeline,
       br_written_records = wm_written_records m, br_rejected_capacity = pr_rejected_capacity pipeline,
       br_failed_writes = wm_failed_records m, br_payload_size_bytes = bo_payload_bytes opts, br_metadata_count = 1,
       br_group_commit = \<lparr>gc_max_records_per_tx = cc_max_records_per_tx cfg, gc_max_bytes_per_tx = cc_max_bytes_per_tx cfg\<rparr>,
       br_committed_transactions = wm_committed_transactions m, br_failed_transactions = wm_failed_transactions m,
       br_elapsed_ms = elapsed_ms, br_throughput_records_per_sec = throughput,
       br_avg_batch_size = avg_observed_batch_size fo m, br_max_batch_size = wm_max_observed_batch_size m,
       br_db_size_bytes = sm_db_size_bytes storage, br_wal_size_bytes = sm_wal_size_bytes storage,
       br_shm_size_bytes = sm_shm_size_bytes storage, br_total_storage_bytes = sm_total_storage_bytes storage,
       br_segment_count = sm_segment_count storage, br_errors = pr_errors pipeline,
       br_benchmark_only = True, br_no_durable_receipt = True\<rparr>)"

subsection \<open>Lemmas\<close>

lemma is_digit_show_nat: "list_all is_digit (show_nat n)"
  by (auto simp: list_all_iff is_digit_def of_char_digit_char dest!: show_nat_digits)

lemma show_nat_Nil [simp]: "show_nat n \<noteq> []"
  by (simp add: show_nat.simps [of n])

lemma parse_show_nat: "n < bound \<Longrightarrow> parse_uint bound (show_nat n) = Some n"
proof -
  assume n: "n < bound"
  obtain c t where ct: "show_nat n = c # t" by (cases "show_nat n") simp_all
  have "is_digit c" using is_digit_show_nat [of n] by (simp add: ct)
  then have "c \<noteq> CHR ''+''" by (auto simp: is_digit_def)
  then have "(case show_nat n of [] \<Rightarrow> [] | c # t \<Rightarrow> if c = CHR ''+'' then t else show_nat n) = show_nat n" by (simp add: ct)
  then show ?thesis using n is_digit_show_nat [of n] by (simp add: parse_uint_def Let_def read_show_nat)
qed

lemma main_options_name: "main_options args = Some opts \<Longrightarrow> cc_name (bo_config opts) \<in> {''monolithic'', ''segmented''}"
  by (auto simp: main_options_def monolithic_config_def segmented_config_def Let_def split: if_splits option.splits)

lemma main_runner_ok:
  assumes "main_runner e db_dir config = Done runner" "cc_segment_rollover_records config \<noteq> Some 0"
  shows "runner_ok runner" "runner_ids runner = []" "runner_config runner = config"
proof -
  have "runner_ok runner \<and> runner_ids runner = [] \<and> runner_config runner = config"
  proof (cases "cc_name config = ''monolithic''")
    case True
    with assms(1) show ?thesis
      by (auto simp: main_runner_def mono_open_def init_db_def event_ids_def empty_bench_db_def split: if_splits)
  next
    case False
    then obtain c where c: "open_segmented e (path_join db_dir ''segments'') config = Done c" "runner = RunSegmented c"
      using assms(1) by (auto simp: main_runner_def bind_outcome_eq_Done)
    from open_segmented_inv [OF c(1)] assms(2) c(2) show ?thesis by (simp add: seg_ok_def seg_kept_inv)
  qed
  then show "runner_ok runner" "runner_ids runner = []" "runner_config runner = config" by simp_all
qed

lemma runner_storage_total:
  "sm_total_storage_bytes (runner_storage_metrics fs r) = sm_db_size_bytes (runner_storage_metrics fs r) +
     sm_wal_size_bytes (runner_storage_metrics fs r) + sm_shm_size_bytes (runner_storage_metrics fs r)"
  by (cases r) (simp_all add: mono_storage_metrics_def seg_storage_metrics_def case_prod_beta Let_def split: option.split)

lemma runner_record_count_ids:
  "runner_ok r \<Longrightarrow> length (runner_ids r) \<le> u32_max \<Longrightarrow> runner_record_count checks r = Done (length (runner_ids r))"
  by (cases r) (simp_all add: mono_record_count_def event_ids_def seg_ok_def seg_kept_def total_records_exact)

subsection \<open>Properties\<close>

text \<open>
  C31: the report is consistent. For every command line with a known candidate and a rollover limit
  other than zero, every schedule and every pattern of engine failures, the report of a finished run
  counts the requested records as submitted, splits them into accepted and rejected, and the
  accepted into written and failed; the written records are the rows the candidate holds and, when
  fewer than $2^{32}$ records were requested, its own record count (a \<^verbatim>\<open>u32\<close> sum over the segments); the
  storage total is the sum of its parts; and the report has its required fields exactly when records
  were requested on a named operating system.
\<close>

theorem report_is_consistent:
  fixes h :: "'f host" and fs :: bench_storage and elapsed_ms :: nat
  assumes "main_options args = Some opts" "cc_segment_rollover_records (bo_config opts) \<noteq> Some 0"
    and "main_runner e db_dir (bo_config opts) = Done runner"
    and "(run_pipeline_step sha envs (new_ingress_config (bo_records opts) (bo_payload_bytes opts)) runner)\<^sup>*\<^sup>* (start_pipeline runner) s"
    and "pl_writer s = Finished"
  defines "r \<equiv> main_report h opts elapsed_ms (pipeline_result_of fs s)"
  shows "br_submitted_records r = bo_records opts \<and> br_submitted_records r = br_accepted_records r + br_rejected_capacity r \<and>
    br_accepted_records r = br_written_records r + br_failed_writes r \<and> br_written_records r = length (runner_ids (pl_runner s)) \<and>
    (bo_records opts \<le> u32_max \<longrightarrow> runner_record_count checks (pl_runner s) = Done (br_written_records r)) \<and>
    br_total_storage_bytes r = br_db_size_bytes r + br_wal_size_bytes r + br_shm_size_bytes r \<and>
    (has_required_fields r \<longleftrightarrow> ho_os h \<noteq> [] \<and> 0 < bo_records opts)"
proof -
  note ok = main_runner_ok [OF assms(3,2)]
  note f = runner_writer.finished_accounts [OF assms(4) [unfolded run_pipeline_step_def] ok(1) assms(5)]
  have count: "wm_written_records (pl_metrics s) = length (runner_ids (pl_runner s))" using f(5) ok(2) by auto
  have name: "cc_name (bo_config opts) \<noteq> []" using main_options_name [OF assms(1)] by auto
  have records: "ic_total_records (new_ingress_config (bo_records opts) (bo_payload_bytes opts)) = bo_records opts"
    by (simp add: new_ingress_config_def)
  have "wm_written_records (pl_metrics s) \<le> bo_records opts" using f(1-3) records by simp
  then have "runner_record_count checks (pl_runner s) = Done (wm_written_records (pl_metrics s))" if "bo_records opts \<le> u32_max"
    using runner_record_count_ids [OF f(6)] count that by simp
  then show ?thesis
    using f(1-3) count name records runner_storage_total [of fs "pl_runner s"]
    unfolding r_def by (simp add: main_report_def has_required_fields_def pipeline_result_of_def Let_def)
qed

text \<open>
  The command line accepts a rollover limit of zero, and then the first write never returns,
  although nothing fails: the loop opens one empty segment after the other.
\<close>

theorem zero_rollover_from_command_line:
  assumes "main_options [''bench'', ''--candidate'', ''segmented'', ''--segment-rollover'', ''0''] = Some opts"
    and "main_runner e db_dir (bo_config opts) = Done runner"
    and "events \<noteq> []" "opens_always e" "bn_fault e 0 BenchBegin = None" "bn_fault e 0 BenchCommit = None"
  shows "runner_run e events runner = None"
proof -
  have opts: "cc_segment_rollover_records (bo_config opts) = Some 0" "cc_name (bo_config opts) = ''segmented''"
    using assms(1) by (auto simp: main_options_def parse_uint_def is_digit_def read_nat_def segmented_config_def Let_def)
  then obtain c where c: "open_segmented e (path_join db_dir ''segments'') (bo_config opts) = Done c" "runner = RunSegmented c"
    using assms(2) by (auto simp: main_runner_def bind_outcome_eq_Done)
  have "cc_segment_rollover_records (sc_config c) = Some 0" using open_segmented_inv [OF c(1)] opts(1) by simp
  moreover have "in_i64 (sc_global_journal_seq c + 1)"
    using open_segmented_inv [OF c(1)] by (auto simp: seg_inv_def row_ids_def in_i64_def i64_max_def)
  ultimately have "seg_write_batch e events c = None"
    by (intro zero_rollover_never_returns) (use assms(3-6) in simp_all)
  with c(2) show ?thesis by (simp add: runner_run_def)
qed

subsection \<open>Witnesses\<close>

definition sample_args :: "string list" where
  "sample_args = [''bench'', ''--records'', ''5'', ''--payload-bytes'', ''16'']"

definition sample_options :: bench_options where
  "sample_options = \<lparr>bo_config = monolithic_config, bo_records = 5, bo_payload_bytes = 16\<rparr>"

lemma sample_main_options: "main_options sample_args = Some sample_options"
  by (simp add: main_options_def sample_args_def sample_options_def number_arg_def parse_uint_def is_digit_def read_nat_def
      monolithic_config_def Let_def)

definition sample_host :: "nat host" where
  "sample_host = \<lparr>ho_float = \<lparr>fo_zero = 0, fo_of_nat = id, fo_div = (div)\<rparr>, ho_os = ''linux'', ho_arch = ''x86_64''\<rparr>"

theorem report_is_consistent_witness:
  "\<exists>runner s. main_options sample_args = Some sample_options \<and>
     main_runner sample_bench_env ''d'' (bo_config sample_options) = Done runner \<and>
     (run_pipeline_step sample_sha (\<lambda>_. sample_bench_env) (new_ingress_config 5 16) runner)\<^sup>*\<^sup>* (start_pipeline runner) s \<and>
     pl_writer s = Finished \<and>
     has_required_fields (main_report sample_host sample_options 3 (pipeline_result_of sample_storage s)) \<and>
     br_submitted_records (main_report sample_host sample_options 3 (pipeline_result_of sample_storage s)) = 5 \<and>
     runner_record_count True (pl_runner s) =
       Done (br_written_records (main_report sample_host sample_options 3 (pipeline_result_of sample_storage s)))"
proof -
  let ?runner = "RunMonolithic \<lparr>mc_db = empty_bench_db, mc_config = monolithic_config, mc_db_path = Some ''d/monolithic.db''\<rparr>"
  have c: "cc_segment_rollover_records (bo_config sample_options) \<noteq> Some 0"
    by (simp add: sample_options_def monolithic_config_def)
  have runner: "main_runner sample_bench_env ''d'' (bo_config sample_options) = Done ?runner"
    by (simp add: main_runner_def mono_open_def init_db_opens sample_opens sample_options_def path_join_def monolithic_config_def)
  obtain s where s: "(run_pipeline_step sample_sha (\<lambda>_. sample_bench_env)
      (new_ingress_config (bo_records sample_options) (bo_payload_bytes sample_options)) ?runner)\<^sup>*\<^sup>* (start_pipeline ?runner) s" "pl_writer s = Finished"
    by (rule faultless_run_finishes [OF main_runner_ok(1) [OF runner c]]) (rule sample_bench_faultless)
  note r = report_is_consistent [OF sample_main_options c runner s, of sample_host 3 sample_storage True]
  have o: "bo_records sample_options = 5" "bo_payload_bytes sample_options = 16" "ho_os sample_host \<noteq> []"
    by (simp_all add: sample_options_def sample_host_def)
  show ?thesis
    by (intro exI [of _ ?runner] exI [of _ s]) (use r s sample_main_options runner o in \<open>simp add: u32_max_def\<close>)
qed

lemma main_runner_faultless: "bench_faultless e \<Longrightarrow> \<exists>runner. main_runner e db_dir config = Done runner"
  by (simp add: main_runner_def mono_open_def open_segmented_def roll_segment_def bench_faultless_def init_db_opens in_i64_def i64_max_def Let_def)

theorem zero_rollover_from_command_line_witness:
  "\<exists>opts runner. main_options [''bench'', ''--candidate'', ''segmented'', ''--segment-rollover'', ''0''] = Some opts \<and>
     main_runner sample_bench_env ''d'' (bo_config opts) = Done runner \<and> runner_run sample_bench_env [sample_event 0] runner = None"
proof -
  obtain opts where opts: "main_options [''bench'', ''--candidate'', ''segmented'', ''--segment-rollover'', ''0''] = Some opts"
    by (simp add: main_options_def Let_def)
  obtain runner where runner: "main_runner sample_bench_env ''d'' (bo_config opts) = Done runner"
    using main_runner_faultless [OF sample_bench_faultless] by blast
  have "runner_run sample_bench_env [sample_event 0] runner = None"
    by (rule zero_rollover_from_command_line [OF opts runner]) (simp_all add: sample_opens, simp_all add: sample_bench_env_def)
  with opts runner show ?thesis by blast
qed

end
