(* ===== verification/Agent_Barrier.thy ===== *)
theory Agent_Barrier
  imports Relay_Prelude
begin

text \<open>
  The agent's barrier capture (\<^verbatim>\<open>barrier_capture.rs\<close>): for a bounded list of partitions, ask the broker for
  the next offset that a reader of committed records would see. The client library is a parameter:
  an abstract type of partition lists and the four calls the code makes on it.
\<close>

definition MAX_PARTITIONS :: nat where "MAX_PARTITIONS = 1024"
definition MAX_TIMEOUT_MILLIS :: nat where "MAX_TIMEOUT_MILLIS = 30000"

datatype 'k capture_error = InvalidBounds | Kafka 'k | MissingPartition i32

text \<open>An offset, as far as the code distinguishes it.\<close>

datatype found_offset = OffsetValue i64 | OffsetEnd | OffsetOther

record ('q, 'k) broker_client =
  bk_new :: 'q
  bk_add_end :: "string \<Rightarrow> i32 \<Rightarrow> 'q \<Rightarrow> 'k + 'q"
  bk_offsets_for_times :: "'q \<Rightarrow> nat \<Rightarrow> 'k + 'q"
  bk_find_partition :: "'q \<Rightarrow> string \<Rightarrow> i32 \<Rightarrow> found_offset option"

fun add_partitions :: "('q, 'k) broker_client \<Rightarrow> string \<Rightarrow> i32 list \<Rightarrow> 'q \<Rightarrow> 'k capture_error + 'q" where
  "add_partitions b topic [] request = Inr request"
| "add_partitions b topic (part # rest) request =
     (case bk_add_end b topic part request of
        Inl k \<Rightarrow> Inl (Kafka k)
      | Inr request' \<Rightarrow> add_partitions b topic rest request')"

fun read_offsets ::
    "('q, 'k) broker_client \<Rightarrow> string \<Rightarrow> 'q \<Rightarrow> i32 list \<Rightarrow> (i32 \<rightharpoonup> i64) \<Rightarrow> 'k capture_error + (i32 \<rightharpoonup> i64)" where
  "read_offsets b topic resolved [] result = Inr result"
| "read_offsets b topic resolved (part # rest) result =
     (case bk_find_partition b resolved topic part of
        None \<Rightarrow> Inl (MissingPartition part)
      | Some (OffsetValue v) \<Rightarrow> read_offsets b topic resolved rest (result(part \<mapsto> v))
      | Some OffsetEnd \<Rightarrow> read_offsets b topic resolved rest (result(part \<mapsto> 0))
      | Some OffsetOther \<Rightarrow> Inl (MissingPartition part))"

definition capture_read_committed_next_offsets ::
    "('q, 'k) broker_client \<Rightarrow> string \<Rightarrow> i32 list \<Rightarrow> nat \<Rightarrow> 'k capture_error + (i32 \<rightharpoonup> i64)" where
  "capture_read_committed_next_offsets b topic partitions timeout_millis =
     (if partitions = [] \<or> length partitions > MAX_PARTITIONS \<or> timeout_millis = 0 \<or> timeout_millis > MAX_TIMEOUT_MILLIS
      then Inl InvalidBounds
      else case add_partitions b topic partitions (bk_new b) of
          Inl e \<Rightarrow> Inl e
        | Inr request \<Rightarrow>
            (case bk_offsets_for_times b request timeout_millis of
               Inl k \<Rightarrow> Inl (Kafka k)
             | Inr resolved \<Rightarrow> read_offsets b topic resolved partitions Map.empty))"

subsection \<open>Properties\<close>

text \<open>The offset captured for one partition of the answer.\<close>

definition captured_offset :: "('q, 'k) broker_client \<Rightarrow> 'q \<Rightarrow> string \<Rightarrow> i32 \<Rightarrow> i64 option" where
  "captured_offset b resolved topic part =
     (case bk_find_partition b resolved topic part of
        Some (OffsetValue v) \<Rightarrow> Some v | Some OffsetEnd \<Rightarrow> Some 0 | _ \<Rightarrow> None)"

lemma read_offsets_conv:
  "read_offsets b topic resolved ps m =
     (case find (\<lambda>p. captured_offset b resolved topic p = None) ps of
        Some p \<Rightarrow> Inl (MissingPartition p)
      | None \<Rightarrow> Inr (\<lambda>p. if p \<in> set ps then captured_offset b resolved topic p else m p))"
proof (induction ps arbitrary: m)
  case (Cons p ps)
  show ?case
  proof (cases "captured_offset b resolved topic p")
    case None
    then show ?thesis by (auto simp: captured_offset_def split: option.splits found_offset.splits)
  next
    case (Some v)
    then have "read_offsets b topic resolved (p # ps) m = read_offsets b topic resolved ps (m(p \<mapsto> v))"
      by (auto simp: captured_offset_def split: option.splits found_offset.splits)
    with Some show ?thesis by (auto simp: Cons.IH fun_eq_iff split: option.split)
  qed
qed simp

lemma add_partitions_error: "add_partitions b topic ps q = Inl e \<Longrightarrow> \<exists>k. e = Kafka k"
  by (induction ps arbitrary: q) (auto split: sum.splits)

definition capture_bounded :: "i32 list \<Rightarrow> nat \<Rightarrow> bool" where
  "capture_bounded partitions timeout_millis \<longleftrightarrow>
     1 \<le> length partitions \<and> length partitions \<le> 1024 \<and> 1 \<le> timeout_millis \<and> timeout_millis \<le> 30000"

text \<open>The broker's answer to the whole request.\<close>

definition resolved_by :: "('q, 'k) broker_client \<Rightarrow> string \<Rightarrow> i32 list \<Rightarrow> nat \<Rightarrow> 'q \<Rightarrow> bool" where
  "resolved_by b topic partitions timeout_millis resolved \<longleftrightarrow>
     (\<exists>request. add_partitions b topic partitions (bk_new b) = Inr request \<and> bk_offsets_for_times b request timeout_millis = Inr resolved)"

lemma capture_unbounded:
  "\<not> capture_bounded ps t \<Longrightarrow> capture_read_committed_next_offsets b topic ps t = Inl InvalidBounds"
  by (auto simp: capture_read_committed_next_offsets_def capture_bounded_def MAX_PARTITIONS_def MAX_TIMEOUT_MILLIS_def not_le Suc_le_eq)

lemma capture_resolved:
  assumes "capture_bounded ps t" "resolved_by b topic ps t resolved"
  shows "capture_read_committed_next_offsets b topic ps t = read_offsets b topic resolved ps Map.empty"
  using assms by (auto simp: capture_read_committed_next_offsets_def capture_bounded_def resolved_by_def MAX_PARTITIONS_def MAX_TIMEOUT_MILLIS_def)

lemma capture_unresolved:
  assumes "capture_bounded ps t" "\<And>resolved. \<not> resolved_by b topic ps t resolved"
  shows "\<exists>k. capture_read_committed_next_offsets b topic ps t = Inl (Kafka k)"
proof (cases "add_partitions b topic ps (bk_new b)")
  case (Inl e)
  with assms(1) add_partitions_error [OF Inl] show ?thesis
    by (auto simp: capture_read_committed_next_offsets_def capture_bounded_def MAX_PARTITIONS_def MAX_TIMEOUT_MILLIS_def)
next
  case (Inr request)
  then obtain k where "bk_offsets_for_times b request t = Inl k"
    using assms(2) by (cases "bk_offsets_for_times b request t") (auto simp: resolved_by_def)
  with Inr assms(1) show ?thesis
    by (auto simp: capture_read_committed_next_offsets_def capture_bounded_def MAX_PARTITIONS_def MAX_TIMEOUT_MILLIS_def)
qed

lemma resolved_by_unique: "resolved_by b topic ps t x \<Longrightarrow> resolved_by b topic ps t y \<Longrightarrow> x = y"
  by (auto simp: resolved_by_def)

lemma first_missing:
  assumes "find P xs = Some x"
  obtains before after where "xs = before @ x # after" "P x" "\<And>y. y \<in> set before \<Longrightarrow> \<not> P y"
proof -
  obtain i where i: "i < length xs" "P x" "x = xs ! i" "\<And>j. j < i \<Longrightarrow> \<not> P (xs ! j)" using assms by (auto simp: find_Some_iff)
  have "xs = take i xs @ x # drop (Suc i) xs" using id_take_nth_drop [OF i(1)] i(3) by simp
  then show ?thesis by (rule that) (use i in \<open>auto simp: in_set_conv_nth\<close>)
qed

text \<open>
  C32: what a barrier capture returns. It answers \<^verbatim>\<open>InvalidBounds\<close> exactly for requests outside the bounds,
  whatever the broker does. It succeeds exactly when the request can be built, the broker answers it
  and every partition has an offset, and then the result holds exactly the requested partitions, each
  with the offset of the answer (zero for the end of a partition). A missing partition that is
  reported is the first requested one without an offset.
\<close>

theorem barrier_capture_result:
  "(capture_read_committed_next_offsets b topic partitions timeout_millis = Inl InvalidBounds \<longleftrightarrow>
      \<not> capture_bounded partitions timeout_millis) \<and>
   (capture_read_committed_next_offsets b topic partitions timeout_millis = Inr offsets \<longleftrightarrow>
      capture_bounded partitions timeout_millis \<and>
      (\<exists>resolved. resolved_by b topic partitions timeout_millis resolved \<and>
         set partitions \<subseteq> dom (captured_offset b resolved topic) \<and>
         offsets = captured_offset b resolved topic |` set partitions)) \<and>
   (capture_read_committed_next_offsets b topic partitions timeout_millis = Inl (MissingPartition p) \<longrightarrow>
      (\<exists>before after resolved. resolved_by b topic partitions timeout_millis resolved \<and> partitions = before @ p # after \<and>
         p \<notin> dom (captured_offset b resolved topic) \<and> set before \<subseteq> dom (captured_offset b resolved topic)))"
proof -
  consider "\<not> capture_bounded partitions timeout_millis"
    | k where "capture_bounded partitions timeout_millis" "\<And>resolved. \<not> resolved_by b topic partitions timeout_millis resolved"
        "capture_read_committed_next_offsets b topic partitions timeout_millis = Inl (Kafka k)"
    | resolved where "capture_bounded partitions timeout_millis" "resolved_by b topic partitions timeout_millis resolved"
    using capture_unresolved by metis
  then show ?thesis
  proof cases
    case 1
    then show ?thesis by (simp add: capture_unbounded)
  next
    case 2
    then show ?thesis by simp
  next
    case (3 resolved)
    have only: "resolved_by b topic partitions timeout_millis x \<longleftrightarrow> x = resolved" for x
      using resolved_by_unique 3(2) by metis
    let ?c = "captured_offset b resolved topic"
    note eq = capture_resolved [OF 3] read_offsets_conv [of b topic resolved partitions Map.empty]
    show ?thesis
    proof (cases "find (\<lambda>p. ?c p = None) partitions")
      case None
      have "set partitions \<subseteq> dom ?c" using None by (auto simp: find_None_iff)
      moreover have "(\<lambda>p. if p \<in> set partitions then ?c p else Map.empty p) = ?c |` set partitions"
        by (simp add: restrict_map_def)
      ultimately show ?thesis using 3(1) by (auto simp: only eq None)
    next
      case (Some q)
      obtain before after where split: "partitions = before @ q # after" "?c q = None" "\<And>y. y \<in> set before \<Longrightarrow> ?c y \<noteq> None"
        by (rule first_missing [OF Some]) blast
      have "capture_read_committed_next_offsets b topic partitions timeout_millis = Inl (MissingPartition q)"
        by (simp add: eq Some)
      moreover have "\<exists>before after. partitions = before @ q # after \<and> q \<notin> dom ?c \<and> set before \<subseteq> dom ?c"
        using split by (intro exI [of _ before] exI [of _ after]) auto
      moreover from this have "\<not> set partitions \<subseteq> dom ?c" by auto
      ultimately show ?thesis using 3(1) by (auto simp: only simp del: domIff)
    qed
  qed
qed

text \<open>A client whose lists are association lists and whose broker answers offset 5 for every partition.\<close>

definition sample_client :: "((i32 \<times> found_offset) list, string) broker_client" where
  "sample_client = \<lparr>bk_new = [], bk_add_end = (\<lambda>_ p q. Inr (q @ [(p, OffsetEnd)])),
     bk_offsets_for_times = (\<lambda>q _. Inr (map (\<lambda>(p, _). (p, OffsetValue 5)) q)), bk_find_partition = (\<lambda>q _ p. map_of q p)\<rparr>"

theorem barrier_capture_result_witness:
  "capture_bounded [0, 3] 1000 \<and> (\<exists>resolved. resolved_by sample_client ''t'' [0, 3] 1000 resolved \<and>
     [0 \<mapsto> 5, 3 \<mapsto> 5] = captured_offset sample_client resolved ''t'' |` {0, 3})"
proof -
  have "capture_read_committed_next_offsets sample_client ''t'' [0, 3] 1000 = Inr [0 \<mapsto> 5, 3 \<mapsto> 5]"
    by (simp add: capture_read_committed_next_offsets_def sample_client_def MAX_PARTITIONS_def MAX_TIMEOUT_MILLIS_def)
  with barrier_capture_result [of sample_client "''t''" "[0, 3]" 1000 "[0 \<mapsto> 5, 3 \<mapsto> 5]"] show ?thesis by auto
qed

end
