(* ===== verification/Testkit_Vectors.thy ===== *)
theory Testkit_Vectors
  imports Relay_Text
begin

text \<open>
  The vector types of \<^verbatim>\<open>craftrelay-testkit\<close>, with the fields its \<^verbatim>\<open>derive(Deserialize)\<close> structs have, and
  the contents of \<^verbatim>\<open>test-vectors/v1/shared-vectors.json\<close> that \<^verbatim>\<open>load_vectors\<close> returns: the file is included
  at compile time and parsed by \<^verbatim>\<open>serde_json\<close>, so the value is the file's data. JSON members without
  a field in the structs are dropped, absent optional members are \<^term>\<open>None\<close>, and a \<^verbatim>\<open>BTreeMap\<close> is
  the list of its entries in key order.
\<close>

subsection \<open>Vector types\<close>

record uuid_vector =
  vu_value :: string
  vu_valid :: bool

record positive_boundaries =
  vb_int32_min :: i32
  vb_int32_max :: i32
  vb_int64_min :: i64
  vb_int64_max :: i64

record digest_vector =
  vd_payload_utf8 :: string
  vd_sha256 :: string

record fingerprint_vector =
  vf_canonical_hex :: string
  vf_sha256 :: string

record installation_scope_vector =
  vi_installation_id :: string
  vi_name :: string
  vi_scoped :: string

record canonical_vector =
  vc_canonical :: string
  vc_sha256 :: string

record revision_vector =
  vr_revision :: i64
  vr_canonical :: string
  vr_sha256 :: string

record metadata_vector_entry =
  ve_key :: string
  ve_value :: string

record metadata_canonicalization_vector =
  vm_entries :: "metadata_vector_entry list"
  vm_canonical :: string
  vm_sha256 :: string

record metadata_rejection_vector =
  vj_entries :: "metadata_vector_entry list"
  vj_rejection :: string

record projection_barrier_vector =
  vp_barrier_version :: i32
  vp_query_definition_version :: i32
  vp_topology_version :: i64
  vp_routing_version :: i64
  vp_canonical :: string
  vp_sha256 :: string
  vp_required_next_offset :: "(string \<times> i64) list"
  vp_exclusive :: bool

record consistency_token_vector =
  vt_token_version :: i32
  vt_installation_id :: string
  vt_authenticated_producer_id :: string
  vt_projector_id :: string
  vt_projection_name :: string
  vt_query_scope :: string
  vt_expires_at_unix_millis :: i64
  vt_canonical :: string
  vt_checksum :: string
  vt_fixture_key_utf8 :: string
  vt_mac :: string
  vt_authenticated :: bool

record query_freshness_vector =
  vq_mode :: string
  vq_proof :: string
  vq_current :: bool
  vq_authoritative :: bool
  vq_silent_downgrade :: bool

record watch_freshness_vector =
  vw_state :: string
  vw_current :: bool
  vw_reason :: string

record producer_registration_vector =
  vg_producer_id :: string
  vg_installation_id :: string
  vg_lifecycle :: string
  vg_valid :: bool
  vg_rejection :: "string option"

record acl_rule_vector =
  vl_rule_id :: string
  vl_action :: string
  vl_pattern :: string
  vl_decision :: string
  vl_priority :: i32

record acl_vector =
  va_principal_installation :: string
  va_scope_installation :: string
  va_credential_status :: string
  va_namespace :: string
  va_action :: string
  va_rules :: "acl_rule_vector list"
  va_expected_decision :: string
  va_expected_reason :: "string option"

record policy_resolution_vector =
  vy_description :: string
  vy_installation_id :: string
  vy_producer_lifecycle :: string
  vy_acl_decision :: string
  vy_namespace :: string
  vy_owned_namespaces :: "string list"
  vy_requested_durability :: string
  vy_minimum_durability :: string
  vy_expected_admission :: string
  vy_expected_reason :: "string option"

record ownership_entry_vector =
  vn_namespace :: string
  vn_owner_node :: string
  vn_installation :: string
  vn_mode :: string

record ownership_vector =
  vo_description :: string
  vo_mode :: string
  vo_entries :: "ownership_entry_vector list"
  vo_installation_id :: string
  vo_node_id :: string
  vo_valid :: bool
  vo_violation :: "string option"

record quota_admission_vector =
  vx_description :: string
  vx_producer_priority :: string
  vx_in_flight :: i32
  vx_max_in_flight :: i32
  vx_global_in_flight :: i32
  vx_global_max :: i32
  vx_reserved_p0 :: i32
  vx_used_p0 :: i32
  vx_namespace_owned :: bool
  vx_expected :: string
  vx_reason :: "string option"

record kafka_profile_vector =
  vk_description :: string
  vk_rf :: i32
  vk_min_isr :: i32
  vk_acks :: string
  vk_valid_p0 :: bool
  vk_error :: "string option"

record shared_vectors =
  vs_version :: i32
  vs_uuid_v7 :: "uuid_vector list"
  vs_positive_boundaries :: positive_boundaries
  vs_payload_digest :: "digest_vector list"
  vs_fingerprint :: "fingerprint_vector list"
  vs_installation_scope :: "installation_scope_vector list"
  vs_metadata_canonicalization :: "metadata_canonicalization_vector list"
  vs_metadata_rejections :: "metadata_rejection_vector list"
  vs_envelope_input :: "canonical_vector list"
  vs_envelope_checksum :: "canonical_vector list"
  vs_revision_checksums :: "revision_vector list"
  vs_projection_barrier :: projection_barrier_vector
  vs_consistency_token :: consistency_token_vector
  vs_query_freshness :: "query_freshness_vector list"
  vs_watch_freshness :: "watch_freshness_vector list"
  vs_sprint2_producer_registration :: "producer_registration_vector list"
  vs_sprint2_acl :: "acl_vector list"
  vs_sprint2_policy_resolution :: "policy_resolution_vector list"
  vs_sprint2_ownership :: "ownership_vector list"
  vs_sprint2_quota_admission :: "quota_admission_vector list"
  vs_sprint2_kafka_profile :: "kafka_profile_vector list"

subsection \<open>The checked-in vectors\<close>

definition uuid_v7_data :: "uuid_vector list" where
  "uuid_v7_data =
     [\<lparr>vu_value = ''01890f3e-7b4c-7cc2-98c8-3f0f5f3f9b4a'', vu_valid = True\<rparr>,
      \<lparr>vu_value = ''01890f3e-7b4c-4cc2-98c8-3f0f5f3f9b4a'', vu_valid = False\<rparr>,
      \<lparr>vu_value = ''01890F3E-7B4C-7CC2-98C8-3F0F5F3F9B4A'', vu_valid = False\<rparr>,
      \<lparr>vu_value = ''not-a-uuid'', vu_valid = False\<rparr>]"

definition boundary_data :: positive_boundaries where
  "boundary_data =
     \<lparr>vb_int32_min = 1, vb_int32_max = 2147483647, vb_int64_min = 1, vb_int64_max = 9223372036854775807\<rparr>"

definition payload_digest_data :: "digest_vector list" where
  "payload_digest_data =
     [\<lparr>vd_payload_utf8 = ''CraftRelay'',
       vd_sha256 = ''b43a068b8c1f4289ec1a91fce360a3268a17479e509beb715a3790a962d7a750''\<rparr>]"

definition fingerprint_data :: "fingerprint_vector list" where
  "fingerprint_data =
     [\<lparr>vf_canonical_hex = ''0001010000002430313839306633652d376234632d376363322d393863382d3366306635663366396234610002010000000a70726f64756365722d610003010000000765636f6e6f6d79000401000000076163636f756e74000501000000087472616e736665720006010000000400000001000701000000096163636f756e742d31000801000000046f702d310009010000000a5245504c494341544544000a010000000a437261667452656c6179000b0100000007613d313b7a3d39000c010000000400000001'',
       vf_sha256 = ''6594ba4b50597d8746ca7aff3c5e1cab10143239ce41689071e4860b212b8b5d''\<rparr>]"

definition installation_scope_data :: "installation_scope_vector list" where
  "installation_scope_data =
     [\<lparr>vi_installation_id = ''installation-a'', vi_name = ''same'',
       vi_scoped = (''installation-a'' @ [nul] @ ''same'')\<rparr>,
      \<lparr>vi_installation_id = ''installation-b'', vi_name = ''same'',
       vi_scoped = (''installation-b'' @ [nul] @ ''same'')\<rparr>]"

definition metadata_canonicalization_data :: "metadata_canonicalization_vector list" where
  "metadata_canonicalization_data =
     [\<lparr>vm_entries = [\<lparr>ve_key = ''z'', ve_value = ''last''\<rparr>,
         \<lparr>ve_key = ''a'', ve_value = ''first''\<rparr>],
       vm_canonical = ''a=first|z=last'',
       vm_sha256 = ''efe0f44780d34543dcd2cd3261a94da5b77d794255ce287116b2604acb479fae''\<rparr>]"

definition metadata_rejections_data :: "metadata_rejection_vector list" where
  "metadata_rejections_data =
     [\<lparr>vj_entries = [\<lparr>ve_key = ''same'', ve_value = ''a''\<rparr>,
         \<lparr>ve_key = ''same'', ve_value = ''b''\<rparr>],
       vj_rejection = ''DUPLICATE_METADATA_KEY''\<rparr>]"

definition envelope_input_data :: "canonical_vector list" where
  "envelope_input_data =
     [\<lparr>vc_canonical = ''event_id=01890f3e-7b4c-7cc2-98c8-3f0f5f3f9b4a|schema_version=1|metadata=a=first,z=last|payload=02'',
       vc_sha256 = ''98892a3bb39988b3ec3a948cac9a7d055c50cb37b8ae5bcb4469af846bf10102''\<rparr>]"

definition envelope_checksum_data :: "canonical_vector list" where
  "envelope_checksum_data =
     [\<lparr>vc_canonical = (''installation-a'' @ [nul] @ ''01890f3e-7b4c-7cc2-98c8-3f0f5f3f9b4a'' @ [nul] @ ''1''),
       vc_sha256 = ''452281e1e1270719e44f07d588fc97888407ae9d8373658a007ead3b40869e53''\<rparr>]"

definition revision_checksums_data :: "revision_vector list" where
  "revision_checksums_data =
     [\<lparr>vr_revision = 1, vr_canonical = (''1'' @ [nul] @ ''LOCAL_ACCEPTED''),
       vr_sha256 = ''3e9242feef2479602f984385e52097eb72ba463541423ce178cdf0699fb1ac91''\<rparr>]"

definition projection_barrier_data :: projection_barrier_vector where
  "projection_barrier_data =
     \<lparr>vp_barrier_version = 1, vp_query_definition_version = 1, vp_topology_version = 3,
      vp_routing_version = 7, vp_canonical = ''v=1|topology=3|routing=7|events:0=0|events:1=42'',
      vp_sha256 = ''d73cf4167cc5ec91769dde542cbeef8ee6c78aefc4eff59a9b332cb1053fa090'',
      vp_required_next_offset = [(''0'', 0), (''1'', 42)], vp_exclusive = True\<rparr>"

definition consistency_token_data :: consistency_token_vector where
  "consistency_token_data =
     \<lparr>vt_token_version = 1, vt_installation_id = ''installation-a'',
      vt_authenticated_producer_id = ''producer-a'', vt_projector_id = ''projector-a'',
      vt_projection_name = ''accounts'', vt_query_scope = ''account:1'',
      vt_expires_at_unix_millis = 1893456000000,
      vt_canonical = ''v=1|installation=installation-a|producer=producer-a|projector=projector-a|projection=accounts|scope=account:1|expires=1893456000000|events:0=42'',
      vt_checksum = ''08096e7b2c0c57df5ec73fc53abd87a896dc494e0d3a1e85e3007f4aaf25a881'',
      vt_fixture_key_utf8 = ''fixture-hmac-key-material'',
      vt_mac = ''0714a7093b8ffec803649c777d5625bd32acddf45f0aaf02cd6616be8d9a855a'', vt_authenticated = True\<rparr>"

definition query_freshness_data :: "query_freshness_vector list" where
  "query_freshness_data =
     [\<lparr>vq_mode = ''STRICT_LATEST_COMMITTED'', vq_proof = ''UNAVAILABLE'', vq_current = False,
       vq_authoritative = False, vq_silent_downgrade = False\<rparr>,
      \<lparr>vq_mode = ''ALLOW_STALE'', vq_proof = ''STALE_ACCEPTED'', vq_current = False, vq_authoritative = False,
       vq_silent_downgrade = False\<rparr>]"

definition watch_freshness_data :: "watch_freshness_vector list" where
  "watch_freshness_data =
     [\<lparr>vw_state = ''DETACHED'', vw_current = False, vw_reason = ''capacity''\<rparr>,
      \<lparr>vw_state = ''INCOMPARABLE'', vw_current = False, vw_reason = ''topology_changed''\<rparr>]"

definition sprint2_producer_registration_data :: "producer_registration_vector list" where
  "sprint2_producer_registration_data =
     [\<lparr>vg_producer_id = ''producer-a'', vg_installation_id = ''installation-a'', vg_lifecycle = ''ACTIVE'',
       vg_valid = True, vg_rejection = None\<rparr>,
      \<lparr>vg_producer_id = ''producer-a'', vg_installation_id = ''installation-b'', vg_lifecycle = ''ACTIVE'',
       vg_valid = False, vg_rejection = Some ''CROSS_INSTALLATION''\<rparr>,
      \<lparr>vg_producer_id = ''producer-a'', vg_installation_id = ''installation-a'', vg_lifecycle = ''DISABLED'',
       vg_valid = False, vg_rejection = Some ''DISABLED''\<rparr>,
      \<lparr>vg_producer_id = ''producer-a'', vg_installation_id = ''installation-a'', vg_lifecycle = ''SUSPENDED'',
       vg_valid = False, vg_rejection = Some ''SUSPENDED''\<rparr>]"

definition sprint2_acl_data :: "acl_vector list" where
  "sprint2_acl_data =
     [\<lparr>va_principal_installation = ''installation-a'', va_scope_installation = ''installation-a'',
       va_credential_status = ''ACTIVE'', va_namespace = ''economy'', va_action = ''PUBLISH'',
       va_rules = [\<lparr>vl_rule_id = ''allow-economy'', vl_action = ''PUBLISH'', vl_pattern = ''economy'',
          vl_decision = ''ALLOW'', vl_priority = 10\<rparr>],
       va_expected_decision = ''ALLOW'', va_expected_reason = None\<rparr>,
      \<lparr>va_principal_installation = ''installation-a'', va_scope_installation = ''installation-a'',
       va_credential_status = ''ACTIVE'', va_namespace = ''economy'', va_action = ''PUBLISH'',
       va_rules = [\<lparr>vl_rule_id = ''deny-economy'', vl_action = ''PUBLISH'', vl_pattern = ''economy'',
          vl_decision = ''DENY'', vl_priority = 20\<rparr>,
         \<lparr>vl_rule_id = ''allow-economy'', vl_action = ''PUBLISH'', vl_pattern = ''economy'',
          vl_decision = ''ALLOW'', vl_priority = 10\<rparr>],
       va_expected_decision = ''DENY'', va_expected_reason = None\<rparr>,
      \<lparr>va_principal_installation = ''installation-a'', va_scope_installation = ''installation-b'',
       va_credential_status = ''ACTIVE'', va_namespace = ''economy'', va_action = ''PUBLISH'', va_rules = [],
       va_expected_decision = ''DENY'', va_expected_reason = Some ''CROSS_INSTALLATION''\<rparr>,
      \<lparr>va_principal_installation = ''installation-a'', va_scope_installation = ''installation-a'',
       va_credential_status = ''REVOKED'', va_namespace = ''economy'', va_action = ''PUBLISH'',
       va_rules = [\<lparr>vl_rule_id = ''allow-all'', vl_action = ''PUBLISH'', vl_pattern = ''*'', vl_decision = ''ALLOW'',
          vl_priority = 1\<rparr>],
       va_expected_decision = ''DENY'', va_expected_reason = Some ''CREDENTIAL_REVOKED''\<rparr>,
      \<lparr>va_principal_installation = ''installation-a'', va_scope_installation = ''installation-a'',
       va_credential_status = ''EXPIRED'', va_namespace = ''economy'', va_action = ''PUBLISH'', va_rules = [],
       va_expected_decision = ''DENY'', va_expected_reason = Some ''CREDENTIAL_EXPIRED''\<rparr>,
      \<lparr>va_principal_installation = ''installation-a'', va_scope_installation = ''installation-a'',
       va_credential_status = ''UNKNOWN'', va_namespace = ''economy'', va_action = ''PUBLISH'', va_rules = [],
       va_expected_decision = ''DENY'', va_expected_reason = Some ''CREDENTIAL_INVALID''\<rparr>,
      \<lparr>va_principal_installation = ''installation-a'', va_scope_installation = ''installation-a'',
       va_credential_status = ''ACTIVE'', va_namespace = ''mining'', va_action = ''PUBLISH'',
       va_rules = [\<lparr>vl_rule_id = ''allow-economy'', vl_action = ''PUBLISH'', vl_pattern = ''economy'',
          vl_decision = ''ALLOW'', vl_priority = 10\<rparr>],
       va_expected_decision = ''DENY'', va_expected_reason = Some ''NO_MATCHING_RULE''\<rparr>]"

definition sprint2_policy_resolution_data :: "policy_resolution_vector list" where
  "sprint2_policy_resolution_data =
     [\<lparr>vy_description = ''valid policy resolution'', vy_installation_id = ''installation-a'',
       vy_producer_lifecycle = ''ACTIVE'', vy_acl_decision = ''ALLOW'', vy_namespace = ''economy'',
       vy_owned_namespaces = [''economy''], vy_requested_durability = ''REPLICATED_DURABLE'',
       vy_minimum_durability = ''REPLICATED_DURABLE'', vy_expected_admission = ''ADMITTED'',
       vy_expected_reason = None\<rparr>,
      \<lparr>vy_description = ''durability weakening rejected'', vy_installation_id = ''installation-a'',
       vy_producer_lifecycle = ''ACTIVE'', vy_acl_decision = ''ALLOW'', vy_namespace = ''economy'',
       vy_owned_namespaces = [''economy''], vy_requested_durability = ''LOCAL_DURABLE'',
       vy_minimum_durability = ''REPLICATED_DURABLE'', vy_expected_admission = ''REJECTED'',
       vy_expected_reason = Some ''DURABILITY_WEAKENING''\<rparr>,
      \<lparr>vy_description = ''not locally owned rejected'', vy_installation_id = ''installation-a'',
       vy_producer_lifecycle = ''ACTIVE'', vy_acl_decision = ''ALLOW'', vy_namespace = ''economy'',
       vy_owned_namespaces = [''mining''], vy_requested_durability = ''REPLICATED_DURABLE'',
       vy_minimum_durability = ''REPLICATED_DURABLE'', vy_expected_admission = ''REJECTED'',
       vy_expected_reason = Some ''NOT_LOCALLY_OWNED''\<rparr>,
      \<lparr>vy_description = ''disabled producer rejected'', vy_installation_id = ''installation-a'',
       vy_producer_lifecycle = ''DISABLED'', vy_acl_decision = ''ALLOW'', vy_namespace = ''economy'',
       vy_owned_namespaces = [''economy''], vy_requested_durability = ''REPLICATED_DURABLE'',
       vy_minimum_durability = ''REPLICATED_DURABLE'', vy_expected_admission = ''REJECTED'',
       vy_expected_reason = Some ''PRODUCER_DISABLED''\<rparr>,
      \<lparr>vy_description = ''ACL denied rejected'', vy_installation_id = ''installation-a'',
       vy_producer_lifecycle = ''ACTIVE'', vy_acl_decision = ''DENY'', vy_namespace = ''economy'',
       vy_owned_namespaces = [''economy''], vy_requested_durability = ''REPLICATED_DURABLE'',
       vy_minimum_durability = ''REPLICATED_DURABLE'', vy_expected_admission = ''REJECTED'',
       vy_expected_reason = Some ''ACL_DENIED''\<rparr>]"

definition sprint2_ownership_data :: "ownership_vector list" where
  "sprint2_ownership_data =
     [\<lparr>vo_description = ''valid NODE_LOCAL snapshot'', vo_mode = ''NODE_LOCAL'',
       vo_entries = [\<lparr>vn_namespace = ''economy'', vn_owner_node = ''node-1'', vn_installation = ''installation-a'',
          vn_mode = ''NODE_LOCAL''\<rparr>],
       vo_installation_id = ''installation-a'', vo_node_id = ''node-1'', vo_valid = True, vo_violation = None\<rparr>,
      \<lparr>vo_description = ''duplicate namespace rejected'', vo_mode = ''NODE_LOCAL'',
       vo_entries = [\<lparr>vn_namespace = ''economy'', vn_owner_node = ''node-1'', vn_installation = ''installation-a'',
          vn_mode = ''NODE_LOCAL''\<rparr>,
         \<lparr>vn_namespace = ''economy'', vn_owner_node = ''node-1'', vn_installation = ''installation-a'',
          vn_mode = ''NODE_LOCAL''\<rparr>],
       vo_installation_id = ''installation-a'', vo_node_id = ''node-1'', vo_valid = False,
       vo_violation = Some ''DUPLICATE_NAMESPACE''\<rparr>,
      \<lparr>vo_description = ''cross-installation rejected'', vo_mode = ''NODE_LOCAL'',
       vo_entries = [\<lparr>vn_namespace = ''economy'', vn_owner_node = ''node-1'', vn_installation = ''installation-b'',
          vn_mode = ''NODE_LOCAL''\<rparr>],
       vo_installation_id = ''installation-a'', vo_node_id = ''node-1'', vo_valid = False,
       vo_violation = Some ''CROSS_INSTALLATION''\<rparr>,
      \<lparr>vo_description = ''missing owner rejected'', vo_mode = ''NODE_LOCAL'',
       vo_entries = [\<lparr>vn_namespace = ''economy'', vn_owner_node = '''', vn_installation = ''installation-a'',
          vn_mode = ''NODE_LOCAL''\<rparr>],
       vo_installation_id = ''installation-a'', vo_node_id = ''node-1'', vo_valid = False,
       vo_violation = Some ''MISSING_OWNER''\<rparr>]"

definition sprint2_quota_admission_data :: "quota_admission_vector list" where
  "sprint2_quota_admission_data =
     [\<lparr>vx_description = ''under limit admitted'', vx_producer_priority = ''P1'', vx_in_flight = 5,
       vx_max_in_flight = 100, vx_global_in_flight = 20, vx_global_max = 500, vx_reserved_p0 = 50,
       vx_used_p0 = 10, vx_namespace_owned = True, vx_expected = ''ADMITTED'', vx_reason = None\<rparr>,
      \<lparr>vx_description = ''producer in-flight exceeded'', vx_producer_priority = ''P1'', vx_in_flight = 100,
       vx_max_in_flight = 100, vx_global_in_flight = 20, vx_global_max = 500, vx_reserved_p0 = 50,
       vx_used_p0 = 10, vx_namespace_owned = True, vx_expected = ''REJECTED'',
       vx_reason = Some ''PRODUCER_IN_FLIGHT_EXCEEDED''\<rparr>,
      \<lparr>vx_description = ''P0 capacity reserved blocks lower priority'', vx_producer_priority = ''P2'',
       vx_in_flight = 5, vx_max_in_flight = 100, vx_global_in_flight = 460, vx_global_max = 500,
       vx_reserved_p0 = 50, vx_used_p0 = 10, vx_namespace_owned = True, vx_expected = ''REJECTED'',
       vx_reason = Some ''P0_CAPACITY_RESERVED''\<rparr>,
      \<lparr>vx_description = ''P0 producer uses reserved capacity'', vx_producer_priority = ''P0'',
       vx_in_flight = 5, vx_max_in_flight = 100, vx_global_in_flight = 460, vx_global_max = 500,
       vx_reserved_p0 = 50, vx_used_p0 = 10, vx_namespace_owned = True, vx_expected = ''ADMITTED'',
       vx_reason = None\<rparr>,
      \<lparr>vx_description = ''not locally owned rejected'', vx_producer_priority = ''P1'', vx_in_flight = 5,
       vx_max_in_flight = 100, vx_global_in_flight = 20, vx_global_max = 500, vx_reserved_p0 = 50,
       vx_used_p0 = 10, vx_namespace_owned = False, vx_expected = ''REJECTED'',
       vx_reason = Some ''NOT_LOCALLY_OWNED''\<rparr>]"

definition sprint2_kafka_profile_data :: "kafka_profile_vector list" where
  "sprint2_kafka_profile_data =
     [\<lparr>vk_description = ''valid P0 profile'', vk_rf = 5, vk_min_isr = 5, vk_acks = ''all'',
       vk_valid_p0 = True, vk_error = None\<rparr>,
      \<lparr>vk_description = ''weakened RF rejected'', vk_rf = 3, vk_min_isr = 3, vk_acks = ''all'',
       vk_valid_p0 = False, vk_error = Some ''WEAKENED_DURABILITY''\<rparr>,
      \<lparr>vk_description = ''invalid acks rejected'', vk_rf = 5, vk_min_isr = 5, vk_acks = ''1'',
       vk_valid_p0 = False, vk_error = Some ''INVALID_ACKS''\<rparr>]"

definition load_vectors :: shared_vectors where
  "load_vectors =
     \<lparr>vs_version = 1,
      vs_uuid_v7 = uuid_v7_data,
      vs_positive_boundaries = boundary_data,
      vs_payload_digest = payload_digest_data,
      vs_fingerprint = fingerprint_data,
      vs_installation_scope = installation_scope_data,
      vs_metadata_canonicalization = metadata_canonicalization_data,
      vs_metadata_rejections = metadata_rejections_data,
      vs_envelope_input = envelope_input_data,
      vs_envelope_checksum = envelope_checksum_data,
      vs_revision_checksums = revision_checksums_data,
      vs_projection_barrier = projection_barrier_data,
      vs_consistency_token = consistency_token_data,
      vs_query_freshness = query_freshness_data,
      vs_watch_freshness = watch_freshness_data,
      vs_sprint2_producer_registration = sprint2_producer_registration_data,
      vs_sprint2_acl = sprint2_acl_data,
      vs_sprint2_policy_resolution = sprint2_policy_resolution_data,
      vs_sprint2_ownership = sprint2_ownership_data,
      vs_sprint2_quota_admission = sprint2_quota_admission_data,
      vs_sprint2_kafka_profile = sprint2_kafka_profile_data\<rparr>"

end
