(* ===== verification/Testkit_Test.thy ===== *)
theory Testkit_Test
  imports Testkit_Vectors Domain_Metadata Domain_Admission Domain_Profile
begin

text \<open>
  The conformance test of \<^verbatim>\<open>craftrelay-testkit\<close>: it runs the functions of the domain crate on the shared
  vectors and compares their answers with the recorded ones. An assertion that fails, an
  \<^verbatim>\<open>expect\<close> on an error, an index out of range and an unknown name are panics. The digest is the
  parameter \<open>sha\<close>, the text of \<^verbatim>\<open>contracts.proto\<close> the parameter \<open>protocol\<close>.
\<close>

subsection \<open>Assertions and text functions\<close>

definition assert_that :: "bool \<Rightarrow> unit outcome" where
  "assert_that b = (if b then Done () else Panicked)"

fun assert_all :: "unit outcome list \<Rightarrow> unit outcome" where
  "assert_all [] = Done ()"
| "assert_all (x # xs) = bind_outcome x (\<lambda>_. assert_all xs)"

declare assert_all.simps [simp del]

text \<open>\<^verbatim>\<open>v[0]\<close>, \<^verbatim>\<open>expect\<close> on a result, and \<^verbatim>\<open>Result::is_ok\<close>.\<close>

definition first_item :: "'a list \<Rightarrow> 'a outcome" where
  "first_item xs = (case xs of [] \<Rightarrow> Panicked | x # _ \<Rightarrow> Done x)"

definition expect :: "'e + 'a \<Rightarrow> 'a outcome" where
  "expect r = (case r of Inl _ \<Rightarrow> Panicked | Inr a \<Rightarrow> Done a)"

definition is_ok :: "'e + 'a \<Rightarrow> bool" where
  "is_ok r \<longleftrightarrow> (case r of Inl _ \<Rightarrow> False | Inr _ \<Rightarrow> True)"

text \<open>Lower-case hexadecimal, two digits for each byte.\<close>

definition hex :: "bytes \<Rightarrow> string" where
  "hex bs = concat (map (\<lambda>b. [hex_digit (unat b div 16), hex_digit (unat b mod 16)]) bs)"

text \<open>\<^verbatim>\<open>u8::from_str_radix(s, 16)\<close> on two bytes: digits of either case, and a leading plus sign.\<close>

definition hex_value :: "char \<Rightarrow> nat option" where
  "hex_value c =
     (let n = of_char c :: nat in
      if 48 \<le> n \<and> n \<le> 57 then Some (n - 48)
      else if 97 \<le> n \<and> n \<le> 102 then Some (n - 87)
      else if 65 \<le> n \<and> n \<le> 70 then Some (n - 55)
      else None)"

definition u8_from_hex :: "char \<Rightarrow> char \<Rightarrow> byte outcome" where
  "u8_from_hex c d =
     (case hex_value d of
        None \<Rightarrow> Panicked
      | Some low \<Rightarrow>
          if c = CHR ''+'' then Done (of_nat low)
          else (case hex_value c of None \<Rightarrow> Panicked | Some high \<Rightarrow> Done (of_nat (16 * high + low))))"

text \<open>The decoding of \<^verbatim>\<open>canonical_hex\<close> in steps of two; an odd length ends in a slice out of range.\<close>

fun decode_hex :: "string \<Rightarrow> bytes outcome" where
  "decode_hex [] = Done []"
| "decode_hex [c] = Panicked"
| "decode_hex (c # d # s) = bind_outcome (u8_from_hex c d) (\<lambda>b. bind_outcome (decode_hex s) (\<lambda>bs. Done (b # bs)))"

text \<open>
  The first occurrence of a pattern: the text before and after it. \<^verbatim>\<open>str::contains\<close> asks for one, and
  \<^verbatim>\<open>split(pattern).nth(1)\<close> is the text between the first occurrence and the second, or the end.
\<close>

fun split_first :: "string \<Rightarrow> string \<Rightarrow> (string \<times> string) option" where
  "split_first pattern s =
     (if prefix pattern s then Some ([], drop (length pattern) s)
      else case s of
          [] \<Rightarrow> None
        | c # cs \<Rightarrow> map_option (\<lambda>(before, after). (c # before, after)) (split_first pattern cs))"

declare split_first.simps [simp del]

definition contains :: "string \<Rightarrow> string \<Rightarrow> bool" where
  "contains s pattern \<longleftrightarrow> split_first pattern s \<noteq> None"

definition split_nth_1 :: "string \<Rightarrow> string \<Rightarrow> string option" where
  "split_nth_1 pattern s =
     (case split_first pattern s of
        None \<Rightarrow> None
      | Some (_, rest) \<Rightarrow> Some (case split_first pattern rest of None \<Rightarrow> rest | Some (before, _) \<Rightarrow> before))"

subsection \<open>Digests, names and metadata\<close>

definition metadata_entries_of :: "metadata_vector_entry list \<Rightarrow> metadata_entry list" where
  "metadata_entries_of entries = map (\<lambda>entry. \<lparr>me_key = ve_key entry, me_value = ve_value entry\<rparr>) entries"

definition check_identifiers_and_digests :: "(bytes \<Rightarrow> checksum) \<Rightarrow> shared_vectors \<Rightarrow> unit outcome" where
  "check_identifiers_and_digests sha vectors = assert_all
     [assert_that (vs_version vectors = 1),
      assert_all (map (\<lambda>v. assert_that (is_canonical_uuid_v7 (vu_value v) = vu_valid v)) (vs_uuid_v7 vectors)),
      assert_that (vb_int32_min (vs_positive_boundaries vectors) = 1),
      assert_that (vb_int64_min (vs_positive_boundaries vectors) = 1),
      bind_outcome (first_item (vs_payload_digest vectors)) (\<lambda>payload.
        assert_that (hex (bytes_of (sha (str_bytes (vd_payload_utf8 payload)))) = vd_sha256 payload)),
      bind_outcome (first_item (vs_fingerprint vectors)) (\<lambda>fingerprint.
        bind_outcome (decode_hex (vf_canonical_hex fingerprint)) (\<lambda>canonical.
          assert_that (hex (bytes_of (sha canonical)) = vf_sha256 fingerprint)))]"

definition check_scopes_and_metadata :: "(bytes \<Rightarrow> checksum) \<Rightarrow> shared_vectors \<Rightarrow> unit outcome" where
  "check_scopes_and_metadata sha vectors = assert_all
     [assert_all (map (\<lambda>scope. assert_that (scoped_name (vi_installation_id scope) (vi_name scope) = vi_scoped scope))
        (vs_installation_scope vectors)),
      assert_all (map (\<lambda>metadata.
        bind_outcome (expect (canonical_metadata_text (metadata_entries_of (vm_entries metadata)))) (\<lambda>canonical.
          assert_all
            [assert_that (canonical = vm_canonical metadata),
             assert_that (hex (bytes_of (sha (str_bytes canonical))) = vm_sha256 metadata)]))
        (vs_metadata_canonicalization vectors)),
      assert_all (map (\<lambda>rejection. assert_all
          [assert_that (canonicalize_metadata (metadata_entries_of (vj_entries rejection)) = Inl DuplicateMetadataKey),
           assert_that (vj_rejection rejection = ''DUPLICATE_METADATA_KEY'')])
        (vs_metadata_rejections vectors))]"

definition check_envelopes :: "(bytes \<Rightarrow> checksum) \<Rightarrow> shared_vectors \<Rightarrow> unit outcome" where
  "check_envelopes sha vectors = assert_all
     [assert_all (map (\<lambda>envelope. assert_that (hex (bytes_of (sha (str_bytes (vc_canonical envelope)))) = vc_sha256 envelope))
        (vs_envelope_input vectors)),
      bind_outcome (first_item (vs_envelope_checksum vectors)) (\<lambda>envelope.
        assert_that (hex (bytes_of (sha (str_bytes (vc_canonical envelope)))) = vc_sha256 envelope)),
      bind_outcome (first_item (vs_revision_checksums vectors)) (\<lambda>revision. assert_all
        [assert_that (vr_revision revision = 1),
         assert_that (hex (bytes_of (sha (str_bytes (vr_canonical revision)))) = vr_sha256 revision)])]"

definition check_barrier_and_token :: "(bytes \<Rightarrow> checksum) \<Rightarrow> shared_vectors \<Rightarrow> unit outcome" where
  "check_barrier_and_token sha vectors =
     (let barrier = vs_projection_barrier vectors; token = vs_consistency_token vectors in assert_all
     [assert_that (vp_exclusive barrier),
      assert_that (vp_barrier_version barrier = 1),
      assert_that (vp_query_definition_version barrier = 1),
      assert_that (list_all (\<lambda>(_, offset). 0 \<le> offset) (vp_required_next_offset barrier)),
      assert_that (hex (bytes_of (sha (str_bytes (vp_canonical barrier)))) = vp_sha256 barrier),
      assert_that (vt_token_version token = 1),
      assert_that (vt_authenticated token),
      assert_that (hex (bytes_of (sha (str_bytes (vt_canonical token)))) = vt_checksum token),
      assert_that (hex (bytes_of (hmac_sha256 sha (str_bytes (vt_fixture_key_utf8 token)) (str_bytes (vt_canonical token))))
        = vt_mac token),
      assert_that (list_all (\<lambda>v. \<not> vq_silent_downgrade v) (vs_query_freshness vectors)),
      assert_that (list_all (\<lambda>v. \<not> vw_current v) (filter (\<lambda>v. vw_state v \<noteq> ''CURRENT'') (vs_watch_freshness vectors)))])"

subsection \<open>The protocol text\<close>

definition forbidden_fields :: "string list" where
  "forbidden_fields =
     [''bytes payload ='', ''delivery_status'', ''kafka_partition ='', ''kafka_offset'', ''record_offset'',
      ''retry_count'', ''projection_status'', ''projection_progress'', ''retention_status'', ''payload_present'',
      ''payload_deleted'', ''payload_deletion'']"

definition stored_envelope_body :: "string \<Rightarrow> string outcome" where
  "stored_envelope_body protocol =
     (case split_nth_1 ''message StoredEventEnvelope'' protocol of
        None \<Rightarrow> Panicked
      | Some rest \<Rightarrow> Done (takeWhile (\<lambda>c. c \<noteq> CHR ''}'') rest))"

definition check_protocol :: "string \<Rightarrow> unit outcome" where
  "check_protocol protocol = assert_all
     [bind_outcome (stored_envelope_body protocol) (\<lambda>envelope.
        assert_all (map (\<lambda>forbidden. assert_that (\<not> contains envelope forbidden)) forbidden_fields)),
      assert_that (contains protocol ''required_next_offset''),
      assert_that (contains protocol ''next_offset_to_resolve'')]"

definition protocol_types :: "string list" where
  "protocol_types =
     [''ProducerLifecycleState'', ''CredentialReference'', ''AclEvaluationResult'', ''EffectivePolicyResult'',
      ''OwnershipSnapshot'', ''AdmissionResult'', ''KafkaDurabilityProfile'']"

definition check_protocol_types :: "string \<Rightarrow> unit outcome" where
  "check_protocol_types protocol = assert_all (map (\<lambda>t. assert_that (contains protocol t)) protocol_types)"

subsection \<open>Registration, access and ownership\<close>

definition lifecycle_named :: "string \<Rightarrow> producer_lifecycle_state outcome" where
  "lifecycle_named s =
     (if s = ''ACTIVE'' then Done Active else if s = ''DISABLED'' then Done Disabled
      else if s = ''SUSPENDED'' then Done Suspended else Panicked)"

definition registration_producer :: "producer_registration_vector \<Rightarrow> producer_lifecycle_state \<Rightarrow> registered_producer" where
  "registration_producer reg lifecycle =
     \<lparr>rp_installation_id = vg_installation_id reg, rp_producer_id = vg_producer_id reg,
      rp_producer_instance_id = ''instance-1'', rp_integration_id = ''reference'',
      rp_paper_plugin_id = ''ReferencePlugin'', rp_lifecycle_state = lifecycle,
      rp_allowed_namespaces = [''economy''], rp_priority_class = P1, rp_quota_class = Standard,
      rp_policy_binding_id = ''binding-1''\<rparr>"

definition check_registration :: "producer_registration_vector \<Rightarrow> unit outcome" where
  "check_registration reg =
     bind_outcome (lifecycle_named (vg_lifecycle reg)) (\<lambda>lifecycle.
       assert_that (is_ok (validate_producer_registration (registration_producer reg lifecycle) ''installation-a'' [])
         = vg_valid reg))"

definition credential_status_named :: "string \<Rightarrow> credential_status outcome" where
  "credential_status_named s =
     (if s = ''ACTIVE'' then Done ActiveCredential else if s = ''REVOKED'' then Done Revoked
      else if s = ''EXPIRED'' then Done Expired else if s = ''UNKNOWN'' then Done Unknown else Panicked)"

definition acl_action_named :: "string \<Rightarrow> acl_action outcome" where
  "acl_action_named s = (if s = ''PUBLISH'' then Done Publish else if s = ''QUERY'' then Done Query else Panicked)"

definition acl_decision_named :: "string \<Rightarrow> acl_decision outcome" where
  "acl_decision_named s = (if s = ''ALLOW'' then Done Allow else if s = ''DENY'' then Done Deny else Panicked)"

definition vector_principal :: "acl_vector \<Rightarrow> credential_status \<Rightarrow> acl_principal" where
  "vector_principal acl status =
     \<lparr>ap_producer_id = ''producer-a'', ap_installation_id = va_principal_installation acl,
      ap_credential = \<lparr>cr_credential_id = ''cred-1'', cr_kind = FakeTestOnly, cr_revision = 1,
        cr_status = status, cr_installation_id = va_principal_installation acl\<rparr>\<rparr>"

fun vector_rules :: "acl_rule_vector list \<Rightarrow> acl_rule list outcome" where
  "vector_rules [] = Done []"
| "vector_rules (r # rs) =
     bind_outcome (acl_action_named (vl_action r)) (\<lambda>action.
     bind_outcome (acl_decision_named (vl_decision r)) (\<lambda>decision.
     bind_outcome (vector_rules rs) (\<lambda>rules.
       Done (\<lparr>ar_rule_id = vl_rule_id r, ar_action = action, ar_namespace_pattern = vl_pattern r,
         ar_decision = decision, ar_priority = vl_priority r\<rparr> # rules))))"

definition check_acl :: "acl_vector \<Rightarrow> unit outcome" where
  "check_acl acl =
     bind_outcome (credential_status_named (va_credential_status acl)) (\<lambda>status.
     bind_outcome (vector_rules (va_rules acl)) (\<lambda>rules.
       let result = evaluate_acl (vector_principal acl status) (va_scope_installation acl) (va_namespace acl) Publish rules 1
       in bind_outcome (acl_decision_named (va_expected_decision acl)) (\<lambda>expected.
         assert_that (ae_decision result = expected))))"

definition vector_snapshot :: "ownership_vector \<Rightarrow> ownership_snapshot" where
  "vector_snapshot ownership =
     \<lparr>sn_id = \<lparr>os_snapshot_id = ''snap-1'', os_snapshot_version = 1\<rparr>,
      sn_installation_id = vo_installation_id ownership, sn_node_id = vo_node_id ownership, sn_mode = NodeLocal,
      sn_entries = map (\<lambda>e. \<lparr>no_namespace = vn_namespace e, no_owner_node_id = vn_owner_node e,
        no_owner_agent_id = (if vn_owner_node e = [] then [] else ''agent-1''),
        no_installation_id = vn_installation e, no_mode = NodeLocal\<rparr>) (vo_entries ownership)\<rparr>"

definition check_ownership :: "ownership_vector \<Rightarrow> unit outcome" where
  "check_ownership ownership =
     assert_that (is_ok (validate_ownership_snapshot (vector_snapshot ownership)) = vo_valid ownership)"

subsection \<open>Quotas and profiles\<close>

definition priority_named :: "string \<Rightarrow> priority_class outcome" where
  "priority_named s =
     (if s = ''P0'' then Done P0 else if s = ''P1'' then Done P1 else if s = ''P2'' then Done P2
      else if s = ''BACKGROUND'' then Done Background else Panicked)"

definition quota_producer :: "priority_class \<Rightarrow> registered_producer" where
  "quota_producer priority =
     \<lparr>rp_installation_id = ''installation-a'', rp_producer_id = ''producer-a'',
      rp_producer_instance_id = ''instance-1'', rp_integration_id = ''reference'',
      rp_paper_plugin_id = ''ReferencePlugin'', rp_lifecycle_state = Active,
      rp_allowed_namespaces = [''economy''], rp_priority_class = priority, rp_quota_class = Standard,
      rp_policy_binding_id = ''binding-1''\<rparr>"

definition quota_result :: "bool \<Rightarrow> quota_admission_vector \<Rightarrow> priority_class \<Rightarrow> admission_result outcome" where
  "quota_result checks quota priority =
     evaluate_admission checks (quota_producer priority)
       \<lparr>pq_producer_id = ''producer-a'', pq_in_flight_publishes = vx_in_flight quota,
        pq_max_in_flight_publishes = vx_max_in_flight quota, pq_queued_publishes = 0, pq_max_queued_publishes = 50,
        pq_in_flight_bytes = 0, pq_max_in_flight_bytes = 100000\<rparr>
       \<lparr>nq_namespace = ''economy'', nq_in_flight_publishes = 10, nq_max_in_flight_publishes = 200\<rparr>
       \<lparr>gq_in_flight_publishes = vx_global_in_flight quota, gq_max_in_flight_publishes = vx_global_max quota,
        gq_reserved_p0_capacity = vx_reserved_p0 quota, gq_used_p0_capacity = vx_used_p0 quota\<rparr>
       100 (vx_namespace_owned quota)"

definition admission_named :: "string \<Rightarrow> admission_decision outcome" where
  "admission_named s =
     (if s = ''ADMITTED'' then Done Admitted else if s = ''REJECTED'' then Done AdmissionRejected else Panicked)"

definition check_quota :: "bool \<Rightarrow> quota_admission_vector \<Rightarrow> unit outcome" where
  "check_quota checks quota =
     bind_outcome (priority_named (vx_producer_priority quota)) (\<lambda>priority.
     bind_outcome (quota_result checks quota priority) (\<lambda>result.
     bind_outcome (admission_named (vx_expected quota)) (\<lambda>expected.
       assert_that (ad_decision result = expected))))"

definition vector_profile :: "kafka_profile_vector \<Rightarrow> kafka_durability_profile" where
  "vector_profile profile =
     \<lparr>kd_profile_id = ''test'', kd_replication_factor = vk_rf profile, kd_min_insync_replicas = vk_min_isr profile,
      kd_required_acks = vk_acks profile, kd_topic_reference = ''events'', kd_profile_version = 1\<rparr>"

definition check_profile :: "kafka_profile_vector \<Rightarrow> unit outcome" where
  "check_profile profile =
     assert_that (is_ok (validate_p0_kafka_profile (vector_profile profile)) = vk_valid_p0 profile)"

subsection \<open>The test\<close>

definition shared_vectors_are_valid ::
    "bool \<Rightarrow> (bytes \<Rightarrow> checksum) \<Rightarrow> string \<Rightarrow> shared_vectors \<Rightarrow> unit outcome" where
  "shared_vectors_are_valid checks sha protocol vectors = assert_all
     [check_identifiers_and_digests sha vectors,
      check_scopes_and_metadata sha vectors,
      check_envelopes sha vectors,
      check_barrier_and_token sha vectors,
      check_protocol protocol,
      assert_all (map check_registration (vs_sprint2_producer_registration vectors)),
      assert_all (map check_acl (vs_sprint2_acl vectors)),
      assert_all (map check_ownership (vs_sprint2_ownership vectors)),
      assert_all (map (check_quota checks) (vs_sprint2_quota_admission vectors)),
      assert_all (map check_profile (vs_sprint2_kafka_profile vectors)),
      check_protocol_types protocol]"

subsection \<open>Lemmas\<close>

lemma assert_that_Done [simp]: "assert_that b = Done u \<longleftrightarrow> b"
  by (simp add: assert_that_def)

lemma first_item_Cons [simp]: "first_item (x # xs) = Done x"
  by (simp add: first_item_def)

lemma assert_all_Done: "assert_all xs = Done u \<longleftrightarrow> list_all (\<lambda>x. x = Done ()) xs"
  by (induction xs) (simp_all add: assert_all.simps bind_outcome_eq_Done)

lemma split_first_Some: "split_first p s = Some (b, a) \<Longrightarrow> s = b @ p @ a"
proof (induction s arbitrary: b)
  case Nil
  then show ?case by (auto simp: split_first.simps [of p "[]"] prefix_def split: if_splits)
next
  case (Cons c s)
  then show ?case
    by (auto simp: split_first.simps [of p "c # s"] prefix_def split: if_splits)
qed

lemma split_first_None: "split_first p s = None \<longleftrightarrow> \<not> sublist p s"
proof (induction s)
  case Nil
  then show ?case by (auto simp: split_first.simps [of p "[]"])
next
  case (Cons c s)
  then show ?case
    by (auto simp: split_first.simps [of p "c # s"] sublist_Cons_right split: if_splits)
qed

lemma contains_sublist: "contains s p \<longleftrightarrow> sublist p s"
  by (simp add: contains_def split_first_None)


lemma hex_value_digit: "n < 16 \<Longrightarrow> hex_value (hex_digit n) = Some n"
  by (simp add: hex_value_def Let_def of_char_hex_digit)

lemma u8_from_hex_digits: "u8_from_hex (hex_digit (unat b div 16)) (hex_digit (unat b mod 16)) = Done b"
proof -
  have "hex_digit (unat b div 16) \<noteq> CHR ''+''"
  proof
    assume "hex_digit (unat b div 16) = CHR ''+''"
    then have "(of_char (hex_digit (unat b div 16)) :: nat) = of_char (CHR ''+'')" by simp
    with byte_high_nibble [of b] show False by (simp add: of_char_hex_digit split: if_splits)
  qed
  moreover have "(of_nat (16 * (unat b div 16) + unat b mod 16) :: byte) = b" by simp
  ultimately show ?thesis
    using byte_high_nibble [of b] by (simp add: u8_from_hex_def hex_value_digit del: of_nat_add of_nat_mult)
qed

text \<open>Reading hexadecimal text back gives the bytes it was printed from.\<close>

lemma decode_hex_hex: "decode_hex (hex bs) = Done bs"
  by (induction bs) (simp_all add: hex_def u8_from_hex_digits)

lemma length_hex [simp]: "length (hex bs) = 2 * length bs"
  by (induction bs) (simp_all add: hex_def)

definition lower_hex :: "char \<Rightarrow> bool" where
  "lower_hex c \<longleftrightarrow> c \<in> set ''0123456789abcdef''"

lemma lower_hex_digit: "lower_hex c \<Longrightarrow> \<exists>n<16. c = hex_digit n"
proof -
  have "map hex_digit [0..<16] = ''0123456789abcdef''" by code_simp
  then have "set ''0123456789abcdef'' = hex_digit ` {..<16}" by (metis atLeast_upt list.set_map)
  then have "lower_hex c \<longleftrightarrow> c \<in> hex_digit ` {..<16}" by (simp only: lower_hex_def)
  then show "lower_hex c \<Longrightarrow> \<exists>n<16. c = hex_digit n" by blast
qed

lemma hex_two_digits:
  assumes "m < 16" "n < 16"
  shows "hex [of_nat (16 * m + n)] = [hex_digit m, hex_digit n]"
proof -
  have "unat (of_nat (16 * m + n) :: byte) = 16 * m + n"
    using assms by (simp add: unat_of_nat del: of_nat_add of_nat_mult)
  then show ?thesis using assms by (simp add: hex_def del: of_nat_add of_nat_mult)
qed

text \<open>Every text of an even number of lower-case digits is printed from bytes.\<close>

lemma lower_hex_is_hex:
  "list_all lower_hex s \<Longrightarrow> even (length s) \<Longrightarrow> \<exists>bs. s = hex bs \<and> length s = 2 * length bs"
proof (induction s rule: decode_hex.induct)
  case (3 c d s)
  then obtain bs m n where s: "s = hex bs" "length s = 2 * length bs"
    and digits: "m < 16" "c = hex_digit m" "n < 16" "d = hex_digit n"
    using lower_hex_digit [of c] lower_hex_digit [of d] by auto
  have "hex (of_nat (16 * m + n) # bs) = hex [of_nat (16 * m + n)] @ hex bs" by (simp add: hex_def)
  also have "\<dots> = c # d # s" using hex_two_digits [of m n] digits s by simp
  finally show ?case by (intro exI [of _ "of_nat (16 * m + n) # bs"]) (simp add: s)
qed (simp_all add: hex_def)

lemma uuid_vectors_hold: "list_all (\<lambda>v. is_canonical_uuid_v7 (vu_value v) = vu_valid v) uuid_v7_data"
  by code_simp

lemma scope_vectors_hold:
  "list_all (\<lambda>s. scoped_name (vi_installation_id s) (vi_name s) = vi_scoped s) installation_scope_data"
  by code_simp

lemma metadata_vectors_hold:
  "map (\<lambda>m. canonical_metadata_text (metadata_entries_of (vm_entries m))) metadata_canonicalization_data =
     [Inr ''a=first|z=last'']"
  "map (\<lambda>r. canonicalize_metadata (metadata_entries_of (vj_entries r))) metadata_rejections_data =
     [Inl DuplicateMetadataKey]"
  by (simp_all add: metadata_canonicalization_data_def metadata_rejections_data_def metadata_entries_of_def metadata_eval)

lemma registration_vectors_hold: "assert_all (map check_registration sprint2_producer_registration_data) = Done ()"
  by code_simp

lemma acl_vectors_hold: "assert_all (map check_acl sprint2_acl_data) = Done ()"
  by code_simp

lemma ownership_vectors_hold: "assert_all (map check_ownership sprint2_ownership_data) = Done ()"
  by code_simp

lemma quota_vectors_hold: "assert_all (map (check_quota checks) sprint2_quota_admission_data) = Done ()"
  by (cases checks) code_simp+

lemma profile_vectors_hold: "assert_all (map check_profile sprint2_kafka_profile_data) = Done ()"
  by code_simp

text \<open>
  The request whose fingerprint is recorded: for each field its number (two bytes), a presence byte,
  the length (four bytes) and the value.
\<close>

definition fingerprint_field :: "int \<Rightarrow> bytes \<Rightarrow> bytes" where
  "fingerprint_field n v = be_bytes 2 n @ [1] @ be_bytes 4 (int (length v)) @ v"

definition fingerprint_message :: bytes where
  "fingerprint_message =
     fingerprint_field 1 (str_bytes ''01890f3e-7b4c-7cc2-98c8-3f0f5f3f9b4a'') @
     fingerprint_field 2 (str_bytes ''producer-a'') @ fingerprint_field 3 (str_bytes ''economy'') @
     fingerprint_field 4 (str_bytes ''account'') @ fingerprint_field 5 (str_bytes ''transfer'') @
     fingerprint_field 6 (be_i32 1) @ fingerprint_field 7 (str_bytes ''account-1'') @
     fingerprint_field 8 (str_bytes ''op-1'') @ fingerprint_field 9 (str_bytes ''REPLICATED'') @
     fingerprint_field 10 (str_bytes ''CraftRelay'') @ fingerprint_field 11 (str_bytes ''a=1;z=9'') @
     fingerprint_field 12 (be_i32 1)"

lemma be_bytes_unfold:
  "be_bytes 2 i = [word_of_int (i div 256), word_of_int i]"
  "be_bytes 4 i = [word_of_int (i div 256 div 256 div 256), word_of_int (i div 256 div 256),
     word_of_int (i div 256), word_of_int i]"
proof -
  have "be_bytes (Suc (Suc 0)) i = [word_of_int (i div 256), word_of_int i]" by simp
  then show "be_bytes 2 i = [word_of_int (i div 256), word_of_int i]" by (simp only: numeral_2_eq_2)
  have "be_bytes (Suc (Suc (Suc (Suc 0)))) i = [word_of_int (i div 256 div 256 div 256), word_of_int (i div 256 div 256),
     word_of_int (i div 256), word_of_int i]" by simp
  then show "be_bytes 4 i = [word_of_int (i div 256 div 256 div 256), word_of_int (i div 256 div 256),
     word_of_int (i div 256), word_of_int i]" by (simp add: eval_nat_numeral)
qed

lemma hex_digit_eval:
  "hex_digit 0 = CHR ''0''" "hex_digit (Suc 0) = CHR ''1''" "hex_digit 2 = CHR ''2''" "hex_digit 3 = CHR ''3''"
  "hex_digit 4 = CHR ''4''" "hex_digit 5 = CHR ''5''" "hex_digit 6 = CHR ''6''" "hex_digit 7 = CHR ''7''"
  "hex_digit 8 = CHR ''8''" "hex_digit 9 = CHR ''9''" "hex_digit 10 = CHR ''a''" "hex_digit 11 = CHR ''b''"
  "hex_digit 12 = CHR ''c''" "hex_digit 13 = CHR ''d''" "hex_digit 14 = CHR ''e''" "hex_digit 15 = CHR ''f''"
  by code_simp+

lemma hex_fingerprint_message: "hex fingerprint_message = vf_canonical_hex (hd fingerprint_data)"
  by (simp add: fingerprint_message_def fingerprint_field_def hex_digit_eval hex_def be_bytes_unfold fingerprint_data_def)


text \<open>The messages with a recorded digest, the token text and the recorded keyed digest of it.\<close>

definition token_text :: string where
  "token_text = ''v=1|installation=installation-a|producer=producer-a|projector=projector-a|projection=accounts|scope=account:1|expires=1893456000000|events:0=42''"

definition listed_digests :: "(bytes \<times> string) list" where
  "listed_digests =
     [(str_bytes ''CraftRelay'',
       ''b43a068b8c1f4289ec1a91fce360a3268a17479e509beb715a3790a962d7a750''),
      (fingerprint_message,
       ''6594ba4b50597d8746ca7aff3c5e1cab10143239ce41689071e4860b212b8b5d''),
      (str_bytes ''a=first|z=last'',
       ''efe0f44780d34543dcd2cd3261a94da5b77d794255ce287116b2604acb479fae''),
      (str_bytes ''event_id=01890f3e-7b4c-7cc2-98c8-3f0f5f3f9b4a|schema_version=1|metadata=a=first,z=last|payload=02'',
       ''98892a3bb39988b3ec3a948cac9a7d055c50cb37b8ae5bcb4469af846bf10102''),
      (str_bytes (''installation-a'' @ [nul] @ ''01890f3e-7b4c-7cc2-98c8-3f0f5f3f9b4a'' @ [nul] @ ''1''),
       ''452281e1e1270719e44f07d588fc97888407ae9d8373658a007ead3b40869e53''),
      (str_bytes (''1'' @ [nul] @ ''LOCAL_ACCEPTED''),
       ''3e9242feef2479602f984385e52097eb72ba463541423ce178cdf0699fb1ac91''),
      (str_bytes ''v=1|topology=3|routing=7|events:0=0|events:1=42'',
       ''d73cf4167cc5ec91769dde542cbeef8ee6c78aefc4eff59a9b332cb1053fa090''),
      (str_bytes token_text,
       ''08096e7b2c0c57df5ec73fc53abd87a896dc494e0d3a1e85e3007f4aaf25a881'')]"

definition listed_mac :: string where
  "listed_mac = ''0714a7093b8ffec803649c777d5625bd32acddf45f0aaf02cd6616be8d9a855a''"

text \<open>
  What the test needs of the digest function and of the protocol text.
\<close>

definition digests_as_listed :: "(bytes \<Rightarrow> checksum) \<Rightarrow> bool" where
  "digests_as_listed sha \<longleftrightarrow>
     list_all (\<lambda>(message, digest). hex (bytes_of (sha message)) = digest) listed_digests \<and>
     hex (bytes_of (hmac_sha256 sha (str_bytes ''fixture-hmac-key-material'') (str_bytes token_text))) = listed_mac"

definition protocol_as_expected :: "string \<Rightarrow> bool" where
  "protocol_as_expected protocol \<longleftrightarrow>
     (\<exists>body. stored_envelope_body protocol = Done body \<and> list_all (\<lambda>f. \<not> sublist f body) forbidden_fields) \<and>
     list_all (\<lambda>t. sublist t protocol) ([''required_next_offset'', ''next_offset_to_resolve''] @ protocol_types)"

lemma load_vectors_simps [simp]:
  "vs_version load_vectors = 1" "vs_uuid_v7 load_vectors = uuid_v7_data"
  "vs_positive_boundaries load_vectors = boundary_data" "vs_payload_digest load_vectors = payload_digest_data"
  "vs_fingerprint load_vectors = fingerprint_data" "vs_installation_scope load_vectors = installation_scope_data"
  "vs_metadata_canonicalization load_vectors = metadata_canonicalization_data"
  "vs_metadata_rejections load_vectors = metadata_rejections_data"
  "vs_envelope_input load_vectors = envelope_input_data" "vs_envelope_checksum load_vectors = envelope_checksum_data"
  "vs_revision_checksums load_vectors = revision_checksums_data"
  "vs_projection_barrier load_vectors = projection_barrier_data"
  "vs_consistency_token load_vectors = consistency_token_data"
  "vs_query_freshness load_vectors = query_freshness_data" "vs_watch_freshness load_vectors = watch_freshness_data"
  "vs_sprint2_producer_registration load_vectors = sprint2_producer_registration_data"
  "vs_sprint2_acl load_vectors = sprint2_acl_data" "vs_sprint2_ownership load_vectors = sprint2_ownership_data"
  "vs_sprint2_quota_admission load_vectors = sprint2_quota_admission_data"
  "vs_sprint2_kafka_profile load_vectors = sprint2_kafka_profile_data"
  by (simp_all add: load_vectors_def)

lemma fingerprint_vector:
  "first_item fingerprint_data = Done \<lparr>vf_canonical_hex = hex fingerprint_message, vf_sha256 = snd (listed_digests ! 1)\<rparr>"
  unfolding hex_fingerprint_message by (simp add: fingerprint_data_def first_item_def listed_digests_def)

lemma check_identifiers_and_digests_iff:
  "check_identifiers_and_digests sha load_vectors = Done () \<longleftrightarrow>
     list_all (\<lambda>(message, digest). hex (bytes_of (sha message)) = digest) (take 2 listed_digests)"
  using uuid_vectors_hold
  by (auto simp: check_identifiers_and_digests_def assert_all_Done fingerprint_vector decode_hex_hex bind_outcome_eq_Done
      list_all_iff boundary_data_def payload_digest_data_def listed_digests_def)

lemma check_scopes_and_metadata_iff:
  "check_scopes_and_metadata sha load_vectors = Done () \<longleftrightarrow>
     list_all (\<lambda>(message, digest). hex (bytes_of (sha message)) = digest) [listed_digests ! 2]"
  using scope_vectors_hold metadata_vectors_hold
  by (auto simp: check_scopes_and_metadata_def assert_all_Done bind_outcome_eq_Done list_all_iff expect_def
      metadata_canonicalization_data_def metadata_rejections_data_def listed_digests_def)

lemma check_envelopes_iff:
  "check_envelopes sha load_vectors = Done () \<longleftrightarrow>
     list_all (\<lambda>(message, digest). hex (bytes_of (sha message)) = digest) (take 3 (drop 3 listed_digests))"
  by (auto simp: check_envelopes_def assert_all_Done bind_outcome_eq_Done envelope_input_data_def
      envelope_checksum_data_def revision_checksums_data_def listed_digests_def)

lemma check_barrier_and_token_iff:
  "check_barrier_and_token sha load_vectors = Done () \<longleftrightarrow>
     list_all (\<lambda>(message, digest). hex (bytes_of (sha message)) = digest) (drop 6 listed_digests) \<and>
     hex (bytes_of (hmac_sha256 sha (str_bytes ''fixture-hmac-key-material'') (str_bytes token_text))) = listed_mac"
  by (auto simp: check_barrier_and_token_def Let_def assert_all_Done projection_barrier_data_def consistency_token_data_def
      query_freshness_data_def watch_freshness_data_def listed_digests_def token_text_def listed_mac_def)

lemma protocol_checks_iff:
  "check_protocol protocol = Done () \<and> check_protocol_types protocol = Done () \<longleftrightarrow> protocol_as_expected protocol"
  by (auto simp: check_protocol_def check_protocol_types_def protocol_as_expected_def assert_all_Done
      bind_outcome_eq_Done contains_sublist list_all_iff)

lemma digests_as_listed_parts:
  "digests_as_listed sha \<longleftrightarrow>
     list_all (\<lambda>(message, digest). hex (bytes_of (sha message)) = digest) (take 2 listed_digests) \<and>
     list_all (\<lambda>(message, digest). hex (bytes_of (sha message)) = digest) [listed_digests ! 2] \<and>
     list_all (\<lambda>(message, digest). hex (bytes_of (sha message)) = digest) (take 3 (drop 3 listed_digests)) \<and>
     list_all (\<lambda>(message, digest). hex (bytes_of (sha message)) = digest) (drop 6 listed_digests) \<and>
     hex (bytes_of (hmac_sha256 sha (str_bytes ''fixture-hmac-key-material'') (str_bytes token_text))) = listed_mac"
proof -
  have "listed_digests = take 2 listed_digests @ [listed_digests ! 2] @ take 3 (drop 3 listed_digests) @ drop 6 listed_digests"
    by (simp add: listed_digests_def)
  then show ?thesis unfolding digests_as_listed_def by (metis list_all_append)
qed

text \<open>
  In either build, the conformance test passes on the checked-in vectors exactly when the digest
  function gives the recorded digests and keyed digest, and the protocol text keeps mutable fields out of the
  stored envelope and names the required messages. Every other assertion holds: the identifier,
  scope, metadata, registration, access, ownership, quota and profile vectors agree with the functions of the domain.
\<close>

theorem shared_vectors_pass_iff:
  "shared_vectors_are_valid checks sha protocol load_vectors = Done () \<longleftrightarrow>
     digests_as_listed sha \<and> protocol_as_expected protocol"
  using registration_vectors_hold acl_vectors_hold ownership_vectors_hold quota_vectors_hold [of checks] profile_vectors_hold
  by (simp add: shared_vectors_are_valid_def assert_all_Done check_identifiers_and_digests_iff
      check_scopes_and_metadata_iff check_envelopes_iff check_barrier_and_token_iff digests_as_listed_parts
      flip: protocol_checks_iff)

text \<open>
  The two conditions can be met: a digest table with the recorded values, and the names of
  \<^verbatim>\<open>contracts.proto\<close> that the test looks for.
\<close>

definition sample_mac_message :: bytes where
  "sample_mac_message =
     map ((XOR) 0x5c) (str_bytes ''fixture-hmac-key-material'' @ replicate 39 0) @ replicate 32 0"

definition digest_table :: "bytes \<Rightarrow> checksum" where
  "digest_table message =
     (case map_of ((sample_mac_message, listed_mac) # listed_digests) message of
        None \<Rightarrow> array_of (replicate 32 0)
      | Some digest \<Rightarrow> (case decode_hex digest of Done bs \<Rightarrow> array_of bs | Panicked \<Rightarrow> array_of (replicate 32 0)))"

definition protocol_excerpt :: string where
  "protocol_excerpt =
     ''message StoredEventEnvelope { bytes payload_digest = 10; }'' @
     ''required_next_offset next_offset_to_resolve ProducerLifecycleState CredentialReference AclEvaluationResult '' @
     ''EffectivePolicyResult OwnershipSnapshot AdmissionResult KafkaDurabilityProfile''"

lemma protocol_excerpt_expected: "protocol_as_expected protocol_excerpt"
proof -
  have "check_protocol protocol_excerpt = Done ()" by code_simp
  moreover have "check_protocol_types protocol_excerpt = Done ()" by code_simp
  ultimately show ?thesis by (simp flip: protocol_checks_iff)
qed

lemma digest_table_lookup:
  assumes "(message, digest) \<in> set ((sample_mac_message, listed_mac) # listed_digests)"
  shows "hex (bytes_of (digest_table message)) = digest"
proof -
  let ?table = "(sample_mac_message, listed_mac) # listed_digests"
  have "distinct (map fst ?table)" by code_simp
  from map_of_is_SomeI [OF this assms] have "map_of ?table message = Some digest" .
  moreover have "list_all (\<lambda>(_, d). list_all lower_hex d \<and> length d = 64) ?table" by code_simp
  then have "list_all lower_hex digest" "length digest = 64" using assms unfolding list_all_iff by blast+
  then obtain bs where "digest = hex bs" "length bs = 32" using lower_hex_is_hex [of digest] by fastforce
  ultimately show ?thesis by (simp add: digest_table_def decode_hex_hex)
qed

lemma digest_table_mac:
  "hex (bytes_of (hmac_sha256 digest_table (str_bytes ''fixture-hmac-key-material'') (str_bytes token_text))) = listed_mac"
proof -
  let ?key = "str_bytes ''fixture-hmac-key-material'' @ replicate 39 0"
  have key: "hmac_padded_key digest_table (str_bytes ''fixture-hmac-key-material'') = ?key"
    by (simp add: hmac_padded_key_def drop_replicate)
  have "length ?key = 64" by simp
  note xor = xor_block_const [OF this]
  have "map_of ((sample_mac_message, listed_mac) # listed_digests) (map ((XOR) 0x36) ?key @ str_bytes token_text) = None"
    by code_simp
  then have inner: "bytes_of (digest_table (map ((XOR) 0x36) ?key @ str_bytes token_text)) = replicate 32 0"
    by (simp add: digest_table_def)
  show ?thesis
    unfolding hmac_sha256_def Let_def key xor inner
    by (rule digest_table_lookup) (simp add: sample_mac_message_def)
qed

lemma digest_table_as_listed: "digests_as_listed digest_table"
  unfolding digests_as_listed_def using digest_table_lookup digest_table_mac by (auto simp: list_all_iff)

theorem shared_vectors_pass_iff_witness:
  "shared_vectors_are_valid True digest_table protocol_excerpt load_vectors = Done ()"
  using shared_vectors_pass_iff digest_table_as_listed protocol_excerpt_expected by blast

subsection \<open>Recorded answers the test does not compare\<close>

text \<open>
  The vectors also record the reason of each refusal, and a group for policy resolution; the test reads
  them and compares neither. The functions of the domain give these answers too.
\<close>

definition registration_reason :: "producer_registration_rejection \<Rightarrow> string" where
  "registration_reason r =
     (case r of DuplicateProducer \<Rightarrow> ''DUPLICATE'' | DisabledProducer \<Rightarrow> ''DISABLED'' | SuspendedProducer \<Rightarrow> ''SUSPENDED''
      | CrossInstallationProducer \<Rightarrow> ''CROSS_INSTALLATION'' | InvalidManifest \<Rightarrow> ''INVALID_MANIFEST''
      | NamespaceDeniedProducer \<Rightarrow> ''NAMESPACE_DENIED'')"

definition acl_reason :: "acl_deny_reason \<Rightarrow> string" where
  "acl_reason r =
     (case r of NoMatchingRule \<Rightarrow> ''NO_MATCHING_RULE'' | ExplicitDeny \<Rightarrow> ''EXPLICIT_DENY''
      | CredentialInvalid \<Rightarrow> ''CREDENTIAL_INVALID'' | CredentialRevoked \<Rightarrow> ''CREDENTIAL_REVOKED''
      | CredentialExpired \<Rightarrow> ''CREDENTIAL_EXPIRED'' | CrossInstallation \<Rightarrow> ''CROSS_INSTALLATION''
      | NamespaceDenied \<Rightarrow> ''NAMESPACE_DENIED'')"

lemma registration_reasons_hold:
  "list_all (\<lambda>reg. case lifecycle_named (vg_lifecycle reg) of
       Done lifecycle \<Rightarrow>
         (case validate_producer_registration (registration_producer reg lifecycle) ''installation-a'' [] of
            Inl r \<Rightarrow> vg_rejection reg = Some (registration_reason r)
          | Inr _ \<Rightarrow> vg_rejection reg = None)
     | Panicked \<Rightarrow> False) sprint2_producer_registration_data"
  by code_simp

lemma acl_reasons_hold:
  "list_all (\<lambda>acl. case (credential_status_named (va_credential_status acl), vector_rules (va_rules acl)) of
       (Done status, Done rules) \<Rightarrow>
         va_expected_reason acl = None \<or>
         map_option acl_reason (ae_deny_reason (evaluate_acl (vector_principal acl status) (va_scope_installation acl)
           (va_namespace acl) Publish rules 1)) = va_expected_reason acl
     | _ \<Rightarrow> False) sprint2_acl_data"
  by code_simp

lemma ownership_reasons_hold:
  "map (\<lambda>v. validate_ownership_snapshot (vector_snapshot v)) sprint2_ownership_data =
     [Inr (), Inl [DuplicateOwnedNamespace], Inl [ForeignInstallation], Inl [MissingOwner]]"
  "map vo_violation sprint2_ownership_data =
     [None, Some ''DUPLICATE_NAMESPACE'', Some ''CROSS_INSTALLATION'', Some ''MISSING_OWNER'']"
  by code_simp+

lemma quota_reasons_hold:
  "map (\<lambda>v. map_outcome ad_rejection_reason (quota_result checks v
       (if vx_producer_priority v = ''P0'' then P0 else if vx_producer_priority v = ''P1'' then P1 else P2)))
     sprint2_quota_admission_data =
     map Done [None, Some ProducerInFlightExceeded, Some P0CapacityReserved, None, Some AdmissionNotLocallyOwned]"
  "map vx_reason sprint2_quota_admission_data =
     [None, Some ''PRODUCER_IN_FLIGHT_EXCEEDED'', Some ''P0_CAPACITY_RESERVED'', None, Some ''NOT_LOCALLY_OWNED'']"
  by (cases checks; code_simp) code_simp

lemma profile_reasons_hold:
  "map (\<lambda>v. validate_p0_kafka_profile (vector_profile v)) sprint2_kafka_profile_data =
     [Inr (), Inl WeakenedDurability, Inl InvalidAcks]"
  "map vk_error sprint2_kafka_profile_data = [None, Some ''WEAKENED_DURABILITY'', Some ''INVALID_ACKS'']"
  by code_simp+

text \<open>
  A policy vector as a request: an otherwise admissible context and configuration with the fields of
  the vector.
\<close>

definition durability_named :: "string \<Rightarrow> durability_class" where
  "durability_named s = (if s = ''LOCAL_DURABLE'' then LocalDurable else ReplicatedDurable)"

definition vector_context :: "policy_resolution_vector \<Rightarrow> producer_lifecycle_state \<Rightarrow> acl_decision \<Rightarrow> policy_resolution_context" where
  "vector_context v lifecycle decision = sample_context\<lparr>
     cx_installation_id := vy_installation_id v,
     cx_producer := sample_producer\<lparr>rp_installation_id := vy_installation_id v, rp_lifecycle_state := lifecycle\<rparr>,
     cx_acl_result := (cx_acl_result sample_context)\<lparr>ae_decision := decision\<rparr>,
     cx_namespace := vy_namespace v, cx_requested_durability := durability_named (vy_requested_durability v)\<rparr>"

definition vector_configuration :: "policy_resolution_vector \<Rightarrow> policy_configuration" where
  "vector_configuration v = sample_config\<lparr>
     pc_installation_id := vy_installation_id v, pc_minimum_durability := durability_named (vy_minimum_durability v)\<rparr>"

definition policy_result :: "policy_resolution_vector \<Rightarrow> effective_policy_result outcome" where
  "policy_result v =
     bind_outcome (lifecycle_named (vy_producer_lifecycle v)) (\<lambda>lifecycle.
     bind_outcome (acl_decision_named (vy_acl_decision v)) (\<lambda>decision.
       resolve_policy (vector_context v lifecycle decision) (vector_configuration v) (vy_owned_namespaces v)))"

lemma policy_vectors_hold:
  "map (\<lambda>v. map_outcome (\<lambda>r. (ep_admission_decision r, ep_rejection_reason r)) (policy_result v))
     sprint2_policy_resolution_data =
     map Done [(Admitted, None), (AdmissionRejected, Some DurabilityWeakening), (AdmissionRejected, Some NotLocallyOwned),
       (AdmissionRejected, Some ProducerDisabled), (AdmissionRejected, Some AclDenied)]"
  "map (\<lambda>v. (vy_expected_admission v, vy_expected_reason v)) sprint2_policy_resolution_data =
     [(''ADMITTED'', None), (''REJECTED'', Some ''DURABILITY_WEAKENING''), (''REJECTED'', Some ''NOT_LOCALLY_OWNED''),
      (''REJECTED'', Some ''PRODUCER_DISABLED''), (''REJECTED'', Some ''ACL_DENIED'')]"
  by code_simp+

end
