(* ===== verification/Spec2Isabelle.thy ===== *)
theory Spec2Isabelle
  imports Domain_Metadata Domain_Flush Domain_Acl Domain_Policy Domain_Admission Domain_Profile
    Journal_Log Journal_Typing Kafka_Stream Bench_Main Agent_Barrier Testkit_Test
begin

text \<open>
  CraftRelay relays events of game servers to Kafka without losing or reordering them. Its Rust
  workspace (\<^verbatim>\<open>src/crates\<close>) has these parts:

  \<^item> \<^verbatim>\<open>craftrelay-domain\<close>: pure decision functions, namely metadata canonicalisation, flush policy,
    registration and manifests, credentials and access rules, ownership, policy resolution,
    admission and quotas, Kafka profiles.
  \<^item> \<^verbatim>\<open>craftrelay-journal\<close>: the local journal on SQLite. \<^verbatim>\<open>accept\<close> stores an event once, with its
    sequences and checksums; lifecycle and delivery states are changed by compare-and-set methods;
    every read verifies checksums; scans list deliveries for the delivery service.
  \<^item> \<^verbatim>\<open>craftrelay-kafka-delivery\<close>: \<^verbatim>\<open>DeliveryService\<close> takes a delivery from the journal, asks the
    \<^verbatim>\<open>OrderingGate\<close>, checks routing and profile, sends through a \<^verbatim>\<open>KafkaProducer\<close> and records the
    outcome in journal and gate; after a restart it rebuilds the gate from a journal scan.
  \<^item> \<^verbatim>\<open>craftrelay-journal-bench\<close>: compares storage candidates for the journal. A producer thread offers
    synthetic events to a bounded channel; the writer takes them in batches and writes them with group
    commit into one database or into segments that roll over; a report is made of the run.
  \<^item> \<^verbatim>\<open>craftrelay-agent\<close>: captures read-committed offsets from the broker for a projection barrier.
  \<^item> \<^verbatim>\<open>craftrelay-testkit\<close>: vectors shared between the implementations, and the test that the domain
    functions give the recorded answers.
  \<^item> \<^verbatim>\<open>craftrelay-protocol\<close>: constants and plain data types.

  \<^bold>\<open>Layout.\<close> \<open>Relay_Prelude\<close> (results that may panic, machine integers, bytes, checksums),
  \<open>Relay_Text\<close> (decimal, hexadecimal, NUL-separated and \<^verbatim>\<open>Debug\<close> text) and \<open>Relay_Table\<close> (SQL statements on
  tables with a primary key) are shared. \<open>Domain_Core\<close>, \<open>_Metadata\<close>, \<open>_Flush\<close>, \<open>_Registration\<close>,
  \<open>_Acl\<close>, \<open>_Policy\<close>, \<open>_Admission\<close> and \<open>_Profile\<close> follow \<^verbatim>\<open>domain/src/lib.rs\<close> (the last also
  \<^verbatim>\<open>kafka-delivery/src/profile.rs\<close>). \<open>Journal_Types\<close>, \<open>_Checksum\<close>, \<open>_Read\<close>, \<open>_Accept\<close>, \<open>_Delivery\<close>,
  \<open>_Scan\<close> and \<open>_Schema\<close> hold the definitions of \<^verbatim>\<open>journal/src/lib.rs\<close>; \<open>Journal_Integrity\<close>,
  \<open>_Transitions\<close>, \<open>_System\<close>, \<open>_Typing\<close>, \<open>_Cas\<close> and \<open>_Log\<close> prove about them. \<open>Kafka_Gate\<close> is \<^verbatim>\<open>gate.rs\<close>, \<open>Kafka_Policy\<close>
  \<^verbatim>\<open>producer.rs\<close>, \<^verbatim>\<open>routing.rs\<close>, \<^verbatim>\<open>retry.rs\<close>, \<^verbatim>\<open>repair.rs\<close> and \<^verbatim>\<open>replicated.rs\<close>, \<open>Kafka_Service\<close>
  \<^verbatim>\<open>service.rs\<close>; \<open>Kafka_Ordering\<close>, \<open>Kafka_Progress\<close> and \<open>Kafka_Stream\<close> prove about the service. \<open>Bench_Candidate\<close> and
  \<open>Bench_Segments\<close> are the two candidates of \<^verbatim>\<open>journal-bench/src/candidate.rs\<close>, \<open>Bench_Pipeline\<close> is
  \<^verbatim>\<open>ingress.rs\<close>, \<open>Bench_Main\<close> \<^verbatim>\<open>main.rs\<close> and \<^verbatim>\<open>report.rs\<close>, \<open>Agent_Barrier\<close> \<^verbatim>\<open>agent/src/barrier_capture.rs\<close>.
  \<open>Testkit_Vectors\<close> and \<open>Testkit_Test\<close> are \<^verbatim>\<open>testkit/src/lib.rs\<close> with \<^verbatim>\<open>test-vectors/v1/shared-vectors.json\<close>. A struct is a record
  whose fields carry a two-letter prefix, an enum a datatype, a method one definition with the
  state as last argument and the changed state in its result.

  \<^bold>\<open>Modelling.\<close> Integers are \<open>int\<close> with the range of the Rust type; an unchecked addition is
  \<open>arith_i32\<close> or \<open>arith_i64\<close>, which panics or wraps according to the overflow setting of the build, a
  parameter; the \<^verbatim>\<open>u32\<close> record counters of the segmented benchmark candidate are \<open>nat\<close> with \<open>arith_u32\<close>. \<open>outcome\<close> separates a panic from a result. SHA-256 is a parameter; where a property needs
  that it does not collide, it says so for the two inputs at hand. SQLite is modelled by the meaning
  of the statements the code sends; an environment per call says which statements fail, so
  properties hold for every pattern of engine failures. A batch of \<^verbatim>\<open>CREATE\<close> statements keeps the effect
  of those before the one that fails, and the WAL mode persists in the file (\<open>db_file\<close>). Rows that tie in an \<^verbatim>\<open>ORDER BY\<close> keep their
  table order. A failed statement leaves the transaction open and the code decides what to do with
  it; an engine that rolls a transaction back by itself in the middle of a call is not modelled. A
  panic while the connection is locked poisons it (\<open>with_conn\<close>). The producer is an arbitrary
  function from requests to answers, and the service records what it sent. Other users of the shared
  journal may call it before an attempt and between the calls of one (\<open>at_other\<close>, \<open>meanwhile\<close>). Threads of
  the benchmark are an interleaving of steps (\<open>pipeline_step\<close>). No definition needs fuel: the loops run
  over lists or have a measure (\<open>batch_scan\<close>, \<open>mono_loop\<close>), except the loop of the segmented candidate,
  a partial function (\<open>seg_loop\<close>) whose termination is a theorem because it does not always end.

  \<^bold>\<open>What is shown.\<close>

  \<^item> Journal: \<^verbatim>\<open>accept\<close> refines an append-only log of events (\<open>log_accept\<close>, \<open>journal_log\<close>); an
    accepted event is durable, immutable and read back as answered; a call that is not answered \<^verbatim>\<open>Accepted\<close>
    changes no data; an event sent again, after whatever calls, is recognised as the duplicate or conflict it is; exactly
    which requests are accepted, and with which sequences; sequences are contiguous per journal
    and per stream; histories are bounded; every reachable state is sound (\<open>journal_step\<close>,
    \<open>journal_inv\<close>) and well-typed (\<open>db_typed\<close>); altered rows are detected; opening never touches stored rows.
  \<^item> Delivery states: the locale \<open>cas_store\<close>, interpreted on both tables, gives that concurrent
    transitions lose no update; confirmation changes both rows or none; a replicated delivery is
    final; an accepted event can be replicated.
  \<^item> Ordering: the locale \<open>stream_gate\<close>, interpreted on the code's gate, gives in-order completion. The
    service is a state machine (\<open>service_step\<close>) whose steps are attempts, recovery, shutdown and calls of others, all
    with any failures: an answer \<^verbatim>\<open>Replicated\<close> is durable, a replicated event is not sent
    again by any service on the journal, a delivery that does not match its routing or profile is blocked and
    not sent, and without failures the waiting deliveries of a stream are sent and replicated in order, each once.
    Recovery rebuilds the gate from the delivery rows alone. Where no delivery row lacks the row of a predecessor
    in its stream when it runs (\<open>ordered_reach\<close>, \<open>deliveries_gapless\<close>), the service keeps the invariant that every
    sequence before the one a stream is at is replicated; then, where no two streams share a stream key
    (\<open>stream_keys_separate\<close>), a request is sent only after all its predecessors are replicated. The theorems
    \<open>recovered_gate_skips_missing_predecessor\<close> and \<open>gate_confuses_namespaces\<close> show why both conditions are needed.
  \<^item> Domain: exact characterisations of what is accepted by manifest, registration, access,
    ownership, policy and flush decisions; quotas hold when admission succeeds; a profile accepted
    for delivery and one without drift keep the zero-loss settings.
  \<^item> Benchmark: a batch is maximal within its limits; written, failed and stored records agree for both
    candidates; segments keep their limit, their counts (for fewer than $2^{32}$ records, the range of the
    counters) and gapless sequences; the segmented write
    returns unless its rollover limit is zero. The locale \<open>batch_writer\<close>, interpreted on both
    candidates and on their runner, gives that every schedule of the pipeline ends (for a
    rollover limit other than zero) and accounts for every event, and the report adds up.
  \<^item> Agent: exactly which captures succeed, and with which offsets.
  \<^item> Test kit: the conformance test, evaluated on the checked-in vectors, passes exactly when the digest
    function gives the recorded digests and the protocol text meets its checks; further lemmas compare the
    recorded reasons and the policy vectors, which the test does not.
  \<^item> Behaviour that differs from what the code or its documents intend is stated as theorems too,
    such as \<open>retry_of_blocked_delivery_corrupts\<close>, \<open>unrecorded_failure_holds_stream\<close>,
    \<open>gate_confuses_namespaces\<close>, \<open>partition_key_is_ambiguous\<close>, \<open>zero_rollover_from_command_line\<close> or \<open>wildcard_crosses_namespace_boundary\<close>.

  \<^bold>\<open>Not modelled.\<close> Of the benchmark: the preparation of the run directory and the
  output of the report (file and console I/O); elapsed times and floating point numbers enter as
  inputs and as an abstract type. The constructor of the agent's adapter (client options). Data types
  without operations: those of the protocol crate and the envelope, profile, projection and token
  structs of the domain that no function uses. The JSON parser of the test kit. The
  pragmas are modelled as the statements that are run and may fail, with the journal mode they leave in the file; their
  effect on durability is SQLite's. A new segment of the benchmark is a fresh database file.
\<close>

end
